(* ===== verification/Cellule_Prelude.thy ===== *)
theory Cellule_Prelude
  imports Main "HOL-Library.Word" "HOL-Library.List_Lexorder" "HOL-Library.Multiset"
    "HOL-Library.AList"
begin

text \<open>
  The vocabulary every component of the development shares: Rust's machine integers and
  their checked, saturating and wrapping operations, the error type of the runtime
  (\<^verbatim>\<open>crates/cellule-runtime/src/error.rs\<close>) with its result type, byte strings and UTF-8.

  Unsigned integers keep their width as words (\<open>usize\<close> is 64 bits wide). Signed 64-bit
  times are integers, and every operation of the source that could leave the 64-bit
  range is written with its check.
\<close>

named_theorems rust_simps \<open>defining equations of Rust's integer and result operations\<close>

subsection \<open>Machine integers\<close>

type_synonym u8 = "8 word"
type_synonym u16 = "16 word"
type_synonym u32 = "32 word"
type_synonym u64 = "64 word"
type_synonym usize = "64 word"
type_synonym i64 = int
type_synonym u128 = nat

definition i64_MAX :: int where
  "i64_MAX = 2 ^ 63 - 1"

definition i64_MIN :: int where
  "i64_MIN = - (2 ^ 63)"

definition is_i64 :: "int \<Rightarrow> bool" where
  "is_i64 x \<longleftrightarrow> i64_MIN \<le> x \<and> x \<le> i64_MAX"

definition i64_checked_add :: "i64 \<Rightarrow> i64 \<Rightarrow> i64 option" where
  "i64_checked_add a b = (if is_i64 (a + b) then Some (a + b) else None)"

definition i64_saturating_sub :: "i64 \<Rightarrow> i64 \<Rightarrow> i64" where
  "i64_saturating_sub a b = max i64_MIN (min i64_MAX (a - b))"

definition checked_add :: "'a::len word \<Rightarrow> 'a word \<Rightarrow> 'a word option" where
  "checked_add a b = (if unat a + unat b < 2 ^ LENGTH('a) then Some (a + b) else None)"

definition checked_sub :: "'a::len word \<Rightarrow> 'a word \<Rightarrow> 'a word option" where
  "checked_sub a b = (if b \<le> a then Some (a - b) else None)"

definition saturating_add :: "'a::len word \<Rightarrow> 'a word \<Rightarrow> 'a word" where
  "saturating_add a b = (if unat a + unat b < 2 ^ LENGTH('a) then a + b else - 1)"

definition saturating_sub :: "'a::len word \<Rightarrow> 'a word \<Rightarrow> 'a word" where
  "saturating_sub a b = (if b \<le> a then a - b else 0)"

lemma unat_bound: "unat (w :: 'a::len word) < 2 ^ LENGTH('a)"
  by (rule unsigned_less)

lemma checked_add_Some [rust_simps]:
  "checked_add a b = Some c \<longleftrightarrow> unat c = unat a + unat b"
proof
  assume "checked_add a b = Some c"
  then show "unat c = unat a + unat b"
    by (auto simp: checked_add_def unat_word_ariths split: if_splits)
next
  assume c: "unat c = unat a + unat b"
  then have "unat a + unat b < 2 ^ LENGTH('a)"
    using unat_bound [of c] by simp
  then have "unat (a + b) = unat c"
    using c by (simp add: unat_word_ariths)
  then have "c = a + b"
    by (metis word_unat_eq_iff)
  then show "checked_add a b = Some c"
    using \<open>unat a + unat b < 2 ^ LENGTH('a)\<close> by (simp add: checked_add_def)
qed

lemma checked_add_None:
  fixes a b :: "'a::len word"
  shows "checked_add a b = None \<longleftrightarrow> 2 ^ LENGTH('a) \<le> unat a + unat b"
  by (auto simp: checked_add_def)

text \<open>The overflow test on words alone, for evaluation.\<close>

lemma checked_add_code [code]: "checked_add a b = (if a \<le> - 1 - b then Some (a + b) else None)"
proof -
  have "unat (- 1 - b) = 2 ^ LENGTH('a) - 1 - unat b"
    by (simp add: unat_sub word_order.extremum unsigned_minus_1_eq_mask mask_eq_exp_minus_1)
  then have "a \<le> - 1 - b \<longleftrightarrow> unat a + unat b < 2 ^ LENGTH('a)"
    using unat_bound [of b] by (auto simp: word_le_nat_alt simp del: unsigned_less)
  then show ?thesis
    by (simp add: checked_add_def)
qed

lemma checked_sub_Some [rust_simps]:
  "checked_sub a b = Some c \<longleftrightarrow> unat a = unat b + unat c"
proof
  assume h: "checked_sub a b = Some c"
  then have "b \<le> a" and "c = a - b"
    by (auto simp: checked_sub_def split: if_splits)
  then show "unat a = unat b + unat c"
    by (simp add: unat_sub word_le_nat_alt)
next
  assume h: "unat a = unat b + unat c"
  then have le: "b \<le> a"
    by (simp add: word_le_nat_alt)
  then have "unat (a - b) = unat c"
    using h by (simp add: unat_sub)
  then show "checked_sub a b = Some c"
    using le by (simp add: checked_sub_def word_unat_eq_iff)
qed

lemma unat_saturating_sub: "unat (saturating_sub a b) = unat a - unat b"
  by (auto simp: saturating_sub_def unat_sub word_le_nat_alt)

lemma unat_saturating_add:
  "unat (saturating_add (a :: 'a::len word) b) = min (unat a + unat b) (2 ^ LENGTH('a) - 1)"
  by (auto simp: saturating_add_def unat_word_ariths unsigned_minus_1_eq_mask mask_eq_exp_minus_1)

lemma unat_Suc_if_less: "a < (b :: 'a::len word) \<Longrightarrow> unat (a + 1) = Suc (unat a)"
proof -
  assume "a < b"
  then have "unat a + 1 < 2 ^ LENGTH('a)"
    using unat_bound [of b] by (simp add: word_less_nat_alt del: unsigned_less)
  then show ?thesis
    by (simp add: unat_word_ariths)
qed

subsection \<open>Errors and results\<close>

text \<open>
  The variants of the runtime's \<^verbatim>\<open>Error\<close> that the modelled code constructs, with the
  message each carries. \<open>Json\<close> and \<open>Codec\<close> carry the failures of serde and of the
  wire codec.
\<close>

datatype codec_error = Invalid string | Limit | Utf8

datatype error =
    Identity string
  | Control string
  | Node string
  | Capacity string
  | PeerAuthorization string
  | Json
  | Codec codec_error
  | Fenced
  | CellDraining
  | PeerSignature
  | PendingPublication

type_synonym 'a result = "error + 'a"

definition bind_r :: "'e + 'a \<Rightarrow> ('a \<Rightarrow> 'e + 'b) \<Rightarrow> 'e + 'b" where
  "bind_r r f = (case r of Inl e \<Rightarrow> Inl e | Inr x \<Rightarrow> f x)"

definition ok_or :: "'e \<Rightarrow> 'a option \<Rightarrow> 'e + 'a" where
  "ok_or e x = (case x of None \<Rightarrow> Inl e | Some v \<Rightarrow> Inr v)"

definition reject_if :: "bool \<Rightarrow> 'e \<Rightarrow> 'e + unit" where
  "reject_if c e = (if c then Inl e else Inr ())"

text \<open>The \<^verbatim>\<open>Option::transpose\<close> idiom: convert the payload if there is one.\<close>

definition transpose_opt :: "('a \<Rightarrow> 'e + 'b) \<Rightarrow> 'a option \<Rightarrow> 'e + 'b option" where
  "transpose_opt f x = (case x of None \<Rightarrow> Inr None
     | Some v \<Rightarrow> (case f v of Inl e \<Rightarrow> Inl e | Inr w \<Rightarrow> Inr (Some w)))"

text \<open>\<^verbatim>\<open>Result::map_err\<close>, which also is the conversion \<^verbatim>\<open>?\<close> applies to an error.\<close>

definition map_err :: "('d \<Rightarrow> 'e) \<Rightarrow> 'd + 'a \<Rightarrow> 'e + 'a" where
  "map_err f r = (case r of Inl e \<Rightarrow> Inl (f e) | Inr x \<Rightarrow> Inr x)"

lemma map_err_Inr [rust_simps]: "map_err f r = Inr x \<longleftrightarrow> r = Inr x"
  by (cases r) (auto simp: map_err_def)

lemma map_err_simps [simp]: "map_err f (Inl e) = Inl (f e)" "map_err f (Inr x) = Inr x"
  by (simp_all add: map_err_def)

text \<open>\<^verbatim>\<open>collect::<Result<Vec<_>>>\<close>: convert every element, stopping at the first error.\<close>

fun map_r :: "('a \<Rightarrow> 'e + 'b) \<Rightarrow> 'a list \<Rightarrow> 'e + 'b list" where
  "map_r f [] = Inr []"
| "map_r f (x # xs) = (case f x of Inl e \<Rightarrow> Inl e
     | Inr y \<Rightarrow> (case map_r f xs of Inl e \<Rightarrow> Inl e | Inr ys \<Rightarrow> Inr (y # ys)))"

lemma map_r_Inr: "map_r f xs = Inr ys \<longleftrightarrow> list_all2 (\<lambda>x y. f x = Inr y) xs ys"
proof (induction xs arbitrary: ys)
  case (Cons x xs)
  show ?case
    using Cons.IH [of "tl ys"] by (cases ys; cases "f x"; cases "map_r f xs") auto
qed auto

lemma bind_r_simps [simp]:
  "bind_r (Inl e) f = Inl e"
  "bind_r (Inr x) f = f x"
  by (simp_all add: bind_r_def)

lemma bind_r_Inr [rust_simps]:
  "bind_r r f = Inr y \<longleftrightarrow> (\<exists>x. r = Inr x \<and> f x = Inr y)"
  by (cases r) auto

lemma ok_or_Inr [rust_simps]: "ok_or e x = Inr v \<longleftrightarrow> x = Some v"
  by (cases x) (auto simp: ok_or_def)

lemma ok_or_simps [simp]: "ok_or e (Some v) = Inr v" "ok_or e None = Inl e"
  by (simp_all add: ok_or_def)

lemma reject_if_Inr [rust_simps]: "reject_if c e = Inr u \<longleftrightarrow> \<not> c"
  by (simp add: reject_if_def)

lemma reject_if_simps [simp]: "reject_if True e = Inl e" "reject_if False e = Inr ()"
  by (simp_all add: reject_if_def)

lemma transpose_opt_simps [simp]:
  "transpose_opt f None = Inr None"
  "f v = Inr w \<Longrightarrow> transpose_opt f (Some v) = Inr (Some w)"
  by (simp_all add: transpose_opt_def)

lemma transpose_opt_Inr_Some [rust_simps]:
  "transpose_opt f x = Inr (Some w) \<longleftrightarrow> (\<exists>v. x = Some v \<and> f v = Inr w)"
  by (auto simp: transpose_opt_def split: option.splits sum.splits)

lemma transpose_opt_Inr_None [rust_simps]:
  "transpose_opt f x = Inr None \<longleftrightarrow> x = None"
  by (auto simp: transpose_opt_def split: option.splits sum.splits)

subsection \<open>Bytes, big-endian integers and UTF-8\<close>

type_synonym bytes = "u8 list"

text \<open>A Rust \<^verbatim>\<open>String\<close> is its UTF-8 bytes; \<open>utf8_chars\<close> gives its code points.\<close>

type_synonym rstring = "u8 list"

definition all_zero :: "bytes \<Rightarrow> bool" where
  "all_zero bs = list_all (\<lambda>b. b = 0) bs"

fun be_of_nat :: "nat \<Rightarrow> nat \<Rightarrow> bytes" where
  "be_of_nat 0 n = []"
| "be_of_nat (Suc k) n = be_of_nat k (n div 256) @ [of_nat (n mod 256)]"

definition nat_of_be :: "bytes \<Rightarrow> nat" where
  "nat_of_be bs = foldl (\<lambda>acc b. acc * 256 + unat b) 0 bs"

lemma be_of_nat_numeral:
  "be_of_nat (numeral k) n = be_of_nat (pred_numeral k) (n div 256) @ [of_nat (n mod 256)]"
  unfolding numeral_eq_Suc [of k] by simp

lemma length_be_of_nat [simp]: "length (be_of_nat k n) = k"
  by (induction k arbitrary: n) auto

lemma unat_of_nat_u8 [simp]: "n < 256 \<Longrightarrow> unat (of_nat n :: u8) = n"
  by (simp add: unat_of_nat)

lemma nat_of_be_of_nat: "nat_of_be (be_of_nat k n) = n mod 256 ^ k"
proof (induction k arbitrary: n)
  case 0
  show ?case by (simp add: nat_of_be_def)
next
  case (Suc k)
  have "nat_of_be (be_of_nat (Suc k) n) = n div 256 mod 256 ^ k * 256 + n mod 256"
    using Suc by (simp add: nat_of_be_def)
  also have "\<dots> = n mod 256 ^ Suc k"
    by (simp add: mod_mult2_eq)
  finally show ?case .
qed

lemma nat_of_be_snoc: "nat_of_be (bs @ [b]) = nat_of_be bs * 256 + unat b"
  by (simp add: nat_of_be_def)

lemma unat_u8_less [simp]: "unat (b :: u8) < 256"
  using unat_bound [of b] by simp

lemma be_of_nat_of_be: "be_of_nat (length bs) (nat_of_be bs) = bs"
proof (induction bs rule: rev_induct)
  case Nil
  show ?case by simp
next
  case (snoc b bs)
  then show ?case by (simp add: nat_of_be_snoc)
qed

lemma nat_of_be_bound: "nat_of_be bs < 256 ^ length bs"
proof (induction bs rule: rev_induct)
  case Nil
  show ?case by (simp add: nat_of_be_def)
next
  case (snoc b bs)
  have "nat_of_be bs * 256 + unat b < (nat_of_be bs + 1) * 256"
    by simp
  also have "\<dots> \<le> 256 ^ length bs * 256"
    using snoc by (intro mult_le_mono1) simp
  finally show ?case by (simp only: nat_of_be_snoc length_append_singleton power_Suc2)
qed

lemma be_of_nat_inj:
  assumes "be_of_nat k m = be_of_nat k n" "m < 256 ^ k" "n < 256 ^ k"
  shows "m = n"
  using assms by (metis nat_of_be_of_nat mod_less)

definition u32_to_be_bytes :: "u32 \<Rightarrow> bytes" where
  "u32_to_be_bytes w = be_of_nat 4 (unat w)"

definition u64_to_be_bytes :: "u64 \<Rightarrow> bytes" where
  "u64_to_be_bytes w = be_of_nat 8 (unat w)"

definition i64_to_be_bytes :: "i64 \<Rightarrow> bytes" where
  "i64_to_be_bytes x = u64_to_be_bytes (word_of_int x)"

definition u32_from_be_bytes :: "bytes \<Rightarrow> u32" where
  "u32_from_be_bytes bs = of_nat (nat_of_be bs)"

definition u64_from_be_bytes :: "bytes \<Rightarrow> u64" where
  "u64_from_be_bytes bs = of_nat (nat_of_be bs)"

definition i64_from_be_bytes :: "bytes \<Rightarrow> i64" where
  "i64_from_be_bytes bs = sint (u64_from_be_bytes bs)"

lemma length_to_be_bytes [simp]:
  "length (u32_to_be_bytes a) = 4"
  "length (u64_to_be_bytes b) = 8"
  "length (i64_to_be_bytes c) = 8"
  by (simp_all add: u32_to_be_bytes_def u64_to_be_bytes_def i64_to_be_bytes_def)

lemma u32_be_round [simp]: "u32_from_be_bytes (u32_to_be_bytes a) = a"
  using unat_bound [of a]
  by (simp add: u32_from_be_bytes_def u32_to_be_bytes_def nat_of_be_of_nat)

lemma u64_be_round [simp]: "u64_from_be_bytes (u64_to_be_bytes a) = a"
  using unat_bound [of a]
  by (simp add: u64_from_be_bytes_def u64_to_be_bytes_def nat_of_be_of_nat)

lemma i64_be_round: "is_i64 x \<Longrightarrow> i64_from_be_bytes (i64_to_be_bytes x) = x"
  by (simp add: i64_from_be_bytes_def i64_to_be_bytes_def is_i64_def i64_MIN_def i64_MAX_def
      signed_of_int signed_take_bit_int_eq_self)

lemma u32_be_round': "length bs = 4 \<Longrightarrow> u32_to_be_bytes (u32_from_be_bytes bs) = bs"
  using nat_of_be_bound [of bs] be_of_nat_of_be [of bs]
  by (simp add: u32_from_be_bytes_def u32_to_be_bytes_def unat_of_nat)

lemma u64_be_round': "length bs = 8 \<Longrightarrow> u64_to_be_bytes (u64_from_be_bytes bs) = bs"
  using nat_of_be_bound [of bs] be_of_nat_of_be [of bs]
  by (simp add: u64_from_be_bytes_def u64_to_be_bytes_def unat_of_nat)

lemma i64_be_round': "length bs = 8 \<Longrightarrow> i64_to_be_bytes (i64_from_be_bytes bs) = bs"
  by (simp add: i64_from_be_bytes_def i64_to_be_bytes_def u64_be_round')

lemma is_i64_sint: "is_i64 (sint (w :: u64))"
  using sint_ge [of w] sint_lt [of w]
  by (simp add: is_i64_def i64_MIN_def i64_MAX_def)

fun utf8_cont :: "u8 \<Rightarrow> u8 \<Rightarrow> u8 \<Rightarrow> bool" where
  "utf8_cont lo hi b \<longleftrightarrow> lo \<le> b \<and> b \<le> hi"

fun utf8_chars :: "rstring \<Rightarrow> nat list option" where
  "utf8_chars [] = Some []"
| "utf8_chars (a # bs) =
     (if a \<le> 0x7F then map_option ((#) (unat a)) (utf8_chars bs)
      else if 0xC2 \<le> a \<and> a \<le> 0xDF then
        (case bs of b # cs \<Rightarrow>
           if utf8_cont 0x80 0xBF b
           then map_option ((#) ((unat a - 0xC0) * 64 + (unat b - 0x80))) (utf8_chars cs)
           else None
         | _ \<Rightarrow> None)
      else if 0xE0 \<le> a \<and> a \<le> 0xEF then
        (case bs of b # c # ds \<Rightarrow>
           if utf8_cont (if a = 0xE0 then 0xA0 else 0x80) (if a = 0xED then 0x9F else 0xBF) b
              \<and> utf8_cont 0x80 0xBF c
           then map_option ((#) ((unat a - 0xE0) * 4096 + (unat b - 0x80) * 64
                  + (unat c - 0x80))) (utf8_chars ds)
           else None
         | _ \<Rightarrow> None)
      else if 0xF0 \<le> a \<and> a \<le> 0xF4 then
        (case bs of b # c # d # es \<Rightarrow>
           if utf8_cont (if a = 0xF0 then 0x90 else 0x80) (if a = 0xF4 then 0x8F else 0xBF) b
              \<and> utf8_cont 0x80 0xBF c \<and> utf8_cont 0x80 0xBF d
           then map_option ((#) ((unat a - 0xF0) * 262144 + (unat b - 0x80) * 4096
                  + (unat c - 0x80) * 64 + (unat d - 0x80))) (utf8_chars es)
           else None
         | _ \<Rightarrow> None)
      else None)"

definition valid_utf8 :: "bytes \<Rightarrow> bool" where
  "valid_utf8 bs \<longleftrightarrow> utf8_chars bs \<noteq> None"

text \<open>\<^verbatim>\<open>char::is_control\<close>: the Unicode general category Cc.\<close>

definition char_is_control :: "nat \<Rightarrow> bool" where
  "char_is_control c \<longleftrightarrow> c \<le> 0x1F \<or> 0x7F \<le> c \<and> c \<le> 0x9F"

definition any_control :: "rstring \<Rightarrow> bool" where
  "any_control s = (case utf8_chars s of None \<Rightarrow> False | Some cs \<Rightarrow> list_ex char_is_control cs)"

lemma valid_utf8_ascii: "list_all (\<lambda>b. b \<le> 0x7F) bs \<Longrightarrow> valid_utf8 bs"
  by (induction bs) (auto simp: valid_utf8_def)

end
