(* ===== verification/Rust_Order.thy ===== *)
theory Rust_Order
  imports Cellule_Prelude
begin

text \<open>
  Rust's \<^verbatim>\<open>Ordering\<close> with \<^verbatim>\<open>cmp\<close>, \<^verbatim>\<open>then_with\<close>, the stable \<^verbatim>\<open>slice::sort_by\<close> and
  \<^verbatim>\<open>Iterator::max_by\<close>. The locale \<open>sort_order\<close> is the contract a comparator owes to
  \<^verbatim>\<open>sort_by\<close>: a total preorder on the elements that are sorted. Inside it the sorted
  result, its order and its independence of the input's order are proved once; the
  comparators of the eviction selector and of the placement planner are interpretations.
\<close>

datatype ordering = Less | Equal | Greater

definition ocmp :: "'a::linorder \<Rightarrow> 'a \<Rightarrow> ordering" where
  "ocmp x y = (if x < y then Less else if x = y then Equal else Greater)"

definition then_with :: "ordering \<Rightarrow> ordering \<Rightarrow> ordering" where
  "then_with a b = (case a of Equal \<Rightarrow> b | _ \<Rightarrow> a)"

fun insert_by :: "('a \<Rightarrow> 'a \<Rightarrow> ordering) \<Rightarrow> 'a \<Rightarrow> 'a list \<Rightarrow> 'a list" where
  "insert_by c x [] = [x]"
| "insert_by c x (y # ys) = (if c x y = Greater then y # insert_by c x ys else x # y # ys)"

definition sort_by :: "('a \<Rightarrow> 'a \<Rightarrow> ordering) \<Rightarrow> 'a list \<Rightarrow> 'a list" where
  "sort_by c xs = foldr (insert_by c) xs []"

text \<open>\<^verbatim>\<open>max_by\<close> keeps the later of two equal elements.\<close>

fun max_from :: "('a \<Rightarrow> 'a \<Rightarrow> ordering) \<Rightarrow> 'a \<Rightarrow> 'a list \<Rightarrow> 'a" where
  "max_from c a [] = a"
| "max_from c a (x # xs) = max_from c (if c a x = Greater then a else x) xs"

definition max_by :: "('a \<Rightarrow> 'a \<Rightarrow> ordering) \<Rightarrow> 'a list \<Rightarrow> 'a option" where
  "max_by c xs = (case xs of [] \<Rightarrow> None | x # ys \<Rightarrow> Some (max_from c x ys))"

lemma ocmp_simps [simp]:
  "ocmp x y = Less \<longleftrightarrow> x < y"
  "ocmp x y = Equal \<longleftrightarrow> x = y"
  "ocmp x y = Greater \<longleftrightarrow> y < x"
  by (auto simp: ocmp_def)

lemma then_with_Less [simp]:
  "then_with a b = Less \<longleftrightarrow> a = Less \<or> a = Equal \<and> b = Less"
  by (cases a) (auto simp: then_with_def)

lemma then_with_Equal [simp]: "then_with a b = Equal \<longleftrightarrow> a = Equal \<and> b = Equal"
  by (cases a) (auto simp: then_with_def)

lemma then_with_Greater [simp]:
  "then_with a b = Greater \<longleftrightarrow> a = Greater \<or> a = Equal \<and> b = Greater"
  by (cases a) (auto simp: then_with_def)

lemma mset_insert_by [simp]: "mset (insert_by c x xs) = add_mset x (mset xs)"
  by (induction xs) auto

lemma mset_sort_by [simp]: "mset (sort_by c xs) = mset xs"
  by (induction xs) (auto simp: sort_by_def)

lemma set_sort_by [simp]: "set (sort_by c xs) = set xs"
  by (metis mset_sort_by set_mset_mset)

lemma length_sort_by [simp]: "length (sort_by c xs) = length xs"
  by (metis mset_sort_by size_mset)

lemma sort_by_Nil [simp]: "sort_by c [] = []"
  by (simp add: sort_by_def)

lemma sort_by_Cons: "sort_by c (x # xs) = insert_by c x (sort_by c xs)"
  by (simp add: sort_by_def)

lemma distinct_sort_by [simp]: "distinct (map f (sort_by c xs)) \<longleftrightarrow> distinct (map f xs)"
  by (metis mset_map mset_sort_by mset_eq_imp_distinct_iff)

lemma max_from_in: "max_from c a xs \<in> set (a # xs)"
proof (induction xs arbitrary: a)
  case Nil
  show ?case by simp
next
  case (Cons x xs)
  show ?case
    using Cons.IH [of "if c a x = Greater then a else x"] by (auto split: if_splits)
qed

lemma max_by_in: "max_by c xs = Some x \<Longrightarrow> x \<in> set xs"
  using max_from_in by (fastforce simp: max_by_def split: list.splits)

lemma max_by_None [simp]: "max_by c xs = None \<longleftrightarrow> xs = []"
  by (simp add: max_by_def split: list.splits)

subsection \<open>The contract of a comparator\<close>

locale sort_order =
  fixes c :: "'a \<Rightarrow> 'a \<Rightarrow> ordering" and ok :: "'a \<Rightarrow> bool"
  assumes swap: "ok x \<Longrightarrow> ok y \<Longrightarrow> c x y = Greater \<longleftrightarrow> c y x = Less"
    and trans: "ok x \<Longrightarrow> ok y \<Longrightarrow> ok z \<Longrightarrow> c x y \<noteq> Greater \<Longrightarrow> c y z \<noteq> Greater \<Longrightarrow> c x z \<noteq> Greater"
begin

lemma sorted_insert_by:
  assumes "sorted_wrt (\<lambda>a b. c a b \<noteq> Greater) ys" and "ok x" and "\<forall>y \<in> set ys. ok y"
  shows "sorted_wrt (\<lambda>a b. c a b \<noteq> Greater) (insert_by c x ys)"
  using assms
proof (induction ys)
  case Nil
  then show ?case by simp
next
  case (Cons y ys)
  have set: "set (insert_by c x ys) = insert x (set ys)"
    by (metis mset_insert_by set_mset_mset set_mset_add_mset_insert)
  show ?case
  proof (cases "c x y = Greater")
    case True
    then have "c y x = Less"
      using Cons.prems swap by simp
    then show ?thesis
      using True Cons set by auto
  next
    case False
    have "c x z \<noteq> Greater" if "z \<in> set ys" for z
      using trans [of x y z] False Cons.prems that by auto
    then show ?thesis
      using False Cons.prems by auto
  qed
qed

lemma sorted_sort_by:
  "\<forall>x \<in> set xs. ok x \<Longrightarrow> sorted_wrt (\<lambda>a b. c a b \<noteq> Greater) (sort_by c xs)"
  by (induction xs) (auto simp: sort_by_Cons sorted_insert_by)

lemma max_from_upper:
  assumes "ok a" and "\<forall>x \<in> set xs. ok x" and "y \<in> set (a # xs)"
  shows "c y (max_from c a xs) \<noteq> Greater"
  using assms
proof (induction xs arbitrary: a y)
  case Nil
  then show ?case using swap [of a a] by auto
next
  case (Cons x xs)
  let ?b = "if c a x = Greater then a else x"
  have b: "ok ?b" using Cons.prems by simp
  have b_top: "c ?b (max_from c ?b xs) \<noteq> Greater"
    using Cons.IH [OF b] Cons.prems by simp
  have m: "ok (max_from c ?b xs)"
    using max_from_in [of c ?b xs] b Cons.prems by auto
  show ?case
  proof (cases "y \<in> set xs")
    case True
    then show ?thesis using Cons.IH [OF b] Cons.prems by simp
  next
    case False
    then have y: "y = a \<or> y = x" using Cons.prems by auto
    then have "c y ?b \<noteq> Greater"
      using swap [of a a] swap [of x x] swap [of x a] Cons.prems by auto
    then show ?thesis
      using trans [of y ?b "max_from c ?b xs"] b_top b m y Cons.prems by auto
  qed
qed

lemma max_by_upper:
  assumes "max_by c xs = Some m" and "\<forall>x \<in> set xs. ok x" and "y \<in> set xs"
  shows "c y m \<noteq> Greater"
  using assms max_from_upper by (fastforce simp: max_by_def split: list.splits)

text \<open>Two sorted lists with the same elements agree position by position, up to ties.\<close>

lemma sorted_tie_unique:
  assumes "\<forall>x \<in> set xs \<union> set ys. ok x"
    and "sorted_wrt (\<lambda>a b. c a b \<noteq> Greater) xs" and "sorted_wrt (\<lambda>a b. c a b \<noteq> Greater) ys"
    and "\<And>z. ok z \<Longrightarrow> length (filter (\<lambda>x. c z x = Equal) xs) = length (filter (\<lambda>x. c z x = Equal) ys)"
  shows "list_all2 (\<lambda>x y. c x y = Equal) xs ys"
  using assms
proof (induction xs arbitrary: ys)
  case Nil
  have "ys = []"
  proof (rule ccontr)
    assume "ys \<noteq> []"
    then obtain y ys' where "ys = y # ys'" by (cases ys) auto
    moreover have "ok y" using calculation Nil.prems by simp
    moreover have "c y y = Equal"
      using swap [of y y] \<open>ok y\<close> by (cases "c y y") auto
    ultimately show False using Nil.prems(4) [of y] by simp
  qed
  then show ?case by simp
next
  case (Cons x xs)
  have okx: "ok x" using Cons.prems by simp
  have tie: "c a b = Equal \<longleftrightarrow> c a b \<noteq> Greater \<and> c b a \<noteq> Greater" if "ok a" "ok b" for a b
    using swap [of a b] swap [of b a] that by (cases "c a b"; cases "c b a") auto
  have "c x x = Equal" using swap [of x x] okx by (cases "c x x") auto
  then have "filter (\<lambda>y. c x y = Equal) ys \<noteq> []"
    using Cons.prems(4) [OF okx] by auto
  then obtain y' where y': "y' \<in> set ys" "c x y' = Equal" by (auto simp: filter_empty_conv)
  then obtain y ys' where ys: "ys = y # ys'" by (cases ys) auto
  have oky: "ok y" and oky': "ok y'" using Cons.prems ys y' by auto
  have "c y y = Equal" using swap [of y y] oky by (cases "c y y") auto
  then have "filter (\<lambda>z. c y z = Equal) (x # xs) \<noteq> []"
    using Cons.prems(4) [OF oky] ys by auto
  then obtain x' where x': "x' \<in> set (x # xs)" "c y x' = Equal"
    unfolding filter_empty_conv by blast
  have okx': "ok x'" using Cons.prems x' by auto
  have "c y y' \<noteq> Greater" using Cons.prems(3) ys y' \<open>c y y = Equal\<close> by auto
  then have yx: "c y x \<noteq> Greater"
    using trans [of y y' x] tie [of x y'] okx oky oky' y' by auto
  have "c x x' \<noteq> Greater" using Cons.prems(2) x' \<open>c x x = Equal\<close> by auto
  then have xy: "c x y \<noteq> Greater"
    using trans [of x x' y] tie [of y x'] okx oky okx' x' by auto
  have eq: "c x y = Equal" using tie okx oky xy yx by simp
  have same: "c z x = Equal \<longleftrightarrow> c z y = Equal" if "ok z" for z
    using tie [OF that okx] tie [OF that oky] trans [OF that okx oky _ xy] trans [OF oky okx that yx]
      trans [OF that oky okx _ yx] trans [OF okx oky that xy]
    by blast
  have "length (filter (\<lambda>w. c z w = Equal) xs) = length (filter (\<lambda>w. c z w = Equal) ys')"
    if "ok z" for z
    using Cons.prems(4) [OF that] same [OF that] ys by (auto split: if_splits)
  then have "list_all2 (\<lambda>x y. c x y = Equal) xs ys'"
    using Cons.prems ys by (intro Cons.IH) auto
  then show ?case using eq ys by simp
qed

lemma sort_by_order_independent:
  assumes "mset xs = mset ys" and "\<forall>x \<in> set xs. ok x"
    and "\<And>x y. ok x \<Longrightarrow> ok y \<Longrightarrow> c x y = Equal \<Longrightarrow> f x = f y"
  shows "map f (sort_by c xs) = map f (sort_by c ys)"
proof -
  have set: "set ys = set xs" using assms(1) by (metis set_mset_mset)
  have "list_all2 (\<lambda>x y. c x y = Equal) (sort_by c xs) (sort_by c ys)"
  proof (rule sorted_tie_unique)
    show "\<forall>x \<in> set (sort_by c xs) \<union> set (sort_by c ys). ok x"
      using assms(2) set by simp
    show "sorted_wrt (\<lambda>a b. c a b \<noteq> Greater) (sort_by c xs)"
      using assms(2) by (rule sorted_sort_by)
    show "sorted_wrt (\<lambda>a b. c a b \<noteq> Greater) (sort_by c ys)"
      using assms(2) set by (intro sorted_sort_by) simp
    show "length (filter (\<lambda>x. c z x = Equal) (sort_by c xs)) =
        length (filter (\<lambda>x. c z x = Equal) (sort_by c ys))" for z
      by (metis assms(1) mset_filter mset_sort_by size_mset)
  qed
  then have "list_all2 (\<lambda>x y. f x = f y) (sort_by c xs) (sort_by c ys)"
  proof (rule list.rel_mono_strong)
    fix x y
    assume "x \<in> set (sort_by c xs)" and "y \<in> set (sort_by c ys)" and "c x y = Equal"
    then show "f x = f y"
      using assms(2) set by (intro assms(3)) simp_all
  qed
  then show ?thesis
    by (simp add: list_all2_map1 list_all2_map2 flip: list.rel_eq)
qed

end

text \<open>
  Comparators are chains of key comparisons: a comparison of keys meets the contract in either
  direction, and \<open>then_with\<close> combines two comparators that meet it.
\<close>

lemma sort_order_key: "sort_order (\<lambda>x y. ocmp (k x) (k y)) ok"
  by unfold_locales auto

lemma sort_order_key_desc: "sort_order (\<lambda>x y. ocmp (k y) (k x)) ok"
  by unfold_locales auto

lemma sort_order_then_with:
  assumes "sort_order c ok" and "sort_order d ok"
  shows "sort_order (\<lambda>x y. then_with (c x y) (d x y)) ok"
proof -
  note cs = sort_order.swap [OF assms(1)] and ct = sort_order.trans [OF assms(1)]
  note ds = sort_order.swap [OF assms(2)] and dt = sort_order.trans [OF assms(2)]
  show ?thesis
  proof
    fix x y
    assume ok: "ok x" "ok y"
    show "then_with (c x y) (d x y) = Greater \<longleftrightarrow> then_with (c y x) (d y x) = Less"
      using cs [OF ok] cs [OF ok(2,1)] ds [OF ok]
      by (cases "c x y"; cases "c y x") (auto simp: then_with_def)
  next
    fix x y z
    assume ok: "ok x" "ok y" "ok z"
      and xy: "then_with (c x y) (d x y) \<noteq> Greater" and yz: "then_with (c y z) (d y z) \<noteq> Greater"
    have le: "c x y \<noteq> Greater" "c y z \<noteq> Greater"
      using xy yz by (auto simp: then_with_def)
    have xz: "c x z \<noteq> Greater"
      using ct [OF ok le] .
    show "then_with (c x z) (d x z) \<noteq> Greater"
    proof (cases "c x z = Equal")
      case True
      then have zx: "c z x \<noteq> Greater"
        using cs [OF ok(3,1)] by auto
      have "c y x \<noteq> Greater" "c z y \<noteq> Greater"
        using ct [OF ok(2,3,1) le(2) zx] ct [OF ok(3,1,2) zx le(1)] by auto
      then have "c x y = Equal" "c y z = Equal"
        using le cs [OF ok(2,1)] cs [OF ok(3,2)] by (cases "c x y"; cases "c y z"; auto)+
      then show ?thesis
        using xy yz True dt [OF ok] by (simp add: then_with_def)
    next
      case False
      then show ?thesis
        using xz by (cases "c x z") (auto simp: then_with_def)
    qed
  qed
qed

subsection \<open>Invariants and ratchets of a step relation\<close>

text \<open>
  Every stateful component is a step relation \<open>step\<close>. A \<open>preserved\<close> predicate holds
  along whole runs; a \<open>ratchet\<close> is a preorder no run can descend.
\<close>

locale preserved =
  fixes step :: "'s \<Rightarrow> 's \<Rightarrow> bool" and inv :: "'s \<Rightarrow> bool"
  assumes step_inv: "inv s \<Longrightarrow> step s t \<Longrightarrow> inv t"
begin

lemma run_inv: "step\<^sup>*\<^sup>* s t \<Longrightarrow> inv s \<Longrightarrow> inv t"
  by (induction rule: rtranclp_induct) (auto intro: step_inv)

end

locale ratchet =
  fixes step :: "'s \<Rightarrow> 's \<Rightarrow> bool" and le :: "'s \<Rightarrow> 's \<Rightarrow> bool"
  assumes le_refl: "le s s"
    and le_trans: "le s t \<Longrightarrow> le t u \<Longrightarrow> le s u"
    and step_le: "step s t \<Longrightarrow> le s t"
begin

lemma run_le: "step\<^sup>*\<^sup>* s t \<Longrightarrow> le s t"
  by (induction rule: rtranclp_induct) (auto intro: le_refl step_le le_trans)

sublocale up_set: preserved step "le s" for s
  by unfold_locales (blast intro: le_trans step_le)

end

text \<open>
  A refinement: under an invariant that its steps keep, every step of a machine is a step of its
  specification seen through \<open>abs\<close>, or leaves the specification's state alone.
\<close>

locale simulation = preserved +
  fixes abs :: "'s \<Rightarrow> 'a" and astep :: "'a \<Rightarrow> 'a \<Rightarrow> bool"
  assumes step_abs: "inv s \<Longrightarrow> step s t \<Longrightarrow> abs t = abs s \<or> astep (abs s) (abs t)"
begin

lemma run_abs: "step\<^sup>*\<^sup>* s t \<Longrightarrow> inv s \<Longrightarrow> astep\<^sup>*\<^sup>* (abs s) (abs t)"
proof (induction rule: rtranclp_induct)
  case (step t u)
  then show ?case
    using step_abs [OF run_inv [OF step(1)], of u]
    by (metis rtranclp.rtrancl_into_rtrancl)
qed simp

end

end
