(* ===== verification/Coordination.thy ===== *)
theory Coordination
  imports Rust_Order
begin

text \<open>
  The coordination kernel of one active Cell,
  \<^verbatim>\<open>crates/cellule-runtime/src/coordination/mod.rs\<close>: the volatile protocol state
  (lifecycle, foreground slot, renewal, publications, residency, in-flight effects), one
  definition per input of \<^verbatim>\<open>CoordinationState::step\<close>, the effect-identity allocator, and
  the state machine they make. The lemmas show that fencing is absorbing, that closing is
  one-way, that deactivation is only reported for a quiescent kernel, that a completion
  releases exactly the effect it names, and that the allocator's loop returns.
\<close>

subsection \<open>Data\<close>

datatype admission_kind = Command | Query | Resolve | Migration | LeaseCommand | LeaseQuery

definition allowed_while_quiescing :: "admission_kind \<Rightarrow> bool" where
  "allowed_while_quiescing k \<longleftrightarrow> k = LeaseCommand \<or> k = LeaseQuery \<or> k = Resolve"

datatype coordination_effect =
    Work admission_kind | Hydration | Inventory | Compaction | Publication | Proof | Renewal

datatype reject_reason = NotActive | Rj_Fenced | Rj_Draining | Busy | PublicationPending

datatype coordination_input =
    Admit admission_kind (ad_matches: bool)
  | Lookup
  | BeginWork admission_kind (bw_publisher_ready: bool)
  | Schedule (sc_queue_empty: bool) (sc_publisher_ready: bool) (sc_publication_blocked: bool)
      (sc_lease_live: bool)
  | CompleteEffect (ce_effect_id: u64) (ce_effect: coordination_effect)
  | FinishWork (fw_fenced: bool)
  | BeginDrain
  | BeginMaintenanceQuiescence
  | BeginShutdown
  | BeginMigration
  | FinishMigration (fm_fenced: bool)
  | BeginRenewal (br_queue_empty: bool) (br_publication_idle: bool) (br_lease_live: bool)
  | FinishRenewal (fr_fenced: bool)
  | BeginPublication
  | CallerCancel
  | FollowerProof (fp_accepted: bool)
  | FinishPublication (fp_fenced: bool) (fp_succeeded: bool)
  | BeginHydration (bh_queue_empty: bool) (bh_publication_idle: bool) (bh_lease_live: bool)
  | BeginInventory (bi_queue_empty: bool) (bi_publication_idle: bool) (bi_inventory_unknown: bool)
      (bi_refreshing: bool) (bi_lease_live: bool)
  | BeginMaintenanceInventory (bm_refreshing: bool) (bm_finalizing: bool) (bm_queue_empty: bool)
      (bm_publisher_ready: bool) (bm_lease_live: bool)
  | BeginTransferPreflight (bt_queue_empty: bool) (bt_publication_idle: bool) (bt_lease_live: bool)
  | ConfirmTransfer
  | AbortTransfer
  | BeginCompaction (bc_queue_empty: bool) (bc_publication_idle: bool) (bc_publisher_ready: bool)
      (bc_due: bool) (bc_lease_live: bool)
  | FinishCompaction (fc_fenced: bool)
  | FinishHydration (fh_complete: bool) (fh_stale: bool)
  | Fence

datatype coordination_decision =
    D_Admit | ResolveUnknown | LocalHandle | Reject reject_reason | Started | EffectCompleted
  | StaleEffect | Ignored | ReadyToDeactivate | ReadyToDeactivateFenced | StartQueuedWork | D_Fence

datatype lifecycle = Lc_Serving | Lc_Fenced | Lc_Draining | Lc_Migrating | Lc_Shutdown

datatype residency = Sparse | Hydrating | Resident

text \<open>The \<^verbatim>\<open>BTreeMap\<close> of pending effects is an association list with distinct keys.\<close>

record coordination_state =
  cs_lifecycle :: lifecycle
  cs_busy :: bool
  cs_renewing :: bool
  cs_publications :: usize
  cs_follower_proof :: bool
  cs_residency :: residency
  cs_shutdown_requested :: bool
  cs_transfer_preparing :: bool
  cs_maintenance_quiescing :: bool
  cs_next_effect_id :: u64
  cs_pending_effects :: "(u64 \<times> coordination_effect) list"

definition serving_with_residency :: "bool \<Rightarrow> residency \<Rightarrow> coordination_state" where
  "serving_with_residency publisher_ready r =
     \<lparr>cs_lifecycle = Lc_Serving, cs_busy = False, cs_renewing = False, cs_publications = 0,
      cs_follower_proof = False, cs_residency = r, cs_shutdown_requested = False,
      cs_transfer_preparing = False, cs_maintenance_quiescing = False, cs_next_effect_id = 0,
      cs_pending_effects = []\<rparr>"

definition serving :: "bool \<Rightarrow> coordination_state" where
  "serving publisher_ready =
     \<lparr>cs_lifecycle = Lc_Serving, cs_busy = False, cs_renewing = False, cs_publications = 0,
      cs_follower_proof = False, cs_residency = Resident, cs_shutdown_requested = False,
      cs_transfer_preparing = False, cs_maintenance_quiescing = False, cs_next_effect_id = 0,
      cs_pending_effects = []\<rparr>"

subsection \<open>Observers\<close>

definition is_fenced :: "coordination_state \<Rightarrow> bool" where
  "is_fenced s \<longleftrightarrow> cs_lifecycle s = Lc_Fenced"

definition is_draining :: "coordination_state \<Rightarrow> bool" where
  "is_draining s \<longleftrightarrow> cs_shutdown_requested s \<or>
     cs_lifecycle s = Lc_Draining \<or> cs_lifecycle s = Lc_Migrating \<or> cs_lifecycle s = Lc_Shutdown"

definition is_shutdown :: "coordination_state \<Rightarrow> bool" where
  "is_shutdown s \<longleftrightarrow> cs_shutdown_requested s \<or> cs_lifecycle s = Lc_Shutdown"

definition effect_matches :: "coordination_state \<Rightarrow> u64 \<Rightarrow> coordination_effect \<Rightarrow> bool" where
  "effect_matches s i e \<longleftrightarrow> map_of (cs_pending_effects s) i = Some e"

definition lookup :: "coordination_state \<Rightarrow> coordination_decision" where
  "lookup s =
     (if is_fenced s then Reject Rj_Fenced
      else if is_draining s \<or> cs_transfer_preparing s then Reject Rj_Draining
      else LocalHandle)"

definition can_deactivate :: "coordination_state \<Rightarrow> bool" where
  "can_deactivate s \<longleftrightarrow>
     \<not> cs_busy s \<and> \<not> cs_renewing s \<and> cs_publications s = 0 \<and> cs_pending_effects s = []"

definition ready_to_deactivate :: "coordination_state \<Rightarrow> bool \<Rightarrow> bool \<Rightarrow> bool" where
  "ready_to_deactivate s queue_empty publisher_ready \<longleftrightarrow>
     queue_empty \<and> publisher_ready \<and> can_deactivate s"

definition any_pending :: "(coordination_effect \<Rightarrow> bool) \<Rightarrow> coordination_state \<Rightarrow> bool" where
  "any_pending P s = list_ex (\<lambda>(i, e). P e) (cs_pending_effects s)"

subsection \<open>The effect-identity allocator\<close>

definition next_id :: "u64 \<Rightarrow> u64" where
  "next_id n = max (n + 1) 1"

text \<open>The loop of \<^verbatim>\<open>begin_effect\<close>; \<open>None\<close> is a loop that never returns.\<close>

partial_function (option) free_id :: "u64 list \<Rightarrow> u64 \<Rightarrow> u64 option" where
  "free_id used n = (let m = next_id n in if m \<in> set used then free_id used m else Some m)"

definition begin_effect ::
  "coordination_state \<Rightarrow> coordination_effect \<Rightarrow> (coordination_state \<times> u64) option" where
  "begin_effect s e =
     (case free_id (map fst (cs_pending_effects s)) (cs_next_effect_id s) of
        None \<Rightarrow> None
      | Some i \<Rightarrow> Some (s\<lparr>cs_next_effect_id := i,
                         cs_pending_effects := AList.update i e (cs_pending_effects s)\<rparr>, i))"

subsection \<open>One definition per input\<close>

type_synonym step_result = "coordination_state \<times> coordination_decision"

definition admit :: "coordination_state \<Rightarrow> admission_kind \<Rightarrow> bool \<Rightarrow> coordination_decision" where
  "admit s kind matches =
     (if \<not> matches then Reject NotActive
      else if is_fenced s then (if kind = Resolve then ResolveUnknown else Reject Rj_Fenced)
      else if cs_transfer_preparing s then Reject Rj_Draining
      else if cs_maintenance_quiescing s \<and> \<not> allowed_while_quiescing kind then Reject Rj_Draining
      else if cs_lifecycle s = Lc_Migrating \<and> \<not> cs_shutdown_requested s then D_Admit
      else if is_draining s then Reject Rj_Draining
      else D_Admit)"

definition begin_work :: "coordination_state \<Rightarrow> admission_kind \<Rightarrow> bool \<Rightarrow> step_result" where
  "begin_work s kind publisher_ready =
     (if is_fenced s then (s, Reject Rj_Fenced)
      else if cs_busy s then (s, Reject Busy)
      else if kind = Migration \<and> (cs_publications s \<noteq> 0 \<or> \<not> publisher_ready)
      then (s, Reject PublicationPending)
      else (s\<lparr>cs_busy := True\<rparr>, Started))"

definition schedule :: "coordination_state \<Rightarrow> bool \<Rightarrow> bool \<Rightarrow> bool \<Rightarrow> bool \<Rightarrow> step_result" where
  "schedule s queue_empty publisher_ready publication_blocked lease_live =
     (if \<not> lease_live then
        (let s' = s\<lparr>cs_lifecycle := Lc_Fenced, cs_busy := False, cs_renewing := False\<rparr>
         in (s', if ready_to_deactivate s' queue_empty publisher_ready
                 then ReadyToDeactivateFenced else D_Fence))
      else if (is_fenced s \<or> is_draining s) \<and> ready_to_deactivate s queue_empty publisher_ready
      then (s, if is_fenced s then ReadyToDeactivateFenced else ReadyToDeactivate)
      else if is_fenced s \<or> cs_busy s \<or> cs_renewing s \<or> any_pending (\<lambda>e. e = Inventory) s
        \<or> queue_empty \<or> publication_blocked
      then (s, Ignored)
      else (s, StartQueuedWork))"

definition complete_effect :: "coordination_state \<Rightarrow> u64 \<Rightarrow> coordination_effect \<Rightarrow> step_result" where
  "complete_effect s i e =
     (if map_of (cs_pending_effects s) i = Some e
      then (s\<lparr>cs_pending_effects := AList.delete i (cs_pending_effects s)\<rparr>, EffectCompleted)
      else (s, StaleEffect))"

definition finish_work :: "coordination_state \<Rightarrow> bool \<Rightarrow> step_result" where
  "finish_work s0 fenced =
     (let s = s0\<lparr>cs_busy := False\<rparr> in
      if fenced \<or> is_fenced s then (s\<lparr>cs_lifecycle := Lc_Fenced\<rparr>, D_Fence)
      else if can_deactivate s \<and> is_draining s then (s, ReadyToDeactivate)
      else (s, Ignored))"

definition begin_maintenance_quiescence :: "coordination_state \<Rightarrow> step_result" where
  "begin_maintenance_quiescence s =
     (if is_fenced s then (s, Reject Rj_Fenced)
      else if is_draining s \<or> cs_transfer_preparing s then (s, Reject Rj_Draining)
      else (s\<lparr>cs_maintenance_quiescing := True\<rparr>, Started))"

definition begin_drain :: "coordination_state \<Rightarrow> step_result" where
  "begin_drain s =
     (if is_fenced s then (s, Reject Rj_Fenced)
      else if is_draining s then (s, Reject Rj_Draining)
      else (let s' = s\<lparr>cs_lifecycle := Lc_Draining\<rparr>
            in (s', if can_deactivate s' then ReadyToDeactivate else Started)))"

definition begin_shutdown :: "coordination_state \<Rightarrow> step_result" where
  "begin_shutdown s0 =
     (let s = s0\<lparr>cs_transfer_preparing := False\<rparr> in
      if is_shutdown s then (s, Ignored)
      else if is_fenced s then
        (let s' = s\<lparr>cs_shutdown_requested := True\<rparr>
         in (s', if can_deactivate s' then ReadyToDeactivate else Started))
      else if cs_lifecycle s = Lc_Migrating then (s\<lparr>cs_shutdown_requested := True\<rparr>, Started)
      else
        (let s' = s\<lparr>cs_shutdown_requested := True, cs_lifecycle := Lc_Shutdown\<rparr>
         in (s', if can_deactivate s' then ReadyToDeactivate else Started)))"

definition begin_migration :: "coordination_state \<Rightarrow> step_result" where
  "begin_migration s =
     (if is_fenced s then (s, Reject Rj_Fenced)
      else if is_draining s then (s, Reject Rj_Draining)
      else (s\<lparr>cs_lifecycle := Lc_Migrating\<rparr>, Started))"

definition finish_migration :: "coordination_state \<Rightarrow> bool \<Rightarrow> step_result" where
  "finish_migration s0 fenced =
     (let s = s0\<lparr>cs_busy := False\<rparr> in
      if fenced \<or> is_fenced s then (s\<lparr>cs_lifecycle := Lc_Fenced\<rparr>, D_Fence)
      else if cs_lifecycle s = Lc_Migrating then
        (let s' = s\<lparr>cs_lifecycle := (if cs_shutdown_requested s then Lc_Shutdown else Lc_Serving)\<rparr>
         in (s', if can_deactivate s' \<and> is_draining s' then ReadyToDeactivate else Ignored))
      else (s, Ignored))"

definition begin_renewal :: "coordination_state \<Rightarrow> bool \<Rightarrow> bool \<Rightarrow> bool \<Rightarrow> step_result" where
  "begin_renewal s queue_empty publication_idle lease_live =
     (if \<not> lease_live
      then (s\<lparr>cs_lifecycle := Lc_Fenced, cs_busy := False, cs_renewing := False\<rparr>, D_Fence)
      else if is_fenced s \<or> is_draining s
        \<or> (cs_transfer_preparing s \<and> \<not> cs_maintenance_quiescing s) \<or> cs_renewing s
      then (s, Reject (if is_fenced s then Rj_Fenced else Rj_Draining))
      else if cs_busy s \<or> \<not> queue_empty \<or> \<not> publication_idle then (s, Ignored)
      else (s\<lparr>cs_renewing := True\<rparr>, Started))"

definition finish_renewal :: "coordination_state \<Rightarrow> bool \<Rightarrow> step_result" where
  "finish_renewal s0 fenced =
     (let s = s0\<lparr>cs_renewing := False\<rparr> in
      if fenced \<or> is_fenced s then (s\<lparr>cs_lifecycle := Lc_Fenced\<rparr>, D_Fence) else (s, Ignored))"

definition begin_publication :: "coordination_state \<Rightarrow> step_result" where
  "begin_publication s =
     (if is_fenced s then (s, Reject Rj_Fenced)
      else if is_draining s \<and> \<not> cs_busy s then (s, Reject Rj_Draining)
      else (s\<lparr>cs_publications := saturating_add (cs_publications s) 1,
              cs_follower_proof := False\<rparr>, Started))"

definition follower_proof_input :: "coordination_state \<Rightarrow> bool \<Rightarrow> step_result" where
  "follower_proof_input s accepted =
     (if accepted \<and> cs_publications s \<noteq> 0 then (s\<lparr>cs_follower_proof := True\<rparr>, Ignored)
      else (s, Ignored))"

definition finish_publication :: "coordination_state \<Rightarrow> bool \<Rightarrow> bool \<Rightarrow> step_result" where
  "finish_publication s0 fenced succeeded0 =
     (let s = s0\<lparr>cs_publications := saturating_sub (cs_publications s0) 1\<rparr>;
          succeeded = (succeeded0 \<or> cs_follower_proof s);
          s = s\<lparr>cs_follower_proof := False\<rparr> in
      if fenced \<or> \<not> succeeded then (s\<lparr>cs_lifecycle := Lc_Fenced\<rparr>, D_Fence)
      else if can_deactivate s \<and> is_draining s then (s, ReadyToDeactivate)
      else (s, Ignored))"

definition begin_hydration :: "coordination_state \<Rightarrow> bool \<Rightarrow> bool \<Rightarrow> bool \<Rightarrow> step_result" where
  "begin_hydration s queue_empty publication_idle lease_live =
     (if \<not> lease_live then (s\<lparr>cs_lifecycle := Lc_Fenced, cs_busy := False\<rparr>, D_Fence)
      else if is_fenced s then (s, Reject Rj_Fenced)
      else if is_draining s \<or> cs_transfer_preparing s \<or> cs_maintenance_quiescing s
      then (s, Reject Rj_Draining)
      else if cs_busy s then (s, Reject Busy)
      else if \<not> queue_empty \<or> \<not> publication_idle \<or> cs_residency s \<noteq> Sparse then (s, Ignored)
      else (s\<lparr>cs_residency := Hydrating\<rparr>, Started))"

definition begin_inventory ::
  "coordination_state \<Rightarrow> bool \<Rightarrow> bool \<Rightarrow> bool \<Rightarrow> bool \<Rightarrow> bool \<Rightarrow> step_result" where
  "begin_inventory s queue_empty publication_idle inventory_unknown refreshing lease_live =
     (if \<not> lease_live
      then (s\<lparr>cs_lifecycle := Lc_Fenced, cs_busy := False, cs_renewing := False\<rparr>, D_Fence)
      else if is_fenced s then (s, Reject Rj_Fenced)
      else if is_draining s \<or> cs_transfer_preparing s then (s, Reject Rj_Draining)
      else if cs_busy s then (s, Reject Busy)
      else if \<not> queue_empty \<or> \<not> publication_idle \<or> \<not> inventory_unknown \<or> refreshing
      then (s, Ignored)
      else (s, Started))"

definition begin_maintenance_inventory ::
  "coordination_state \<Rightarrow> bool \<Rightarrow> bool \<Rightarrow> bool \<Rightarrow> bool \<Rightarrow> bool \<Rightarrow> step_result" where
  "begin_maintenance_inventory s refreshing finalizing queue_empty publisher_ready lease_live =
     (if \<not> lease_live then (s\<lparr>cs_lifecycle := Lc_Fenced\<rparr>, D_Fence)
      else if is_fenced s then (s, Reject Rj_Fenced)
      else if is_draining s \<or> \<not> cs_maintenance_quiescing s then (s, Reject Rj_Draining)
      else if refreshing \<or> \<not> publisher_ready
        \<or> (finalizing \<and> (\<not> cs_transfer_preparing s \<or> \<not> queue_empty \<or> \<not> can_deactivate s))
      then (s, Ignored)
      else (s, Started))"

definition begin_transfer_preflight ::
  "coordination_state \<Rightarrow> bool \<Rightarrow> bool \<Rightarrow> bool \<Rightarrow> step_result" where
  "begin_transfer_preflight s queue_empty publication_idle lease_live =
     (if \<not> lease_live
      then (s\<lparr>cs_lifecycle := Lc_Fenced, cs_busy := False, cs_renewing := False\<rparr>, D_Fence)
      else if is_fenced s then (s, Reject Rj_Fenced)
      else if is_draining s \<or> cs_transfer_preparing s then (s, Reject Rj_Draining)
      else if cs_renewing s
        \<or> any_pending (\<lambda>e. e = Hydration \<or> e = Inventory \<or> e = Compaction \<or> e = Renewal) s
      then (s, Ignored)
      else (s\<lparr>cs_transfer_preparing := True\<rparr>, Started))"

definition confirm_transfer :: "coordination_state \<Rightarrow> step_result" where
  "confirm_transfer s =
     (if is_fenced s then (s, Reject Rj_Fenced)
      else if is_shutdown s \<or> is_draining s then (s, Reject Rj_Draining)
      else if \<not> cs_transfer_preparing s \<or> \<not> can_deactivate s then (s, Ignored)
      else (let s' = s\<lparr>cs_transfer_preparing := False, cs_lifecycle := Lc_Draining\<rparr>
            in (s', if can_deactivate s' then ReadyToDeactivate else Started)))"

definition abort_transfer :: "coordination_state \<Rightarrow> step_result" where
  "abort_transfer s =
     (if is_fenced s then (s, Reject Rj_Fenced)
      else if is_shutdown s \<or> is_draining s then (s, Reject Rj_Draining)
      else if cs_transfer_preparing s then (s\<lparr>cs_transfer_preparing := False\<rparr>, Ignored)
      else (s, Ignored))"

definition begin_compaction ::
  "coordination_state \<Rightarrow> bool \<Rightarrow> bool \<Rightarrow> bool \<Rightarrow> bool \<Rightarrow> bool \<Rightarrow> step_result" where
  "begin_compaction s queue_empty publication_idle publisher_ready due lease_live =
     (if \<not> lease_live then (s\<lparr>cs_lifecycle := Lc_Fenced\<rparr>, D_Fence)
      else if is_fenced s \<or> is_draining s \<or> cs_transfer_preparing s \<or> cs_maintenance_quiescing s
        \<or> cs_busy s \<or> cs_renewing s \<or> \<not> queue_empty \<or> \<not> publication_idle \<or> \<not> publisher_ready
        \<or> \<not> due \<or> cs_pending_effects s \<noteq> []
      then (s, Ignored)
      else (s\<lparr>cs_busy := True\<rparr>, Started))"

definition finish_compaction :: "coordination_state \<Rightarrow> bool \<Rightarrow> step_result" where
  "finish_compaction s0 fenced =
     (let s = s0\<lparr>cs_busy := False\<rparr> in
      if fenced \<or> is_fenced s then (s\<lparr>cs_lifecycle := Lc_Fenced\<rparr>, D_Fence)
      else if can_deactivate s \<and> is_draining s then (s, ReadyToDeactivate)
      else (s, Ignored))"

definition finish_hydration :: "coordination_state \<Rightarrow> bool \<Rightarrow> bool \<Rightarrow> step_result" where
  "finish_hydration s complete stale =
     (if \<not> stale then (s\<lparr>cs_residency := (if complete then Resident else Sparse)\<rparr>, Ignored)
      else (s\<lparr>cs_residency := Sparse\<rparr>, D_Fence))"

definition fence :: "coordination_state \<Rightarrow> step_result" where
  "fence s = (s\<lparr>cs_lifecycle := Lc_Fenced, cs_busy := False, cs_renewing := False,
                 cs_transfer_preparing := False\<rparr>, Ignored)"

fun step :: "coordination_state \<Rightarrow> coordination_input \<Rightarrow> step_result" where
  "step s (Admit kind matches) = (s, admit s kind matches)"
| "step s Lookup = (s, lookup s)"
| "step s (BeginWork kind publisher_ready) = begin_work s kind publisher_ready"
| "step s (Schedule a b c d) = schedule s a b c d"
| "step s (CompleteEffect i e) = complete_effect s i e"
| "step s (FinishWork fenced) = finish_work s fenced"
| "step s BeginMaintenanceQuiescence = begin_maintenance_quiescence s"
| "step s BeginDrain = begin_drain s"
| "step s BeginShutdown = begin_shutdown s"
| "step s BeginMigration = begin_migration s"
| "step s (FinishMigration fenced) = finish_migration s fenced"
| "step s (BeginRenewal a b c) = begin_renewal s a b c"
| "step s (FinishRenewal fenced) = finish_renewal s fenced"
| "step s BeginPublication = begin_publication s"
| "step s CallerCancel = (s, Ignored)"
| "step s (FollowerProof a) = follower_proof_input s a"
| "step s (FinishPublication fenced succeeded) = finish_publication s fenced succeeded"
| "step s (BeginHydration a b c) = begin_hydration s a b c"
| "step s (BeginInventory a b c d e) = begin_inventory s a b c d e"
| "step s (BeginMaintenanceInventory a b c d e) = begin_maintenance_inventory s a b c d e"
| "step s (BeginTransferPreflight a b c) = begin_transfer_preflight s a b c"
| "step s ConfirmTransfer = confirm_transfer s"
| "step s AbortTransfer = abort_transfer s"
| "step s (BeginCompaction a b c d e) = begin_compaction s a b c d e"
| "step s (FinishCompaction fenced) = finish_compaction s fenced"
| "step s (FinishHydration a b) = finish_hydration s a b"
| "step s Fence = fence s"

text \<open>A run of the kernel over a sequence of inputs, with the decision taken for each.\<close>

fun run :: "coordination_state \<Rightarrow> coordination_input list \<Rightarrow>
    coordination_state \<times> coordination_decision list" where
  "run s [] = (s, [])"
| "run s (i # is) =
     (let (s', d) = step s i; (t, ds) = run s' is in (t, d # ds))"

inductive kernel_step :: "coordination_state \<Rightarrow> coordination_state \<Rightarrow> bool" where
  input: "kernel_step s (fst (step s i))"
| effect: "begin_effect s e = Some (t, i) \<Longrightarrow> kernel_step s t"

inductive_cases kernel_stepE: "kernel_step s t"

lemmas handler_defs =
  begin_work_def schedule_def complete_effect_def finish_work_def begin_maintenance_quiescence_def
  begin_drain_def begin_shutdown_def begin_migration_def finish_migration_def begin_renewal_def
  finish_renewal_def begin_publication_def follower_proof_input_def finish_publication_def
  begin_hydration_def begin_inventory_def begin_maintenance_inventory_def
  begin_transfer_preflight_def confirm_transfer_def abort_transfer_def begin_compaction_def
  finish_compaction_def finish_hydration_def fence_def

subsection \<open>The well-formed kernel\<close>

definition kernel_wf :: "coordination_state \<Rightarrow> bool" where
  "kernel_wf s \<longleftrightarrow> distinct (map fst (cs_pending_effects s))
     \<and> 0 \<notin> fst ` set (cs_pending_effects s)
     \<and> (cs_follower_proof s \<longrightarrow> cs_publications s \<noteq> 0)
     \<and> (cs_lifecycle s = Lc_Shutdown \<longrightarrow> cs_shutdown_requested s)"

lemma next_id_nonzero [simp]: "next_id n \<noteq> 0"
proof -
  have "(1 :: u64) \<le> next_id n" by (simp add: next_id_def)
  then show ?thesis by (auto simp: word_le_nat_alt)
qed

lemma free_id_fresh:
  assumes "free_id used n = Some m"
  shows "m \<notin> set used \<and> m \<noteq> 0"
proof (rule free_id.raw_induct [where P = "\<lambda>used n m. m \<notin> set used \<and> m \<noteq> 0", OF _ assms])
  fix f :: "u64 list \<Rightarrow> u64 \<Rightarrow> u64 option" and used n m
  assume IH: "\<And>used n m. f used n = Some m \<Longrightarrow> m \<notin> set used \<and> m \<noteq> 0"
    and eq: "(let m = next_id n in if m \<in> set used then f used m else Some m) = Some m"
  show "m \<notin> set used \<and> m \<noteq> 0"
    using eq IH by (auto simp: Let_def split: if_splits)
qed

lemma begin_effect_Some:
  assumes "begin_effect s e = Some (t, i)"
  shows "i \<notin> fst ` set (cs_pending_effects s)" and "i \<noteq> 0"
    and "t = s\<lparr>cs_next_effect_id := i, cs_pending_effects := AList.update i e (cs_pending_effects s)\<rparr>"
proof -
  from assms have i: "free_id (map fst (cs_pending_effects s)) (cs_next_effect_id s) = Some i"
    and t: "t = s\<lparr>cs_next_effect_id := i,
      cs_pending_effects := AList.update i e (cs_pending_effects s)\<rparr>"
    by (auto simp: begin_effect_def split: option.splits)
  show "i \<notin> fst ` set (cs_pending_effects s)" and "i \<noteq> 0"
    using free_id_fresh [OF i] by auto
  show "t = s\<lparr>cs_next_effect_id := i,
      cs_pending_effects := AList.update i e (cs_pending_effects s)\<rparr>"
    by (rule t)
qed

lemma saturating_add_one_nonzero [simp]: "saturating_add (n :: usize) 1 \<noteq> 0"
proof -
  have "unat (saturating_add n 1) \<noteq> 0"
    by (simp add: unat_saturating_add)
  then show ?thesis by auto
qed

lemma kernel_wf_init [simp]: "kernel_wf (serving_with_residency b r)"
  by (simp add: kernel_wf_def serving_with_residency_def)

lemma delete_keys_wf:
  assumes "distinct (map fst xs) \<and> k \<notin> fst ` set xs"
  shows "distinct (map fst (AList.delete i xs)) \<and> k \<notin> fst ` set (AList.delete i xs)"
  using assms AList.dom_delete_subset [of i xs] AList.distinct_delete [of xs i] by blast

lemma kernel_wf_step: "kernel_wf s \<Longrightarrow> kernel_wf (fst (step s i))"
proof (cases i)
  case (CompleteEffect j e)
  then show "kernel_wf s \<Longrightarrow> ?thesis"
    using delete_keys_wf [of "cs_pending_effects s" 0 j] by (simp add: kernel_wf_def handler_defs)
qed (auto simp: kernel_wf_def handler_defs Let_def is_fenced_def is_shutdown_def)

lemma kernel_wf_begin_effect:
  assumes "begin_effect s e = Some (t, i)" and "kernel_wf s"
  shows "kernel_wf t"
  using assms(2) begin_effect_Some [OF assms(1)]
  by (auto simp: kernel_wf_def dom_update distinct_update)

interpretation wf_kernel: preserved kernel_step kernel_wf
  by unfold_locales (auto elim!: kernel_stepE intro: kernel_wf_step kernel_wf_begin_effect)

subsection \<open>Fencing is absorbing, closing is one-way\<close>

lemma fenced_step: "is_fenced s \<Longrightarrow> is_fenced (fst (step s i))"
  by (cases i) (auto simp: is_fenced_def handler_defs Let_def is_draining_def is_shutdown_def)

lemma fenced_begin_effect: "begin_effect s e = Some (t, i) \<Longrightarrow> is_fenced t = is_fenced s"
  by (drule begin_effect_Some(3)) (simp add: is_fenced_def)

interpretation fencing: preserved kernel_step is_fenced
  by unfold_locales (auto elim!: kernel_stepE intro: fenced_step simp: fenced_begin_effect)

text \<open>
  The abstract life of an activation: it accepts new work, then closes (drain or
  shutdown, with accepted work still completing), then is fenced. Migration is an open
  phase unless a shutdown was requested during it.
\<close>

datatype phase = Open | Closing | Closed

definition phase_of :: "coordination_state \<Rightarrow> phase" where
  "phase_of s =
     (if is_fenced s then Closed
      else if cs_shutdown_requested s \<or> cs_lifecycle s = Lc_Draining \<or> cs_lifecycle s = Lc_Shutdown
      then Closing else Open)"

fun phase_le :: "phase \<Rightarrow> phase \<Rightarrow> bool" where
  "phase_le Open p = True"
| "phase_le Closing p = (p \<noteq> Open)"
| "phase_le Closed p = (p = Closed)"

lemma phase_le_refl: "phase_le p p"
  by (cases p) auto

lemma phase_le_trans: "phase_le p q \<Longrightarrow> phase_le q r \<Longrightarrow> phase_le p r"
  by (cases p; cases q; cases r) auto

lemma phase_step: "phase_le (phase_of s) (phase_of (fst (step s i)))"
  by (cases i; cases "cs_lifecycle s")
    (simp_all add: phase_of_def handler_defs Let_def is_fenced_def is_draining_def is_shutdown_def)

interpretation closing: ratchet kernel_step "\<lambda>s t. phase_le (phase_of s) (phase_of t)"
proof
  show "phase_le (phase_of s) (phase_of t)" if "kernel_step s t" for s t
    using that
  proof (cases rule: kernel_step.cases)
    case (input i)
    then show ?thesis by (simp add: phase_step)
  next
    case (effect e i)
    then have "phase_of t = phase_of s"
      by (simp add: phase_of_def is_fenced_def begin_effect_Some(3) [OF effect])
    then show ?thesis by (simp add: phase_le_refl)
  qed
qed (auto intro: phase_le_refl phase_le_trans)

subsection \<open>Deactivation and admission\<close>

lemma ready_step:
  assumes "step s i = (t, d)" and "d = ReadyToDeactivate \<or> d = ReadyToDeactivateFenced"
  shows "can_deactivate t \<and> (is_fenced t \<or> is_draining t)"
  using assms
  by (cases i)
    (auto simp: handler_defs Let_def ready_to_deactivate_def is_fenced_def is_draining_def
      is_shutdown_def admit_def lookup_def can_deactivate_def split: if_splits)

lemma admit_Admit_iff:
  "admit s k m = D_Admit \<longleftrightarrow>
     m \<and> phase_of s = Open \<and> \<not> cs_transfer_preparing s
     \<and> (cs_maintenance_quiescing s \<longrightarrow> allowed_while_quiescing k)"
  by (cases "cs_lifecycle s")
    (auto simp: admit_def phase_of_def is_fenced_def is_draining_def)

subsection \<open>The foreground slot\<close>

text \<open>The inputs that can give the slot back: completions, a fence, and a lost lease.\<close>

fun releases_slot :: "coordination_input \<Rightarrow> bool" where
  "releases_slot (FinishWork _) = True"
| "releases_slot (FinishMigration _) = True"
| "releases_slot (FinishCompaction _) = True"
| "releases_slot Fence = True"
| "releases_slot (Schedule _ _ _ live) = (\<not> live)"
| "releases_slot (BeginRenewal _ _ live) = (\<not> live)"
| "releases_slot (BeginHydration _ _ live) = (\<not> live)"
| "releases_slot (BeginInventory _ _ _ _ live) = (\<not> live)"
| "releases_slot (BeginTransferPreflight _ _ live) = (\<not> live)"
| "releases_slot _ = False"

fun takes_slot :: "coordination_input \<Rightarrow> bool" where
  "takes_slot (BeginWork _ _) = True"
| "takes_slot (BeginCompaction _ _ _ _ _) = True"
| "takes_slot _ = False"

lemma busy_step: "cs_busy s \<Longrightarrow> \<not> releases_slot i \<Longrightarrow> cs_busy (fst (step s i))"
  by (cases i) (auto simp: handler_defs Let_def)

lemma busy_refuses: "cs_busy s \<Longrightarrow> takes_slot i \<Longrightarrow> snd (step s i) \<noteq> Started"
  by (cases i) (auto simp: handler_defs Let_def)

lemma run_busy:
  assumes "cs_busy s" and "list_all (\<lambda>i. \<not> releases_slot i) is"
  shows "cs_busy (fst (run s is))
    \<and> list_all2 (\<lambda>i d. takes_slot i \<longrightarrow> d \<noteq> Started) is (snd (run s is))"
  using assms
proof (induction "is" arbitrary: s)
  case Nil
  then show ?case by simp
next
  case (Cons i "is")
  obtain t d where t: "step s i = (t, d)" by (cases "step s i")
  have "cs_busy t" and "takes_slot i \<longrightarrow> d \<noteq> Started"
    using busy_step [of s i] busy_refuses [of s i] t Cons.prems by auto
  then show ?case
    using Cons.IH [of t] Cons.prems t by (auto simp: Let_def split: prod.splits)
qed

subsection \<open>Effect identities\<close>

lemma complete_effect_pending:
  assumes "kernel_wf s"
  shows "map_of (cs_pending_effects (fst (complete_effect s i e))) j =
    (if j = i \<and> effect_matches s i e then None else map_of (cs_pending_effects s) j)"
  by (auto simp: complete_effect_def effect_matches_def AList.delete_conv')

text \<open>The allocator cycles through the nonzero identities.\<close>

definition id_period :: nat where
  "id_period = 2 ^ 64 - 1"

lemma unat_next_id: "unat (next_id n) = unat n mod id_period + 1"
proof (cases "n = - 1")
  case True
  then have "next_id n = 1" by (simp add: next_id_def)
  moreover have "unat n = id_period"
    using True by (simp add: unsigned_minus_1_eq_mask mask_eq_exp_minus_1 id_period_def)
  ultimately show ?thesis by simp
next
  case False
  then have "unat n \<noteq> id_period"
    by (simp add: word_unat_eq_iff unsigned_minus_1_eq_mask mask_eq_exp_minus_1 id_period_def)
  then have lt: "unat n < id_period" using unat_bound [of n] by (simp add: id_period_def)
  then have "unat (n + 1) = unat n + 1" by (simp add: unat_word_ariths id_period_def)
  then have "1 \<le> n + 1" by (simp add: word_le_nat_alt)
  then have "next_id n = n + 1" by (simp add: next_id_def max.absorb1)
  then show ?thesis using lt \<open>unat (n + 1) = unat n + 1\<close> by simp
qed

lemma unat_funpow_next_id:
  "unat ((next_id ^^ k) (next_id n)) = (unat n + k) mod id_period + 1"
proof (induction k)
  case 0
  show ?case by (simp add: unat_next_id)
next
  case (Suc k)
  have "unat ((next_id ^^ Suc k) (next_id n)) = ((unat n + k) mod id_period + 1) mod id_period + 1"
    using Suc by (simp add: unat_next_id)
  also have "\<dots> = (unat n + Suc k) mod id_period + 1"
    by (simp add: mod_simps)
  finally show ?case .
qed

lemma free_id_first:
  assumes "\<forall>j < k. (next_id ^^ j) (next_id n) \<in> set used"
    and "(next_id ^^ k) (next_id n) \<notin> set used"
  shows "free_id used n = Some ((next_id ^^ k) (next_id n))"
  using assms
proof (induction k arbitrary: n)
  case 0
  then show ?case by (simp add: free_id.simps)
next
  case (Suc k)
  have "\<forall>j < k. (next_id ^^ j) (next_id (next_id n)) \<in> set used"
  proof (intro allI impI)
    fix j assume "j < k"
    then have "(next_id ^^ Suc j) (next_id n) \<in> set used" using Suc.prems(1) by blast
    then show "(next_id ^^ j) (next_id (next_id n)) \<in> set used" by (simp add: funpow_swap1)
  qed
  then have "free_id used (next_id n) = Some ((next_id ^^ k) (next_id (next_id n)))"
    using Suc.prems(2) by (intro Suc.IH) (simp_all add: funpow_swap1)
  moreover have "next_id n \<in> set used" using Suc.prems(1) by force
  ultimately show ?case by (simp add: free_id.simps [of used n] funpow_swap1)
qed

lemma add_mod_le_cancel:
  assumes "(a + x) mod N = (a + y) mod N" and "x < N" and "y < N" and "x \<le> y"
  shows "x = (y :: nat)"
proof -
  have "N dvd (a + y) - (a + x)"
    using assms by (metis add_le_cancel_left mod_eq_dvd_iff_nat)
  then have "N dvd y - x" by simp
  then show ?thesis using assms by (auto dest: dvd_imp_le)
qed

lemma add_mod_cancel:
  "(a + x) mod N = (a + y) mod N \<Longrightarrow> x < N \<Longrightarrow> y < N \<Longrightarrow> x = (y :: nat)"
  using add_mod_le_cancel [of a x N y] add_mod_le_cancel [of a y N x] by (cases "x \<le> y") auto

lemma free_id_returns:
  assumes "length used < id_period"
  shows "\<exists>m. free_id used n = Some m"
proof -
  let ?f = "\<lambda>k. (next_id ^^ k) (next_id n)"
  have "inj_on ?f {..<id_period}"
  proof (rule inj_onI)
    fix x y assume "x \<in> {..<id_period}" "y \<in> {..<id_period}" "?f x = ?f y"
    then have "(unat n + x) mod id_period = (unat n + y) mod id_period"
      by (metis add_right_cancel unat_funpow_next_id)
    then show "x = y"
      using \<open>x \<in> _\<close> \<open>y \<in> _\<close> by (auto dest: add_mod_cancel)
  qed
  then have "card (?f ` {..<id_period}) = id_period" by (simp add: card_image)
  moreover have "card (set used) < id_period"
    using assms card_length [of used] by simp
  ultimately have "\<not> ?f ` {..<id_period} \<subseteq> set used"
    by (metis card_mono finite_set not_le)
  then obtain k where "?f k \<notin> set used" by blast
  then have "?f (LEAST k. ?f k \<notin> set used) \<notin> set used"
    by (rule LeastI)
  moreover have "\<forall>j < (LEAST k. ?f k \<notin> set used). ?f j \<in> set used"
    using not_less_Least by blast
  ultimately show ?thesis using free_id_first by blast
qed

lemma begin_effect_returns:
  assumes "length (cs_pending_effects s) < id_period"
  obtains t i where "begin_effect s e = Some (t, i)"
  using free_id_returns [of "map fst (cs_pending_effects s)" "cs_next_effect_id s"] assms
  by (auto simp: begin_effect_def)

lemma fenced_serves_nothing:
  assumes "is_fenced s"
  shows "admit s k m \<noteq> D_Admit" and "lookup s = Reject Rj_Fenced"
    and "snd (step s i) \<noteq> StartQueuedWork" and "snd (step s i) = Started \<Longrightarrow> i = BeginShutdown"
  using assms
  by (auto simp: admit_def lookup_def) (cases i; auto simp: handler_defs Let_def admit_def lookup_def
      is_fenced_def split: if_splits)+

subsection \<open>Properties\<close>

text \<open>C1: once the kernel is fenced, every later state of the run is fenced; it admits no
  request, hands out no local handle, schedules no queued work and starts nothing but its own
  shutdown.\<close>

theorem fence_is_permanent:
  assumes "kernel_step\<^sup>*\<^sup>* s t" and "is_fenced s"
  shows "is_fenced t \<and> admit t k m \<noteq> D_Admit \<and> lookup t = Reject Rj_Fenced
    \<and> snd (step t i) \<noteq> StartQueuedWork
    \<and> (snd (step t i) = Started \<longrightarrow> i = BeginShutdown)"
  using fencing.run_inv [OF assms] fenced_serves_nothing by blast

theorem fence_is_permanent_witness:
  "is_fenced (fst (step (fst (step (serving True) Fence)) BeginShutdown))"
proof -
  let ?s = "fst (step (serving True) Fence)"
  have "kernel_step\<^sup>*\<^sup>* ?s (fst (step ?s BeginShutdown))"
    by (intro r_into_rtranclp kernel_step.input)
  moreover have "is_fenced ?s"
    by (simp add: is_fenced_def fence_def)
  ultimately show ?thesis
    using fence_is_permanent [of ?s] by blast
qed

text \<open>C2: the kernel refines the three-phase life open, closing, closed: no run moves back to an
  earlier phase, so after a drain, a shutdown or a fence has taken effect no later state admits
  a request, whatever inputs and effects come in between.\<close>

theorem closing_is_one_way:
  assumes "kernel_step\<^sup>*\<^sup>* s t"
  shows "phase_le (phase_of s) (phase_of t)
    \<and> (phase_of s \<noteq> Open \<longrightarrow> admit t k m \<noteq> D_Admit)"
proof -
  have le: "phase_le (phase_of s) (phase_of t)"
    using assms by (rule closing.run_le)
  then have "phase_of s \<noteq> Open \<longrightarrow> phase_of t \<noteq> Open"
    by (cases "phase_of s") auto
  then show ?thesis
    using le by (simp add: admit_Admit_iff)
qed

theorem closing_is_one_way_witness:
  "admit (fst (step (fst (step (serving True) BeginDrain)) (FinishMigration False))) Command True
     \<noteq> D_Admit"
proof -
  let ?s = "fst (step (serving True) BeginDrain)"
  have "phase_of ?s \<noteq> Open"
    by (simp add: phase_of_def begin_drain_def is_fenced_def is_draining_def serving_def Let_def)
  moreover have "kernel_step\<^sup>*\<^sup>* ?s (fst (step ?s (FinishMigration False)))"
    by (intro r_into_rtranclp kernel_step.input)
  ultimately show ?thesis
    using closing_is_one_way [of ?s] by blast
qed

text \<open>C3: whenever a step reports that the Cell may be deactivated, the kernel is quiescent in the
  state it leaves: the foreground slot is free, no renewal and no publication is in flight, no
  effect is pending, and the Cell is draining or fenced.\<close>

theorem deactivation_is_quiescent:
  assumes "step s i = (t, d)" and "d = ReadyToDeactivate \<or> d = ReadyToDeactivateFenced"
  shows "\<not> cs_busy t \<and> \<not> cs_renewing t \<and> cs_publications t = 0 \<and> cs_pending_effects t = []
    \<and> (is_fenced t \<or> is_draining t)"
  using ready_step [OF assms] by (simp add: can_deactivate_def)

theorem deactivation_is_quiescent_witness:
  "snd (step (serving True) BeginDrain) = ReadyToDeactivate
   \<and> cs_pending_effects (fst (step (serving True) BeginDrain)) = []"
proof -
  have d: "snd (step (serving True) BeginDrain) = ReadyToDeactivate"
    by (simp add: begin_drain_def is_fenced_def is_draining_def serving_def Let_def can_deactivate_def)
  show ?thesis
    using deactivation_is_quiescent [of "serving True" BeginDrain, OF surjective_pairing] d by simp
qed

text \<open>The foreground slot is exclusive. Once a command or a compaction has started, every later
  attempt to start one is refused until an input gives the slot back: a completion, a fence, or
  the loss of the lease.\<close>

lemma foreground_slot_exclusive:
  assumes "step s i = (t, Started)" and "takes_slot i"
    and "list_all (\<lambda>j. \<not> releases_slot j) is"
  shows "cs_busy (fst (run t is))
    \<and> list_all2 (\<lambda>j d. takes_slot j \<longrightarrow> d \<noteq> Started) is (snd (run t is))"
proof -
  have "cs_busy t"
    using assms(1,2) by (cases i) (auto simp: handler_defs split: if_splits)
  then show ?thesis
    using assms(3) by (rule run_busy)
qed

text \<open>C4: the loop that allocates an effect identity returns whenever fewer than all nonzero 64-bit
  identities are in flight; the identity is nonzero and fresh, it is bound to exactly the given
  intent, and every other pending effect keeps its binding.\<close>

theorem begin_effect_fresh:
  assumes "length (cs_pending_effects s) < 2 ^ 64 - 1"
  shows "\<exists>t i. begin_effect s e = Some (t, i) \<and> i \<noteq> 0
    \<and> map_of (cs_pending_effects s) i = None \<and> effect_matches t i e
    \<and> (\<forall>j e'. j \<noteq> i \<longrightarrow> effect_matches t j e' = effect_matches s j e')"
proof -
  obtain t i where t: "begin_effect s e = Some (t, i)"
    using begin_effect_returns [of s e] assms by (auto simp: id_period_def)
  have "map_of (cs_pending_effects s) i = None"
    using begin_effect_Some(1) [OF t] by (simp add: map_of_eq_None_iff)
  then show ?thesis
    using t begin_effect_Some(2,3) [OF t]
    by (auto simp: effect_matches_def AList.update_conv')
qed

theorem begin_effect_fresh_witness:
  "\<exists>t i. begin_effect (serving True) Renewal = Some (t, i) \<and> effect_matches t i Renewal"
  using begin_effect_fresh [of "serving True" Renewal] by (auto simp: serving_def)

text \<open>C5: a completion releases exactly the effect it names. After an effect is begun, completing it
  with another intent changes nothing and is reported stale; completing it with its own intent
  removes it and no other effect; repeating the completion is stale.\<close>

theorem effect_completes_once:
  assumes "begin_effect s e = Some (t, i)" and "e' \<noteq> e"
  shows "step t (CompleteEffect i e') = (t, StaleEffect)
    \<and> snd (step t (CompleteEffect i e)) = EffectCompleted
    \<and> map_of (cs_pending_effects (fst (step t (CompleteEffect i e)))) = map_of (cs_pending_effects s)
    \<and> snd (step (fst (step t (CompleteEffect i e))) (CompleteEffect i e)) = StaleEffect"
proof -
  have none: "map_of (cs_pending_effects s) i = None"
    using begin_effect_Some(1) [OF assms(1)] by (simp add: map_of_eq_None_iff)
  have t: "map_of (cs_pending_effects t) = (map_of (cs_pending_effects s))(i \<mapsto> e)"
    using begin_effect_Some(3) [OF assms(1)] by (simp add: AList.update_conv')
  show ?thesis
    using none t assms(2) by (auto simp: complete_effect_def AList.delete_conv' fun_eq_iff)
qed

theorem effect_completes_once_witness:
  "\<exists>t i. begin_effect (serving True) Renewal = Some (t, i)
     \<and> step t (CompleteEffect i Proof) = (t, StaleEffect)"
proof -
  obtain t i where "begin_effect (serving True) Renewal = Some (t, i)"
    by (rule begin_effect_returns [of "serving True"]) (auto simp: serving_def id_period_def)
  then show ?thesis
    using effect_completes_once [of "serving True" Renewal t i Proof] by auto
qed

text \<open>C6: in every state a kernel reaches from its start, the pending effects have distinct nonzero
  identities, a recorded follower proof belongs to a publication that is still in flight, and
  the shutdown lifecycle implies a recorded shutdown request.\<close>

theorem kernel_reachable_wf:
  assumes "kernel_step\<^sup>*\<^sup>* (serving_with_residency b r) t"
  shows "distinct (map fst (cs_pending_effects t)) \<and> 0 \<notin> fst ` set (cs_pending_effects t)
    \<and> (cs_follower_proof t \<longrightarrow> cs_publications t \<noteq> 0)
    \<and> (cs_lifecycle t = Lc_Shutdown \<longrightarrow> cs_shutdown_requested t)"
  using wf_kernel.run_inv [OF assms kernel_wf_init] by (simp add: kernel_wf_def)

theorem kernel_reachable_wf_witness:
  "cs_lifecycle (fst (step (serving_with_residency True Sparse) BeginShutdown)) = Lc_Shutdown
   \<and> cs_shutdown_requested (fst (step (serving_with_residency True Sparse) BeginShutdown))"
proof -
  have "kernel_step\<^sup>*\<^sup>* (serving_with_residency True Sparse)
      (fst (step (serving_with_residency True Sparse) BeginShutdown))"
    by (intro r_into_rtranclp kernel_step.input)
  moreover have "cs_lifecycle (fst (step (serving_with_residency True Sparse) BeginShutdown)) = Lc_Shutdown"
    by (simp add: begin_shutdown_def serving_with_residency_def is_shutdown_def is_fenced_def Let_def)
  ultimately show ?thesis
    using kernel_reachable_wf by blast
qed

end
