(* ===== verification/Wire_Codec.thy ===== *)
theory Wire_Codec
  imports Rust_Order
begin

text \<open>
  The bounded wire codec, \<^verbatim>\<open>crates/cellule-runtime/src/codec.rs\<close>: the append-only encoder with
  its byte limit, the forward-only decoder, every primitive reader and writer, and the
  \<^verbatim>\<open>WireValue\<close> implementations. The trait \<^verbatim>\<open>WireValue\<close> is the locale \<open>wire_value\<close>: an
  encoder that appends the value's canonical bytes or fails with \<open>Limit\<close>, and a decoder that
  accepts exactly those bytes. \<^verbatim>\<open>encode_wire\<close> and \<^verbatim>\<open>decode_wire\<close> are its clients; each
  implementation of the trait is an interpretation.

  An encoder whose write failed is never read again, because every implementation propagates
  the error with \<^verbatim>\<open>?\<close>, so a failing write returns the error alone. Lengths are natural
  numbers: a Rust slice is never longer than \<open>isize::MAX\<close>, so the source's \<^verbatim>\<open>checked_add\<close> of
  two lengths cannot overflow. A float is its IEEE bit pattern.
\<close>

definition MAX_WIRE_BYTES :: nat where
  "MAX_WIRE_BYTES = 4 * 1024 * 1024 + 64 * 1024"

type_synonym 'a codec_result = "codec_error + 'a"

subsection \<open>Encoder\<close>

record encoder =
  enc_bytes :: bytes
  enc_limit :: nat

definition encoder_new :: "u32 \<Rightarrow> encoder codec_result" where
  "encoder_new limit =
     (if limit = 0 \<or> unat limit > MAX_WIRE_BYTES then Inl Limit
      else Inr \<lparr>enc_bytes = [], enc_limit = unat limit\<rparr>)"

definition enc_extend :: "bytes \<Rightarrow> encoder \<Rightarrow> encoder codec_result" where
  "enc_extend value e =
     (if length (enc_bytes e) + length value \<le> enc_limit e
      then Inr (e\<lparr>enc_bytes := enc_bytes e @ value\<rparr>) else Inl Limit)"

definition write_u8 :: "u8 \<Rightarrow> encoder \<Rightarrow> encoder codec_result" where
  "write_u8 v = enc_extend [v]"

definition write_bool :: "bool \<Rightarrow> encoder \<Rightarrow> encoder codec_result" where
  "write_bool v = write_u8 (if v then 1 else 0)"

definition write_u32 :: "u32 \<Rightarrow> encoder \<Rightarrow> encoder codec_result" where
  "write_u32 v = enc_extend (u32_to_be_bytes v)"

definition write_u64 :: "u64 \<Rightarrow> encoder \<Rightarrow> encoder codec_result" where
  "write_u64 v = enc_extend (u64_to_be_bytes v)"

definition write_i64 :: "i64 \<Rightarrow> encoder \<Rightarrow> encoder codec_result" where
  "write_i64 v = enc_extend (i64_to_be_bytes v)"

datatype f64 = F64 (to_bits: u64)

definition f64_is_finite :: "f64 \<Rightarrow> bool" where
  "f64_is_finite x \<longleftrightarrow> and (to_bits x) 0x7FF0000000000000 \<noteq> 0x7FF0000000000000"

definition f64_is_zero :: "f64 \<Rightarrow> bool" where
  "f64_is_zero x \<longleftrightarrow> to_bits x = 0 \<or> to_bits x = 0x8000000000000000"

definition write_f64 :: "f64 \<Rightarrow> encoder \<Rightarrow> encoder codec_result" where
  "write_f64 v e =
     (if \<not> f64_is_finite v then Inl (Invalid ''non-finite f64'')
      else enc_extend (u64_to_be_bytes (to_bits (if f64_is_zero v then F64 0 else v))) e)"

definition write_bytes :: "bytes \<Rightarrow> encoder \<Rightarrow> encoder codec_result" where
  "write_bytes v e =
     (if length v \<ge> 2 ^ 32 then Inl Limit
      else bind_r (write_u32 (of_nat (length v)) e) (enc_extend v))"

definition write_text :: "rstring \<Rightarrow> encoder \<Rightarrow> encoder codec_result" where
  "write_text v = write_bytes v"

definition write_count :: "nat \<Rightarrow> encoder \<Rightarrow> encoder codec_result" where
  "write_count n e =
     (if n \<ge> 2 ^ 32 then Inl Limit else write_u32 (of_nat n) e)"

subsection \<open>Decoder\<close>

record decoder =
  dec_bytes :: bytes
  dec_position :: nat

definition decoder_new :: "bytes \<Rightarrow> u32 \<Rightarrow> decoder codec_result" where
  "decoder_new bs limit =
     (if limit = 0 \<or> unat limit > MAX_WIRE_BYTES \<or> length bs > unat limit then Inl Limit
      else Inr \<lparr>dec_bytes = bs, dec_position = 0\<rparr>)"

definition take_bytes :: "nat \<Rightarrow> decoder \<Rightarrow> (bytes \<times> decoder) codec_result" where
  "take_bytes n d =
     (if dec_position d + n \<le> length (dec_bytes d)
      then Inr (take n (drop (dec_position d) (dec_bytes d)), d\<lparr>dec_position := dec_position d + n\<rparr>)
      else Inl (Invalid ''truncated wire value''))"

definition read_u8 :: "decoder \<Rightarrow> (u8 \<times> decoder) codec_result" where
  "read_u8 d = bind_r (take_bytes 1 d) (\<lambda>(bs, d'). Inr (hd bs, d'))"

definition read_bool :: "decoder \<Rightarrow> (bool \<times> decoder) codec_result" where
  "read_bool d = bind_r (read_u8 d) (\<lambda>(b, d').
     if b = 0 then Inr (False, d') else if b = 1 then Inr (True, d')
     else Inl (Invalid ''invalid bool tag''))"

definition read_u32 :: "decoder \<Rightarrow> (u32 \<times> decoder) codec_result" where
  "read_u32 d = bind_r (take_bytes 4 d) (\<lambda>(bs, d').
     if length bs \<noteq> 4 then Inl (Invalid ''truncated u32'') else Inr (u32_from_be_bytes bs, d'))"

definition read_u64 :: "decoder \<Rightarrow> (u64 \<times> decoder) codec_result" where
  "read_u64 d = bind_r (take_bytes 8 d) (\<lambda>(bs, d').
     if length bs \<noteq> 8 then Inl (Invalid ''truncated u64'') else Inr (u64_from_be_bytes bs, d'))"

definition read_i64 :: "decoder \<Rightarrow> (i64 \<times> decoder) codec_result" where
  "read_i64 d = bind_r (take_bytes 8 d) (\<lambda>(bs, d').
     if length bs \<noteq> 8 then Inl (Invalid ''truncated i64'') else Inr (i64_from_be_bytes bs, d'))"

definition read_f64 :: "decoder \<Rightarrow> (f64 \<times> decoder) codec_result" where
  "read_f64 d = bind_r (read_u64 d) (\<lambda>(w, d').
     if \<not> f64_is_finite (F64 w) \<or> w = 0x8000000000000000
     then Inl (Invalid ''noncanonical f64'') else Inr (F64 w, d'))"

definition read_bytes :: "decoder \<Rightarrow> (bytes \<times> decoder) codec_result" where
  "read_bytes d = bind_r (read_u32 d) (\<lambda>(n, d'). take_bytes (unat n) d')"

definition read_text :: "decoder \<Rightarrow> (rstring \<times> decoder) codec_result" where
  "read_text d = bind_r (read_bytes d) (\<lambda>(bs, d').
     if valid_utf8 bs then Inr (bs, d') else Inl Utf8)"

definition read_count :: "decoder \<Rightarrow> (nat \<times> decoder) codec_result" where
  "read_count d = bind_r (read_u32 d) (\<lambda>(n, d'). Inr (unat n, d'))"

definition decoder_finish :: "decoder \<Rightarrow> unit codec_result" where
  "decoder_finish d =
     (if dec_position d \<noteq> length (dec_bytes d) then Inl (Invalid ''trailing wire bytes'') else Inr ())"

subsection \<open>Wire values and the two entry points\<close>

definition option_encode ::
  "('v \<Rightarrow> encoder \<Rightarrow> encoder codec_result) \<Rightarrow> 'v option \<Rightarrow> encoder \<Rightarrow> encoder codec_result" where
  "option_encode enc v e =
     (case v of None \<Rightarrow> write_u8 0 e | Some x \<Rightarrow> bind_r (write_u8 1 e) (enc x))"

definition option_decode ::
  "(decoder \<Rightarrow> ('v \<times> decoder) codec_result) \<Rightarrow> decoder \<Rightarrow> ('v option \<times> decoder) codec_result" where
  "option_decode dec d = bind_r (read_u8 d) (\<lambda>(b, d').
     if b = 0 then Inr (None, d')
     else if b = 1 then bind_r (dec d') (\<lambda>(x, d''). Inr (Some x, d''))
     else Inl (Invalid ''invalid option tag''))"

definition unit_encode :: "unit \<Rightarrow> encoder \<Rightarrow> encoder codec_result" where
  "unit_encode v e = Inr e"

definition unit_decode :: "decoder \<Rightarrow> (unit \<times> decoder) codec_result" where
  "unit_decode d = Inr ((), d)"

definition encode_wire ::
  "('v \<Rightarrow> encoder \<Rightarrow> encoder codec_result) \<Rightarrow> 'v \<Rightarrow> u32 \<Rightarrow> bytes codec_result" where
  "encode_wire enc v limit =
     bind_r (encoder_new limit) (\<lambda>e. bind_r (enc v e) (\<lambda>e'. Inr (enc_bytes e')))"

definition decode_wire ::
  "(decoder \<Rightarrow> ('v \<times> decoder) codec_result) \<Rightarrow> bytes \<Rightarrow> u32 \<Rightarrow> 'v codec_result" where
  "decode_wire dec input limit =
     bind_r (decoder_new input limit) (\<lambda>d.
     bind_r (dec d) (\<lambda>(v, d').
     bind_r (decoder_finish d') (\<lambda>_. Inr v)))"

definition read_fixed :: "nat \<Rightarrow> string \<Rightarrow> decoder \<Rightarrow> (bytes \<times> decoder) codec_result" where
  "read_fixed n message d = bind_r (read_bytes d) (\<lambda>(bs, d').
     if length bs = n then Inr (bs, d') else Inl (Invalid message))"


subsection \<open>The contract of a wire value\<close>

text \<open>
  \<open>at_bytes d bs\<close>: the decoder's unread input starts with \<open>bs\<close>; \<open>advance n d\<close> is the
  decoder \<open>n\<close> bytes further on.
\<close>

definition at_bytes :: "decoder \<Rightarrow> bytes \<Rightarrow> bool" where
  "at_bytes d bs \<longleftrightarrow> dec_position d + length bs \<le> length (dec_bytes d)
     \<and> take (length bs) (drop (dec_position d) (dec_bytes d)) = bs"

definition within_limit :: "encoder \<Rightarrow> bool" where
  "within_limit e \<longleftrightarrow> length (enc_bytes e) \<le> enc_limit e"

definition advance :: "nat \<Rightarrow> decoder \<Rightarrow> decoder" where
  "advance n d = d\<lparr>dec_position := dec_position d + n\<rparr>"

lemma at_bytes_Nil: "at_bytes d bs \<Longrightarrow> at_bytes d [] \<and> at_bytes (advance (length bs) d) []"
  by (simp add: at_bytes_def advance_def)

lemma advance_0 [simp]: "advance 0 d = d"
  by (simp add: advance_def)

lemma advance_advance [simp]: "advance m (advance n d) = advance (n + m) d"
  by (simp add: advance_def ac_simps)

lemma at_bytes_append:
  "at_bytes d (xs @ ys) \<longleftrightarrow> at_bytes d xs \<and> at_bytes (advance (length xs) d) ys"
proof -
  have "take (length xs + length ys) zs = xs @ ys
      \<longleftrightarrow> take (length xs) zs = xs \<and> take (length ys) (drop (length xs) zs) = ys"
    for zs :: bytes
    by (auto simp: take_add append_eq_append_conv_if min_def split: if_splits)
  then show ?thesis
    by (auto simp: at_bytes_def advance_def ac_simps)
qed

lemma take_bytes_at: "at_bytes d bs \<Longrightarrow> length bs = n \<Longrightarrow> take_bytes n d = Inr (bs, advance n d)"
  by (auto simp: at_bytes_def take_bytes_def advance_def)

lemma take_bytes_Inr:
  "take_bytes n d = Inr (bs, d') \<longleftrightarrow> length bs = n \<and> at_bytes d bs \<and> d' = advance n d"
  by (auto simp: at_bytes_def take_bytes_def advance_def split: if_splits)

locale wire_value =
  fixes encode :: "'v \<Rightarrow> encoder \<Rightarrow> encoder codec_result"
    and decode :: "decoder \<Rightarrow> ('v \<times> decoder) codec_result"
    and wire :: "'v \<Rightarrow> bytes"
    and canonical :: "'v \<Rightarrow> bool"
  assumes encode_exact: "canonical v \<Longrightarrow> within_limit e \<Longrightarrow> encode v e = enc_extend (wire v) e"
    and decode_exact: "at_bytes d [] \<Longrightarrow> decode d = Inr (v, d') \<longleftrightarrow>
      canonical v \<and> at_bytes d (wire v) \<and> d' = advance (length (wire v)) d"
begin

definition fits :: "'v \<Rightarrow> u32 \<Rightarrow> bool" where
  "fits v limit \<longleftrightarrow>
     limit \<noteq> 0 \<and> unat limit \<le> MAX_WIRE_BYTES \<and> length (wire v) \<le> unat limit"

lemma encode_wire_exact:
  assumes "canonical v"
  shows "encode_wire encode v limit = (if fits v limit then Inr (wire v) else Inl Limit)"
  using encode_exact [OF assms]
  by (auto simp: encode_wire_def encoder_new_def enc_extend_def fits_def within_limit_def)

lemma decode_wire_exact:
  "decode_wire decode bs limit = Inr v \<longleftrightarrow> canonical v \<and> bs = wire v \<and> fits v limit"
proof -
  let ?d = "\<lparr>dec_bytes = bs, dec_position = 0\<rparr>"
  have whole: "at_bytes ?d (wire v) \<and> length (wire v) = length bs \<longleftrightarrow> bs = wire v"
    by (auto simp: at_bytes_def)
  have "decode_wire decode bs limit = Inr v \<longleftrightarrow>
      limit \<noteq> 0 \<and> unat limit \<le> MAX_WIRE_BYTES \<and> length bs \<le> unat limit
      \<and> (\<exists>d'. decode ?d = Inr (v, d') \<and> dec_position d' = length (dec_bytes d'))"
    by (auto simp: decode_wire_def decoder_new_def decoder_finish_def bind_r_Inr not_less)
  also have "(\<exists>d'. decode ?d = Inr (v, d') \<and> dec_position d' = length (dec_bytes d'))
      \<longleftrightarrow> canonical v \<and> at_bytes ?d (wire v) \<and> length (wire v) = length bs"
    using decode_exact [of ?d v] by (auto simp: at_bytes_def advance_def)
  finally show ?thesis
    unfolding whole fits_def by auto
qed

lemma wire_round_trip:
  "canonical v \<Longrightarrow> encode_wire encode v limit = Inr bs \<longleftrightarrow> decode_wire decode bs limit = Inr v"
  by (auto simp: encode_wire_exact decode_wire_exact)

lemma canonical_iff:
  "decode_wire decode bs limit = Inr v \<longleftrightarrow> canonical v \<and> encode_wire encode v limit = Inr bs"
  using wire_round_trip [of v limit bs] decode_wire_exact [of bs limit v]
  by (cases "canonical v") simp_all

lemma wire_inj: "canonical v \<Longrightarrow> canonical v' \<Longrightarrow> wire v = wire v' \<Longrightarrow> v = v'"
proof -
  assume c: "canonical v" "canonical v'" and w: "wire v = wire v'"
  let ?d = "\<lparr>dec_bytes = wire v, dec_position = 0\<rparr>"
  have "at_bytes ?d (wire v)" "at_bytes ?d []"
    by (simp_all add: at_bytes_def)
  then have "decode ?d = Inr (v, advance (length (wire v)) ?d)"
    and "decode ?d = Inr (v', advance (length (wire v)) ?d)"
    using c w by (simp_all add: decode_exact)
  then show "v = v'"
    by simp
qed

end

subsection \<open>The implementations of the trait\<close>

lemma enc_extend_append:
  "bind_r (enc_extend xs e) (enc_extend ys) = enc_extend (xs @ ys) e"
  by (auto simp: enc_extend_def)

lemma read_exact:
  assumes "\<And>bs. length bs = n \<Longrightarrow> put (get bs) = bs \<and> ok (get bs)"
    and "\<And>v. ok v \<Longrightarrow> get (put v) = v" and "\<And>v. length (put v) = n"
  shows "bind_r (take_bytes n d) (\<lambda>(bs, d'). if length bs \<noteq> n then Inl x else Inr (get bs, d'))
      = Inr (v, d') \<longleftrightarrow> ok v \<and> at_bytes d (put v) \<and> d' = advance (length (put v)) d"
    (is "?l \<longleftrightarrow> ?r")
proof
  assume ?l
  then show ?r
    using assms(1) by (auto simp: bind_r_Inr take_bytes_Inr assms(3) split: if_splits)
next
  assume ?r
  then have "take_bytes n d = Inr (put v, d')"
    by (simp add: take_bytes_Inr assms(3))
  then show ?l
    using \<open>?r\<close> by (simp add: assms(2,3))
qed

lemma read_u8_exact: "read_u8 d = Inr (v, d') \<longleftrightarrow> at_bytes d [v] \<and> d' = advance 1 d"
proof -
  have "read_u8 d = Inr (v, d') \<longleftrightarrow> (\<exists>bs. take_bytes 1 d = Inr (bs, d') \<and> hd bs = v)"
    by (simp add: read_u8_def bind_r_Inr)
  also have "\<dots> \<longleftrightarrow> take_bytes 1 d = Inr ([v], d')"
    by (auto simp: take_bytes_Inr length_Suc_conv)
  finally show ?thesis
    by (simp add: take_bytes_Inr)
qed

interpretation u8_value: wire_value write_u8 read_u8 "\<lambda>v. [v]" "\<lambda>_. True"
proof
  show "read_u8 d = Inr (v, d') \<longleftrightarrow>
      True \<and> at_bytes d [v] \<and> d' = advance (length [v]) d" for d d' v
    by (auto simp: read_u8_exact)
qed (simp add: write_u8_def)

interpretation bool_value: wire_value write_bool read_bool
  "\<lambda>v. [if v then 1 else 0]" "\<lambda>_. True"
proof
  show "read_bool d = Inr (v, d') \<longleftrightarrow> True \<and> at_bytes d [if v then 1 else 0]
      \<and> d' = advance (length [if v then 1 else 0 :: u8]) d" for d d' v
    by (cases v; force simp: read_bool_def bind_r_Inr read_u8_exact split: if_splits)
qed (simp add: write_bool_def write_u8_def)

lemma read_u32_exact:
  "read_u32 d = Inr (v, d') \<longleftrightarrow> at_bytes d (u32_to_be_bytes v) \<and> d' = advance 4 d"
  using read_exact [where put = u32_to_be_bytes and ok = "\<lambda>_. True"]
  by (simp add: read_u32_def u32_be_round')

interpretation u32_value: wire_value write_u32 read_u32 u32_to_be_bytes "\<lambda>_. True"
  by unfold_locales (simp_all add: write_u32_def read_u32_exact)

lemma read_u64_exact:
  "read_u64 d = Inr (v, d') \<longleftrightarrow> at_bytes d (u64_to_be_bytes v) \<and> d' = advance 8 d"
  using read_exact [where put = u64_to_be_bytes and ok = "\<lambda>_. True"]
  by (simp add: read_u64_def u64_be_round')

interpretation u64_value: wire_value write_u64 read_u64 u64_to_be_bytes "\<lambda>_. True"
  by unfold_locales (simp_all add: write_u64_def read_u64_exact)

lemma is_i64_from_be: "is_i64 (i64_from_be_bytes bs)"
  by (simp add: i64_from_be_bytes_def is_i64_sint)

interpretation i64_value: wire_value write_i64 read_i64 i64_to_be_bytes is_i64
proof
  show "read_i64 d = Inr (v, d') \<longleftrightarrow> is_i64 v \<and> at_bytes d (i64_to_be_bytes v)
      \<and> d' = advance (length (i64_to_be_bytes v)) d" for d d' v
    unfolding read_i64_def
    by (rule read_exact [where ok = "is_i64"])
      (simp_all add: i64_be_round i64_be_round' is_i64_from_be)
qed (simp add: write_i64_def)

definition f64_canonical :: "f64 \<Rightarrow> bool" where
  "f64_canonical x \<longleftrightarrow> f64_is_finite x \<and> to_bits x \<noteq> 0x8000000000000000"

interpretation f64_value: wire_value write_f64 read_f64
  "\<lambda>x. u64_to_be_bytes (to_bits x)" f64_canonical
proof
  show "read_f64 d = Inr (v, d') \<longleftrightarrow> f64_canonical v \<and> at_bytes d (u64_to_be_bytes (to_bits v))
      \<and> d' = advance (length (u64_to_be_bytes (to_bits v))) d" for d d' v
    by (cases v) (auto simp: read_f64_def bind_r_Inr read_u64_exact f64_canonical_def
        split: if_splits)
qed (auto simp: write_f64_def f64_canonical_def f64_is_zero_def)

definition bytes_wire :: "bytes \<Rightarrow> bytes" where
  "bytes_wire v = u32_to_be_bytes (of_nat (length v)) @ v"

definition fits_u32 :: "bytes \<Rightarrow> bool" where
  "fits_u32 v \<longleftrightarrow> length v < 2 ^ 32"

lemma unat_of_nat_u32: "n < 2 ^ 32 \<Longrightarrow> unat (of_nat n :: u32) = n"
  by (simp add: unat_of_nat)

lemma word_of_nat_length: "length v = unat (n :: u32) \<Longrightarrow> fits_u32 v \<and> of_nat (length v) = n"
  using unat_bound [of n] by (simp add: fits_u32_def)

lemma read_bytes_exact:
  "read_bytes d = Inr (v, d') \<longleftrightarrow>
     fits_u32 v \<and> at_bytes d (bytes_wire v) \<and> d' = advance (length (bytes_wire v)) d"
proof -
  have "read_bytes d = Inr (v, d') \<longleftrightarrow> (\<exists>n. at_bytes d (u32_to_be_bytes n)
      \<and> length v = unat n \<and> at_bytes (advance 4 d) v \<and> d' = advance (4 + unat n) d)"
    by (auto simp: read_bytes_def bind_r_Inr read_u32_exact take_bytes_Inr)
  also have "\<dots> \<longleftrightarrow> fits_u32 v \<and> at_bytes d (u32_to_be_bytes (of_nat (length v)))
      \<and> at_bytes (advance 4 d) v \<and> d' = advance (4 + length v) d"
    by (metis fits_u32_def unat_of_nat_u32 word_of_nat_length)
  finally show ?thesis
    by (simp add: bytes_wire_def at_bytes_append)
qed

interpretation bytes_value: wire_value write_bytes read_bytes bytes_wire fits_u32
  by unfold_locales (simp_all add: read_bytes_exact write_bytes_def fits_u32_def bytes_wire_def
      write_u32_def enc_extend_append)

definition text_ok :: "rstring \<Rightarrow> bool" where
  "text_ok v \<longleftrightarrow> valid_utf8 v \<and> fits_u32 v"

interpretation text_value: wire_value write_text read_text bytes_wire text_ok
proof
  show "read_text d = Inr (v, d') \<longleftrightarrow> text_ok v \<and> at_bytes d (bytes_wire v)
      \<and> d' = advance (length (bytes_wire v)) d" for d d' v
    by (auto simp: read_text_def bind_r_Inr read_bytes_exact text_ok_def split: if_splits)
qed (simp add: write_text_def text_ok_def bytes_value.encode_exact)

interpretation unit_value: wire_value unit_encode unit_decode "\<lambda>_. []" "\<lambda>_. True"
  by unfold_locales (auto simp: unit_encode_def unit_decode_def enc_extend_def within_limit_def)

text \<open>An optional value is a tag byte and, for \<open>Some\<close>, the payload's own encoding.\<close>

definition option_wire :: "('v \<Rightarrow> bytes) \<Rightarrow> 'v option \<Rightarrow> bytes" where
  "option_wire w v = (case v of None \<Rightarrow> [0] | Some x \<Rightarrow> 1 # w x)"

context wire_value
begin

lemma option_wire_value:
  "wire_value (option_encode encode) (option_decode decode) (option_wire wire)
     (pred_option canonical)"
proof
  have some: "bind_r (enc_extend [1] e) (encode x) = enc_extend (1 # wire x) e"
    if "canonical x" for x e
    using that encode_exact by (auto simp: enc_extend_def within_limit_def)
  show "option_encode encode v e = enc_extend (option_wire wire v) e"
    if "pred_option canonical v" "within_limit e" for v e
    using that by (auto simp: option_encode_def option_wire_def write_u8_def some
        split: option.splits)
  have tag: "at_bytes d (1 # wire x) \<longleftrightarrow> at_bytes d [1] \<and> at_bytes (advance 1 d) (wire x)" for d x
    using at_bytes_append [of d "[1]" "wire x"] by simp
  have "at_bytes (advance 1 d) []" if "at_bytes d [b]" for d b
    using at_bytes_Nil [OF that] by simp
  then have payload: "decode (advance 1 d) = Inr (x, d') \<longleftrightarrow> canonical x
      \<and> at_bytes (advance 1 d) (wire x) \<and> d' = advance (length (wire x)) (advance 1 d)"
    if "at_bytes d [1]" for d d' x
    using that by (simp add: decode_exact)
  show "option_decode decode d = Inr (v, d') \<longleftrightarrow> pred_option canonical v
      \<and> at_bytes d (option_wire wire v) \<and> d' = advance (length (option_wire wire v)) d" for d v d'
  proof (cases v)
    case None
    then show ?thesis
      by (force simp: option_decode_def option_wire_def bind_r_Inr read_u8_exact split: if_splits)
  next
    case (Some x)
    then show ?thesis
      using payload [of d x d'] by (auto simp: option_decode_def option_wire_def bind_r_Inr
          read_u8_exact tag split: if_splits)
  qed
qed

end



text \<open>
  C8: The codecs of the types that \<^verbatim>\<open>codec.rs\<close> itself implements without a type parameter
  (\<open>bool\<close>, \<open>u8\<close>, \<open>u32\<close>, \<open>u64\<close>, \<open>i64\<close>, \<open>f64\<close>, bytes, text and the unit) are canonical. Decoding a
  buffer under a limit returns a value exactly when that value is well formed (a 64-bit signed integer,
  a finite float other than negative zero, bytes whose length fits a \<open>u32\<close>, valid UTF-8) and the buffer
  is precisely what the encoder produces for it under the same limit; so no value has two accepted
  encodings. Negative zero is the one float that does not come back: it is written as zero.
\<close>

theorem wire_values_canonical:
  "(decode_wire read_bool bs limit = Inr a \<longleftrightarrow> encode_wire write_bool a limit = Inr bs)
   \<and> (decode_wire read_u8 bs limit = Inr b \<longleftrightarrow> encode_wire write_u8 b limit = Inr bs)
   \<and> (decode_wire read_u32 bs limit = Inr c \<longleftrightarrow> encode_wire write_u32 c limit = Inr bs)
   \<and> (decode_wire read_u64 bs limit = Inr d \<longleftrightarrow> encode_wire write_u64 d limit = Inr bs)
   \<and> (decode_wire read_i64 bs limit = Inr i \<longleftrightarrow>
        is_i64 i \<and> encode_wire write_i64 i limit = Inr bs)
   \<and> (decode_wire read_f64 bs limit = Inr f \<longleftrightarrow>
        f64_canonical f \<and> encode_wire write_f64 f limit = Inr bs)
   \<and> encode_wire write_f64 (F64 0x8000000000000000) limit = encode_wire write_f64 (F64 0) limit
   \<and> (decode_wire read_bytes bs limit = Inr v \<longleftrightarrow>
        fits_u32 v \<and> encode_wire write_bytes v limit = Inr bs)
   \<and> (decode_wire read_text bs limit = Inr t \<longleftrightarrow>
        text_ok t \<and> encode_wire write_text t limit = Inr bs)
   \<and> (decode_wire unit_decode bs limit = Inr u \<longleftrightarrow> encode_wire unit_encode u limit = Inr bs)"
proof -
  have "write_f64 (F64 0x8000000000000000) e = write_f64 (F64 0) e" for e
    by (simp add: write_f64_def f64_is_finite_def f64_is_zero_def)
  then have "encode_wire write_f64 (F64 0x8000000000000000) limit = encode_wire write_f64 (F64 0) limit"
    by (simp add: encode_wire_def)
  then show ?thesis
    by (simp only: bool_value.canonical_iff u8_value.canonical_iff u32_value.canonical_iff
        u64_value.canonical_iff i64_value.canonical_iff f64_value.canonical_iff
        bytes_value.canonical_iff text_value.canonical_iff unit_value.canonical_iff simp_thms)
qed



text \<open>
  A decoder accepts an empty buffer: the unit value is the empty encoding, and decoding
  it from no bytes succeeds under any admissible limit.
\<close>

lemma decoder_accepts_empty:
  "decode_wire unit_decode [] limit = (if limit \<noteq> 0 \<and> unat limit \<le> MAX_WIRE_BYTES
     then Inr () else Inl Limit)"
  by (auto simp: decode_wire_def decoder_new_def unit_decode_def decoder_finish_def)

end
