(* ===== verification/Cell_Identity.thy ===== *)
theory Cell_Identity
  imports Rust_Order
begin

text \<open>
  Identities, \<^verbatim>\<open>crates/cellule-runtime/src/identity.rs\<close>: the fixed-width identity types, the
  resolved Cell target and the Cell identity derived from it, the mapping of a scope to a
  shard, and the lowercase hexadecimal codec of persisted records. BLAKE3 is a third-party
  crate: it is the parameter \<open>blake3\<close> of the definitions that hash, a function from the
  concatenated updates to the digest bytes.
\<close>

subsection \<open>Fixed-width identities\<close>

datatype tenant_id = TenantId (tenant_bytes: bytes)
datatype application_id = ApplicationId (application_bytes: bytes)
datatype namespace_id = NamespaceId (namespace_bytes: bytes)
datatype node_id = NodeId (node_bytes: bytes)
datatype session_id = SessionId (session_bytes: bytes)
datatype incarnation_id = IncarnationId (incarnation_bytes: bytes)
datatype request_id = RequestId (request_bytes: bytes)
datatype digest = Digest (digest_bytes: bytes)
datatype cell_id = CellId (cell_bytes: bytes)

text \<open>\<^verbatim>\<open>TryFrom<&[u8]>\<close> of an identity of \<open>n\<close> bytes called \<open>name\<close>.\<close>

definition fixed_id_try_from :: "nat \<Rightarrow> string \<Rightarrow> bytes \<Rightarrow> bytes result" where
  "fixed_id_try_from n name value =
     (if length value = n then Inr value else Inl (Identity (name @ '' length'')))"

subsection \<open>Cell targets\<close>

record cell_target =
  ct_tenant :: tenant_id
  ct_application :: application_id
  ct_namespace :: namespace_id
  ct_partition :: bytes

definition cell_target_new ::
  "tenant_id \<Rightarrow> application_id \<Rightarrow> namespace_id \<Rightarrow> bytes \<Rightarrow> cell_target result" where
  "cell_target_new tenant application namespace key =
     (if length key > 1024 then Inl (Identity ''partition exceeds 1024 bytes'')
      else Inr \<lparr>ct_tenant = tenant, ct_application = application, ct_namespace = namespace,
                ct_partition = key\<rparr>)"

definition ascii :: "string \<Rightarrow> bytes" where
  "ascii s = map of_char s"

definition cell_preimage :: "cell_target \<Rightarrow> bytes" where
  "cell_preimage t = ascii ''crab.cell.v1'' @ [0] @ tenant_bytes (ct_tenant t)
     @ application_bytes (ct_application t) @ namespace_bytes (ct_namespace t)
     @ u32_to_be_bytes (of_nat (length (ct_partition t))) @ ct_partition t"

definition cell_id_of :: "(bytes \<Rightarrow> bytes) \<Rightarrow> cell_target \<Rightarrow> cell_id" where
  "cell_id_of blake3 t = CellId (blake3 (cell_preimage t))"

definition target_wf :: "cell_target \<Rightarrow> bool" where
  "target_wf t \<longleftrightarrow> length (tenant_bytes (ct_tenant t)) = 16
     \<and> length (application_bytes (ct_application t)) = 16
     \<and> length (namespace_bytes (ct_namespace t)) = 16 \<and> length (ct_partition t) \<le> 1024"

subsection \<open>Shards\<close>

definition is_power_of_two :: "u32 \<Rightarrow> bool" where
  "is_power_of_two n = list_ex (\<lambda>k. n = 2 ^ k) [0..<32]"

definition shard_preimage :: "namespace_id \<Rightarrow> bytes \<Rightarrow> bytes" where
  "shard_preimage namespace scope = ascii ''crab.shard.v1'' @ [0] @ namespace_bytes namespace
     @ u32_to_be_bytes (of_nat (length scope)) @ scope"

definition shard_for_scope ::
  "(bytes \<Rightarrow> bytes) \<Rightarrow> namespace_id \<Rightarrow> bytes \<Rightarrow> u32 \<Rightarrow> u32 result" where
  "shard_for_scope blake3 namespace scope shard_count =
     (if length scope > 1024 then Inl (Identity ''scope exceeds 1024 bytes'')
      else if \<not> (1 \<le> shard_count \<and> shard_count \<le> 4096) \<or> \<not> is_power_of_two shard_count
      then Inl (Identity ''shard count must be a power of two in 1..=4096'')
      else Inr (ucast (u64_from_be_bytes (take 8 (blake3 (shard_preimage namespace scope)))
                       mod ucast shard_count)))"

definition partition_for_shard :: "u32 \<Rightarrow> bytes" where
  "partition_for_shard shard = u32_to_be_bytes shard"

subsection \<open>Hexadecimal\<close>

definition hex_table :: bytes where
  "hex_table = ascii ''0123456789abcdef''"

definition encode_hex :: "bytes \<Rightarrow> rstring" where
  "encode_hex bs =
     concat (map (\<lambda>b. [hex_table ! unat (drop_bit 4 b), hex_table ! unat (and b 0x0f)]) bs)"

definition nibble :: "u8 \<Rightarrow> u8 option" where
  "nibble b =
     (if 48 \<le> b \<and> b \<le> 57 then Some (b - 48)
      else if 97 \<le> b \<and> b \<le> 102 then Some (b - 97 + 10)
      else None)"

fun decode_pairs :: "rstring \<Rightarrow> bytes result" where
  "decode_pairs (h # l # rest) =
     bind_r (ok_or (Control ''hex field must be lowercase'') (nibble h)) (\<lambda>high.
     bind_r (ok_or (Control ''hex field must be lowercase'') (nibble l)) (\<lambda>low.
     bind_r (decode_pairs rest) (\<lambda>ds. Inr (or (push_bit 4 high) low # ds))))"
| "decode_pairs _ = Inr []"

definition decode_hex :: "nat \<Rightarrow> rstring \<Rightarrow> bytes result" where
  "decode_hex n value =
     (if length value \<noteq> n * 2 then Inl (Control ''hex field length'') else decode_pairs value)"

definition sample_target :: "bytes \<Rightarrow> cell_target" where
  "sample_target key = \<lparr>ct_tenant = TenantId (replicate 16 1),
     ct_application = ApplicationId (replicate 16 2),
     ct_namespace = NamespaceId (replicate 16 3), ct_partition = key\<rparr>"

subsection \<open>Lemmas\<close>

lemma unat_u8_nibble: "unat (drop_bit 4 (b :: u8)) < 16" "unat (and b (0x0f :: u8)) < 16"
proof -
  have "unat (drop_bit 4 b) = unat b div 16" by (simp add: drop_bit_eq_div unat_div)
  then show "unat (drop_bit 4 b) < 16" by (simp add: less_mult_imp_div_less)
  have "and b 0x0f = take_bit 4 b" by (simp add: take_bit_eq_mask mask_eq_exp_minus_1)
  then show "unat (and b (0x0f :: u8)) < 16"
    by (simp add: take_bit_eq_mod unat_mod)
qed

lemma nibble_table: "n < 16 \<Longrightarrow> nibble (hex_table ! n) = Some (of_nat n)"
proof -
  assume "n < 16"
  moreover have "\<forall>k \<in> set [0..<16]. nibble (hex_table ! k) = Some (of_nat k)"
    by code_simp
  ultimately show ?thesis by simp
qed

lemma u8_cases: "unat (b :: u8) = n \<Longrightarrow> b = of_nat n"
  by auto

lemma nibble_Some:
  assumes "nibble c = Some n"
  shows "unat n < 16 \<and> hex_table ! unat n = c"
proof -
  have dec: "\<forall>k \<in> set [48..<58]. hex_table ! unat (of_nat k - 48 :: u8) = of_nat k
      \<and> unat (of_nat k - 48 :: u8) < 16"
    by code_simp
  have alpha: "\<forall>k \<in> set [97..<103]. hex_table ! unat (of_nat k - 97 + 10 :: u8) = of_nat k
      \<and> unat (of_nat k - 97 + 10 :: u8) < 16"
    by code_simp
  consider "unat c \<in> set [48..<58]" "n = c - 48" | "unat c \<in> set [97..<103]" "n = c - 97 + 10"
    using assms by (simp add: nibble_def word_le_nat_alt del: upt_rec_numeral split: if_splits)
  then show ?thesis
  proof cases
    case 1
    then show ?thesis using dec [rule_format, of "unat c"] by simp
  next
    case 2
    then show ?thesis using alpha [rule_format, of "unat c"] by simp
  qed
qed

lemma nibble_join: "or (push_bit 4 (drop_bit 4 b)) (and b 0x0f) = (b :: u8)"
proof (rule bit_word_eqI)
  fix n assume "n < LENGTH(8)"
  then have "n \<in> {0, 1, 2, 3, 4, 5, 6, 7}" by auto
  then show "bit (or (push_bit 4 (drop_bit 4 b)) (and b 0x0f)) n = bit b n"
    by (auto simp: bit_simps)
qed

lemma join_nibbles:
  assumes "unat (h :: u8) < 16" and "unat (l :: u8) < 16"
  shows "drop_bit 4 (or (push_bit 4 h) l) = h \<and> and (or (push_bit 4 h) l) 0x0f = l"
proof -
  have "\<forall>x \<in> set [0..<16]. \<forall>y \<in> set [0..<16].
      drop_bit 4 (or (push_bit 4 (of_nat x)) (of_nat y)) = (of_nat x :: u8)
      \<and> and (or (push_bit 4 (of_nat x)) (of_nat y)) 0x0f = (of_nat y :: u8)"
    by code_simp
  then show ?thesis
    using assms bspec [of _ _ "unat h"] bspec [of _ _ "unat l"] by force
qed

lemma decode_pairs_encode: "decode_pairs (encode_hex bs) = Inr bs"
  by (induction bs)
    (simp_all add: encode_hex_def nibble_table unat_u8_nibble nibble_join)

lemma length_encode_hex [simp]: "length (encode_hex bs) = length bs * 2"
  by (induction bs) (simp_all add: encode_hex_def)

lemma decode_hex_encode: "decode_hex (length bs) (encode_hex bs) = Inr bs"
  by (simp add: decode_hex_def decode_pairs_encode)

lemma decode_pairs_Inr:
  assumes "decode_pairs s = Inr bs" and "even (length s)"
  shows "encode_hex bs = s"
  using assms
proof (induction s arbitrary: bs rule: decode_pairs.induct)
  case (1 h l rest)
  then obtain high low ds where n: "nibble h = Some high" "nibble l = Some low"
    and ds: "decode_pairs rest = Inr ds" and bs: "bs = or (push_bit 4 high) low # ds"
    by (auto simp: rust_simps)
  have "encode_hex ds = rest"
    using "1.IH" n ds "1.prems" by simp
  then show ?case
    using bs n [THEN nibble_Some] join_nibbles [of high low] by (simp add: encode_hex_def)
qed (auto simp: encode_hex_def)

lemma decode_hex_Inr: "decode_hex n s = Inr bs \<longleftrightarrow> s = encode_hex bs \<and> length bs = n"
proof
  assume h: "decode_hex n s = Inr bs"
  then have "length s = n * 2" and "decode_pairs s = Inr bs"
    by (auto simp: decode_hex_def split: if_splits)
  then have "encode_hex bs = s" by (simp add: decode_pairs_Inr)
  then show "s = encode_hex bs \<and> length bs = n"
    using \<open>length s = n * 2\<close> length_encode_hex [of bs] by simp
qed (auto simp: decode_hex_encode)

lemma encode_hex_inj: "encode_hex a = encode_hex b \<Longrightarrow> a = b"
  by (metis decode_pairs_encode sum.inject(2))

lemma cell_preimage_inj:
  assumes "cell_preimage a = cell_preimage b" and "target_wf a" and "target_wf b"
  shows "a = b"
proof -
  have "tenant_bytes (ct_tenant a) = tenant_bytes (ct_tenant b)
      \<and> application_bytes (ct_application a) = application_bytes (ct_application b)
      \<and> namespace_bytes (ct_namespace a) = namespace_bytes (ct_namespace b)
      \<and> ct_partition a = ct_partition b"
    using assms by (simp add: cell_preimage_def target_wf_def)
  then show ?thesis
    by (simp add: tenant_id.expand application_id.expand namespace_id.expand cell_target.equality)
qed

subsection \<open>Properties\<close>

text \<open>C7: a Cell identity binds the whole target: the hashed bytes of two well-formed targets
  differ unless the targets are equal. Hence two well-formed targets have the same Cell identity
  exactly when they are equal, provided the hash does not collide on these two inputs.\<close>

theorem cell_id_binds_target:
  assumes "target_wf a" and "target_wf b" and "inj_on blake3 {cell_preimage a, cell_preimage b}"
  shows "cell_id_of blake3 a = cell_id_of blake3 b \<longleftrightarrow> a = b"
  using assms cell_preimage_inj by (auto simp: cell_id_of_def inj_on_def)

theorem cell_id_binds_target_witness:
  "cell_id_of (\<lambda>bs. drop (length bs - 32) bs) (sample_target [7])
     \<noteq> cell_id_of (\<lambda>bs. drop (length bs - 32) bs) (sample_target [8])"
proof -
  have "inj_on (\<lambda>bs. drop (length bs - 32) bs)
      {cell_preimage (sample_target [7]), cell_preimage (sample_target [8])}"
    by (simp add: cell_preimage_def sample_target_def ascii_def)
  then show ?thesis
    using cell_id_binds_target [of "sample_target [7]" "sample_target [8]"]
    by (simp add: target_wf_def sample_target_def)
qed

text \<open>The shard of a scope is always one of the declared shards, and the mapping is defined
  exactly for scopes of at most 1024 bytes and power-of-two shard counts up to 4096.\<close>

lemma shard_in_range:
  "(case shard_for_scope blake3 ns scope shards of
      Inr k \<Rightarrow> unat k < unat shards \<and> length scope \<le> 1024 \<and> is_power_of_two shards
               \<and> unat shards \<le> 4096
    | Inl e \<Rightarrow> length scope > 1024 \<or> is_power_of_two shards = False
               \<or> unat shards = 0 \<or> unat shards > 4096)"
proof -
  have "unat (ucast (x mod ucast shards :: u64) :: u32) < unat shards"
    if "1 \<le> shards" "shards \<le> 4096" for x :: u64
  proof -
    have pos: "0 < unat shards" and le: "unat shards \<le> 4096"
      using that by (simp_all add: word_le_nat_alt)
    have s: "unat (ucast shards :: u64) = unat shards"
      using le by (simp add: unsigned_ucast_eq take_bit_nat_eq_self)
    have "unat (x mod ucast shards) < unat shards"
      using pos s by (simp add: unat_mod)
    then show ?thesis using le by (simp add: unsigned_ucast_eq take_bit_nat_eq_self)
  qed
  then show ?thesis
    by (auto simp: shard_for_scope_def word_le_nat_alt)
qed

end
