(* ===== verification/Control_Record.thy ===== *)
theory Control_Record
  imports Cell_Identity
begin

text \<open>
  The durable control record of a Cell, \<^verbatim>\<open>crates/cellule-runtime/src/control/mod.rs\<close>: the
  record that names the owner, the published root and the pinned recovery overlay, the
  predicate every named transition must satisfy before the conditional store update, the
  builders of successors, and the record's validation. A history of the record is a sequence
  of accepted transitions (\<open>control_step\<close>); the properties are about all such histories.
  A prepared root of the LTX replica is the record \<open>prepared_root\<close> of what the control code
  reads from it (\<^verbatim>\<open>crates/cellule-ltx/src/replica/mod.rs\<close>).
\<close>

subsection \<open>Data\<close>

definition CHECKSUM_FLAG :: u64 where
  "CHECKSUM_FLAG = 2 ^ 63"

definition i64_max_u64 :: u64 where
  "i64_max_u64 = 0x7FFFFFFFFFFFFFFF"

record root_ref =
  rr_digest :: digest
  rr_txid :: u64
  rr_checksum :: u64
  rr_commit_sequence :: u64

record ltx_position =
  lp_txid :: u64
  lp_checksum :: u64

record ltx_root =
  lr_cell :: bytes
  lr_incarnation :: bytes
  lr_digest :: bytes
  lr_position :: ltx_position
  lr_commit_sequence :: u64

record prepared_root =
  pr_predecessor :: "ltx_root option"
  pr_root :: ltx_root
  pr_schema :: u32

definition from_ltx :: "cell_id \<Rightarrow> incarnation_id \<Rightarrow> ltx_root \<Rightarrow> root_ref result" where
  "from_ltx cell incarnation root =
     (if lr_cell root \<noteq> cell_bytes cell \<or> lr_incarnation root \<noteq> incarnation_bytes incarnation
      then Inl (Control ''prepared root changed Cell scope'')
      else Inr \<lparr>rr_digest = Digest (lr_digest root), rr_txid = lp_txid (lr_position root),
                rr_checksum = lp_checksum (lr_position root),
                rr_commit_sequence = lr_commit_sequence root\<rparr>)"

definition to_ltx :: "root_ref \<Rightarrow> cell_id \<Rightarrow> incarnation_id \<Rightarrow> ltx_root" where
  "to_ltx r cell incarnation =
     \<lparr>lr_cell = cell_bytes cell, lr_incarnation = incarnation_bytes incarnation,
      lr_digest = digest_bytes (rr_digest r),
      lr_position = \<lparr>lp_txid = rr_txid r, lp_checksum = rr_checksum r\<rparr>,
      lr_commit_sequence = rr_commit_sequence r\<rparr>"

record owner_fence =
  of_incarnation :: incarnation_id
  of_epoch :: u64

record owner =
  ow_session :: session_id
  ow_endpoint :: rstring

record bundle_binding_ref =
  bb_session :: session_id
  bb_epoch :: u64
  bb_digest :: digest

record recovery_overlay_ref =
  ro_leader_session :: session_id
  ro_log_epoch :: u64
  ro_manifest_digest :: digest
  ro_first_node_sequence :: u64
  ro_last_node_sequence :: u64
  ro_predecessor :: root_ref
  ro_final_txid :: u64
  ro_final_checksum :: u64
  ro_final_commit_sequence :: u64

definition overlay_validate :: "recovery_overlay_ref \<Rightarrow> unit result" where
  "overlay_validate r =
     (if all_zero (session_bytes (ro_leader_session r))
        \<or> all_zero (digest_bytes (ro_manifest_digest r))
        \<or> ro_log_epoch r = 0
        \<or> ro_first_node_sequence r = 0
        \<or> ro_first_node_sequence r > ro_last_node_sequence r
        \<or> ro_final_txid r \<le> rr_txid (ro_predecessor r)
        \<or> and (ro_final_checksum r) CHECKSUM_FLAG = 0
        \<or> ro_final_commit_sequence r \<le> rr_commit_sequence (ro_predecessor r)
        \<or> ro_final_commit_sequence r > i64_max_u64
      then Inl (Control ''invalid recovery overlay'') else Inr ())"

datatype control_state = Recovering | Serving | Idle | Tombstoned

record control =
  c_cell :: cell_id
  c_incarnation :: incarnation_id
  c_epoch :: u64
  c_revision :: u64
  c_progress :: u64
  c_state :: control_state
  c_owner :: "owner option"
  c_root :: "root_ref option"
  c_recovery :: "recovery_overlay_ref option"
  c_bundle_binding :: "bundle_binding_ref option"
  c_code :: digest
  c_schema :: u32
  c_next_due_ms :: "i64 option"

datatype transition =
    BindBundle | Renew | Activate | Publish | Migrate | Release
  | AttachRecovery | PublishRecovery | Takeover | Tombstone

definition owner_fence_of :: "control \<Rightarrow> owner_fence" where
  "owner_fence_of c = \<lparr>of_incarnation = c_incarnation c, of_epoch = c_epoch c\<rparr>"

definition ltx_root_of :: "control \<Rightarrow> ltx_root option" where
  "ltx_root_of c = map_option (\<lambda>r. to_ltx r (c_cell c) (c_incarnation c)) (c_root c)"

subsection \<open>Validation of one record\<close>

definition binding_invalid :: "control \<Rightarrow> bundle_binding_ref \<Rightarrow> bool" where
  "binding_invalid c b \<longleftrightarrow> bb_epoch b = 0
     \<or> all_zero (session_bytes (bb_session b))
     \<or> all_zero (digest_bytes (bb_digest b))
     \<or> c_state c \<noteq> Serving
     \<or> (case c_recovery c of None \<Rightarrow> False
        | Some r \<Rightarrow> ro_leader_session r \<noteq> bb_session b \<or> ro_log_epoch r \<noteq> bb_epoch b)
     \<or> (case c_owner c of None \<Rightarrow> True | Some w \<Rightarrow> ow_session w \<noteq> bb_session b)"

definition endpoint_invalid :: "owner \<Rightarrow> bool" where
  "endpoint_invalid w \<longleftrightarrow> ow_endpoint w = [] \<or> length (ow_endpoint w) > 512
     \<or> any_control (ow_endpoint w)"

definition root_invalid :: "root_ref \<Rightarrow> bool" where
  "root_invalid r \<longleftrightarrow> rr_txid r = 0 \<or> and (rr_checksum r) CHECKSUM_FLAG = 0
     \<or> rr_commit_sequence r > i64_max_u64"

definition state_matches :: "control \<Rightarrow> bool" where
  "state_matches c = (case c_state c of
       Recovering \<Rightarrow> c_owner c \<noteq> None
     | Serving \<Rightarrow> c_owner c \<noteq> None \<and> c_root c \<noteq> None
     | Idle \<Rightarrow> c_owner c = None
     | Tombstoned \<Rightarrow> c_owner c = None)"

definition validate :: "control \<Rightarrow> unit result" where
  "validate c =
     bind_r (reject_if (c_epoch c = 0 \<or> c_revision c = 0 \<or> c_schema c = 0)
       (Control ''zero epoch, revision, or schema'')) (\<lambda>_.
     bind_r (reject_if (case c_next_due_ms c of None \<Rightarrow> False | Some v \<Rightarrow> v < 0)
       (Control ''negative next due time'')) (\<lambda>_.
     bind_r (reject_if (case c_bundle_binding c of None \<Rightarrow> False | Some b \<Rightarrow> binding_invalid c b)
       (Control ''invalid bundle binding'')) (\<lambda>_.
     bind_r (reject_if (case c_owner c of None \<Rightarrow> False | Some w \<Rightarrow> endpoint_invalid w)
       (Control ''invalid owner endpoint'')) (\<lambda>_.
     bind_r (reject_if (case c_root c of None \<Rightarrow> False | Some r \<Rightarrow> root_invalid r)
       (Control ''invalid recovery root'')) (\<lambda>_.
     bind_r (case c_recovery c of None \<Rightarrow> Inr ()
       | Some r \<Rightarrow> bind_r (overlay_validate r) (\<lambda>_.
           reject_if (c_root c \<noteq> Some (ro_predecessor r))
             (Control ''recovery overlay does not match control''))) (\<lambda>_.
     reject_if (\<not> state_matches c) (Control ''owner/root do not match state'')))))))"

subsection \<open>Validation of a transition\<close>

fun valid_root_successor :: "root_ref option \<Rightarrow> root_ref option \<Rightarrow> bool" where
  "valid_root_successor previous None = False"
| "valid_root_successor None (Some n) = True"
| "valid_root_successor (Some p) (Some n) =
     (if rr_txid n < rr_txid p \<or> rr_commit_sequence n < rr_commit_sequence p then False
      else rr_txid n \<noteq> rr_txid p
        \<or> (rr_checksum n = rr_checksum p \<and> rr_commit_sequence n = rr_commit_sequence p))"

definition valid_migration_version :: "digest \<Rightarrow> u32 \<Rightarrow> digest \<Rightarrow> u32 \<Rightarrow> bool" where
  "valid_migration_version current_code current_schema next_code next_schema \<longleftrightarrow>
     checked_add current_schema 1 = Some next_schema
     \<or> (current_schema = next_schema \<and> current_code \<noteq> next_code)"

definition bind_bundle_check :: "control \<Rightarrow> control \<Rightarrow> unit result" where
  "bind_bundle_check c n = reject_if
     (c_state c \<noteq> Serving \<or> c_bundle_binding c \<noteq> None \<or> c_bundle_binding n = None
      \<or> c\<lparr>c_revision := c_revision n, c_progress := c_progress n,
           c_bundle_binding := c_bundle_binding n\<rparr> \<noteq> n)
     (Control ''invalid bundle binding transition'')"

definition renew_check :: "control \<Rightarrow> control \<Rightarrow> unit result" where
  "renew_check c n = reject_if
     (c_epoch c \<noteq> c_epoch n \<or> c_state c \<noteq> c_state n \<or> c_owner c \<noteq> c_owner n
      \<or> c_root c \<noteq> c_root n \<or> c_recovery c \<noteq> c_recovery n \<or> c_code c \<noteq> c_code n
      \<or> c_schema c \<noteq> c_schema n \<or> c_next_due_ms c \<noteq> c_next_due_ms n)
     (Control ''renew changed protected fields'')"

definition activate_check :: "control \<Rightarrow> control \<Rightarrow> unit result" where
  "activate_check c n = reject_if
     (c_state c \<noteq> Recovering \<or> c_state n \<noteq> Serving \<or> c_epoch c \<noteq> c_epoch n
      \<or> c_owner c \<noteq> c_owner n \<or> c_root c = None \<or> c_root c \<noteq> c_root n
      \<or> c_recovery c \<noteq> None \<or> c_recovery n \<noteq> None \<or> c_code c \<noteq> c_code n
      \<or> c_schema c \<noteq> c_schema n \<or> c_next_due_ms c \<noteq> c_next_due_ms n)
     (Control ''invalid activation transition'')"

definition publish_check :: "control \<Rightarrow> control \<Rightarrow> unit result" where
  "publish_check c n = reject_if
     (c_state c \<notin> {Recovering, Serving} \<or> c_state n \<noteq> Serving \<or> c_epoch c \<noteq> c_epoch n
      \<or> c_owner c \<noteq> c_owner n \<or> c_root n = None \<or> c_recovery c \<noteq> None \<or> c_recovery n \<noteq> None
      \<or> c_code c \<noteq> c_code n \<or> c_schema c \<noteq> c_schema n
      \<or> \<not> valid_root_successor (c_root c) (c_root n))
     (Control ''invalid publish transition'')"

definition migrate_check :: "control \<Rightarrow> control \<Rightarrow> unit result" where
  "migrate_check c n = reject_if
     (c_bundle_binding c \<noteq> None \<or> c_state c \<notin> {Recovering, Serving} \<or> c_state n \<noteq> Serving
      \<or> c_epoch c \<noteq> c_epoch n \<or> c_owner c \<noteq> c_owner n \<or> c_root n = None
      \<or> c_recovery c \<noteq> None \<or> c_recovery n \<noteq> None \<or> all_zero (digest_bytes (c_code n))
      \<or> \<not> valid_migration_version (c_code c) (c_schema c) (c_code n) (c_schema n)
      \<or> \<not> valid_root_successor (c_root c) (c_root n))
     (Control ''invalid migration transition'')"

definition release_check :: "control \<Rightarrow> control \<Rightarrow> unit result" where
  "release_check c n = reject_if
     (c_state c \<notin> {Recovering, Serving} \<or> c_bundle_binding n \<noteq> None \<or> c_state n \<noteq> Idle
      \<or> c_owner n \<noteq> None \<or> c_root n = None \<or> c_recovery c \<noteq> None \<or> c_recovery n \<noteq> None
      \<or> c_epoch c \<noteq> c_epoch n \<or> c_root c \<noteq> c_root n \<or> c_recovery c \<noteq> c_recovery n
      \<or> c_code c \<noteq> c_code n \<or> c_schema c \<noteq> c_schema n \<or> c_next_due_ms c \<noteq> c_next_due_ms n)
     (Control ''invalid release transition'')"

definition attach_recovery_check :: "control \<Rightarrow> control \<Rightarrow> unit result" where
  "attach_recovery_check c n = (case c_recovery n of
       None \<Rightarrow> Inl (Control ''invalid recovery attachment'')
     | Some r \<Rightarrow> reject_if
         (c_state c = Tombstoned \<or> c_recovery c \<noteq> None \<or> c_epoch c \<noteq> c_epoch n
          \<or> c_state c \<noteq> c_state n
          \<or> map_option ow_session (c_owner c) \<noteq> Some (ro_leader_session r)
          \<or> c_owner c \<noteq> c_owner n \<or> c_root c \<noteq> Some (ro_predecessor r) \<or> c_root c \<noteq> c_root n
          \<or> c_code c \<noteq> c_code n \<or> c_schema c \<noteq> c_schema n \<or> c_next_due_ms c \<noteq> c_next_due_ms n)
         (Control ''invalid recovery attachment''))"

definition publish_recovery_check :: "control \<Rightarrow> control \<Rightarrow> unit result" where
  "publish_recovery_check c n = (case c_recovery c of
       None \<Rightarrow> Inl (Control ''invalid recovery publication'')
     | Some r \<Rightarrow>
         let original_bound_writer = (c_state c = Serving \<and> c_bundle_binding c \<noteq> None) in
         reject_if
           ((c_state c \<noteq> Recovering \<and> \<not> original_bound_writer) \<or> c_state n \<noteq> c_state c
            \<or> c_recovery n \<noteq> None \<or> c_epoch c \<noteq> c_epoch n \<or> c_owner c \<noteq> c_owner n
            \<or> c_root c \<noteq> Some (ro_predecessor r)
            \<or> (case c_root n of None \<Rightarrow> True
               | Some root \<Rightarrow> rr_txid root \<noteq> ro_final_txid r
                   \<or> rr_checksum root \<noteq> ro_final_checksum r
                   \<or> rr_commit_sequence root \<noteq> ro_final_commit_sequence r)
            \<or> c_code c \<noteq> c_code n \<or> c_schema c \<noteq> c_schema n)
           (Control ''invalid recovery publication''))"

definition takeover_check :: "control \<Rightarrow> control \<Rightarrow> unit result" where
  "takeover_check c n = reject_if
     (c_state c = Tombstoned \<or> c_bundle_binding n \<noteq> None \<or> c_state n \<noteq> Recovering
      \<or> c_owner n = None \<or> c_owner c = c_owner n
      \<or> checked_add (c_epoch c) 1 \<noteq> Some (c_epoch n) \<or> c_root c \<noteq> c_root n
      \<or> c_recovery c \<noteq> c_recovery n \<or> c_code c \<noteq> c_code n \<or> c_schema c \<noteq> c_schema n
      \<or> c_next_due_ms c \<noteq> c_next_due_ms n)
     (Control ''invalid takeover transition'')"

definition tombstone_check :: "control \<Rightarrow> control \<Rightarrow> unit result" where
  "tombstone_check c n = reject_if
     (c_state c = Tombstoned \<or> c_bundle_binding n \<noteq> None \<or> c_state n \<noteq> Tombstoned
      \<or> c_owner n \<noteq> None \<or> checked_add (c_epoch c) 1 \<noteq> Some (c_epoch n)
      \<or> c_root c \<noteq> c_root n \<or> c_recovery c \<noteq> None \<or> c_recovery n \<noteq> None
      \<or> c_code c \<noteq> c_code n \<or> c_schema c \<noteq> c_schema n \<or> c_next_due_ms c \<noteq> c_next_due_ms n)
     (Control ''invalid tombstone transition'')"

fun transition_check :: "transition \<Rightarrow> control \<Rightarrow> control \<Rightarrow> unit result" where
  "transition_check BindBundle c n = bind_bundle_check c n"
| "transition_check Renew c n = renew_check c n"
| "transition_check Activate c n = activate_check c n"
| "transition_check Publish c n = publish_check c n"
| "transition_check Migrate c n = migrate_check c n"
| "transition_check Release c n = release_check c n"
| "transition_check AttachRecovery c n = attach_recovery_check c n"
| "transition_check PublishRecovery c n = publish_recovery_check c n"
| "transition_check Takeover c n = takeover_check c n"
| "transition_check Tombstone c n = tombstone_check c n"

definition validate_transition :: "control \<Rightarrow> control \<Rightarrow> transition \<Rightarrow> unit result" where
  "validate_transition c n t =
     bind_r (validate c) (\<lambda>_.
     bind_r (validate n) (\<lambda>_.
     bind_r (reject_if (c_cell c \<noteq> c_cell n \<or> c_incarnation c \<noteq> c_incarnation n)
       (Control ''successor changed Cell scope'')) (\<lambda>_.
     bind_r (reject_if (checked_add (c_revision c) 1 \<noteq> Some (c_revision n)
         \<or> checked_add (c_progress c) 1 \<noteq> Some (c_progress n))
       (Control ''successor revision or progress'')) (\<lambda>_.
     bind_r (reject_if (t \<notin> {BindBundle, Release, Takeover, Tombstone}
         \<and> c_bundle_binding c \<noteq> c_bundle_binding n)
       (Control ''successor changed bundle binding'')) (\<lambda>_.
     transition_check t c n)))))"

subsection \<open>Builders of successors\<close>

definition control_initial ::
  "cell_id \<Rightarrow> incarnation_id \<Rightarrow> owner \<Rightarrow> digest \<Rightarrow> u32 \<Rightarrow> control result" where
  "control_initial cell incarnation w code schema =
     (let c = \<lparr>c_cell = cell, c_incarnation = incarnation, c_epoch = 1, c_revision = 1,
               c_progress = 1, c_state = Recovering, c_owner = Some w, c_root = None,
               c_recovery = None, c_bundle_binding = None, c_code = code, c_schema = schema,
               c_next_due_ms = None\<rparr>
      in bind_r (validate c) (\<lambda>_. Inr c))"

text \<open>The increments of revision and progress that every builder starts with.\<close>

definition bump :: "control \<Rightarrow> control result" where
  "bump c =
     bind_r (ok_or (Control ''revision overflow'') (checked_add (c_revision c) 1)) (\<lambda>r.
     bind_r (ok_or (Control ''progress overflow'') (checked_add (c_progress c) 1)) (\<lambda>p.
     Inr (c\<lparr>c_revision := r, c_progress := p\<rparr>)))"

definition checked_successor :: "control \<Rightarrow> transition \<Rightarrow> control \<Rightarrow> control result" where
  "checked_successor c t n = bind_r (validate_transition c n t) (\<lambda>_. Inr n)"

definition renew :: "control \<Rightarrow> control result" where
  "renew c = bind_r (bump c) (checked_successor c Renew)"

definition activate :: "control \<Rightarrow> control result" where
  "activate c = bind_r (bump c) (\<lambda>n. checked_successor c Activate (n\<lparr>c_state := Serving\<rparr>))"

definition takeover :: "control \<Rightarrow> owner \<Rightarrow> control result" where
  "takeover c w =
     bind_r (ok_or (Control ''epoch overflow'') (checked_add (c_epoch c) 1)) (\<lambda>e.
     bind_r (bump (c\<lparr>c_bundle_binding := None, c_epoch := e\<rparr>)) (\<lambda>n.
     checked_successor c Takeover (n\<lparr>c_state := Recovering, c_owner := Some w\<rparr>)))"

definition attach_recovery :: "control \<Rightarrow> recovery_overlay_ref \<Rightarrow> control result" where
  "attach_recovery c r =
     bind_r (bump c) (\<lambda>n. checked_successor c AttachRecovery (n\<lparr>c_recovery := Some r\<rparr>))"

definition publish_recovery :: "control \<Rightarrow> prepared_root \<Rightarrow> i64 option \<Rightarrow> control result" where
  "publish_recovery c prepared next_due =
     bind_r (ok_or (Control ''recovery overlay is not pinned'') (c_recovery c)) (\<lambda>r.
     let expected = to_ltx (ro_predecessor r) (c_cell c) (c_incarnation c); root = pr_root prepared in
     bind_r (reject_if (pr_predecessor prepared \<noteq> Some expected
         \<or> pr_schema prepared \<noteq> c_schema c
         \<or> lp_txid (lr_position root) \<noteq> ro_final_txid r
         \<or> lp_checksum (lr_position root) \<noteq> ro_final_checksum r
         \<or> lr_commit_sequence root \<noteq> ro_final_commit_sequence r)
       (Control ''prepared recovery does not match pinned overlay'')) (\<lambda>_.
     bind_r (bump c) (\<lambda>n.
     bind_r (from_ltx (c_cell c) (c_incarnation c) root) (\<lambda>rr.
     checked_successor c PublishRecovery
       (n\<lparr>c_root := Some rr, c_recovery := None, c_next_due_ms := next_due\<rparr>)))))"

definition publish_prepared :: "control \<Rightarrow> prepared_root \<Rightarrow> i64 option \<Rightarrow> control result" where
  "publish_prepared c prepared next_due =
     bind_r (reject_if (pr_predecessor prepared \<noteq> ltx_root_of c \<or> pr_schema prepared \<noteq> c_schema c)
       (Control ''prepared root does not continue control'')) (\<lambda>_.
     bind_r (bump c) (\<lambda>n.
     bind_r (from_ltx (c_cell c) (c_incarnation c) (pr_root prepared)) (\<lambda>rr.
     checked_successor c Publish
       (n\<lparr>c_state := Serving, c_root := Some rr, c_next_due_ms := next_due\<rparr>))))"

definition migrate_prepared ::
  "control \<Rightarrow> prepared_root \<Rightarrow> i64 option \<Rightarrow> digest \<Rightarrow> u32 \<Rightarrow> control result" where
  "migrate_prepared c prepared next_due code schema =
     bind_r (reject_if (pr_predecessor prepared \<noteq> ltx_root_of c \<or> pr_schema prepared \<noteq> schema
         \<or> all_zero (digest_bytes code)
         \<or> \<not> valid_migration_version (c_code c) (c_schema c) code schema)
       (Control ''prepared migration does not continue control'')) (\<lambda>_.
     bind_r (bump c) (\<lambda>n.
     bind_r (from_ltx (c_cell c) (c_incarnation c) (pr_root prepared)) (\<lambda>rr.
     checked_successor c Migrate
       (n\<lparr>c_state := Serving, c_root := Some rr, c_code := code, c_schema := schema,
          c_next_due_ms := next_due\<rparr>))))"

definition release :: "control \<Rightarrow> control result" where
  "release c = bind_r (bump (c\<lparr>c_bundle_binding := None\<rparr>)) (\<lambda>n.
     checked_successor c Release (n\<lparr>c_state := Idle, c_owner := None\<rparr>))"

definition is_same_or_pure_renewal_of :: "control \<Rightarrow> control \<Rightarrow> bool" where
  "is_same_or_pure_renewal_of c previous =
     (let revisions = checked_sub (c_revision c) (c_revision previous);
          progress = checked_sub (c_progress c) (c_progress previous)
      in revisions \<noteq> None \<and> revisions = progress
         \<and> c_cell previous = c_cell c \<and> c_incarnation previous = c_incarnation c
         \<and> c_epoch previous = c_epoch c \<and> c_state previous = c_state c
         \<and> c_owner previous = c_owner c \<and> c_root previous = c_root c
         \<and> c_recovery previous = c_recovery c
         \<and> c_bundle_binding previous = c_bundle_binding c
         \<and> c_code previous = c_code c \<and> c_schema previous = c_schema c
         \<and> c_next_due_ms previous = c_next_due_ms c)"

subsection \<open>Histories\<close>

inductive control_step :: "control \<Rightarrow> control \<Rightarrow> bool" where
  accept: "validate_transition c n t = Inr () \<Longrightarrow> control_step c n"

inductive_cases control_stepE: "control_step c n"

text \<open>What validity gives the properties below.\<close>

definition control_valid :: "control \<Rightarrow> bool" where
  "control_valid c \<longleftrightarrow> validate c = Inr ()"

lemma control_valid_state: "control_valid c \<Longrightarrow> state_matches c"
  by (auto simp: control_valid_def validate_def rust_simps)

lemma control_valid_recovery:
  "control_valid c \<Longrightarrow> c_recovery c = Some r \<Longrightarrow>
     c_root c = Some (ro_predecessor r) \<and> rr_txid (ro_predecessor r) < ro_final_txid r
     \<and> rr_commit_sequence (ro_predecessor r) < ro_final_commit_sequence r"
  by (auto simp: control_valid_def validate_def overlay_validate_def rust_simps
      split: if_splits)

lemma control_valid_binding:
  "control_valid c \<Longrightarrow> c_bundle_binding c = Some b \<Longrightarrow>
     c_state c = Serving \<and> (\<exists>w. c_owner c = Some w \<and> ow_session w = bb_session b)"
  by (auto simp: control_valid_def validate_def binding_invalid_def rust_simps
      split: option.splits)

lemma validate_transition_ok:
  "validate_transition c n t = Inr () \<longleftrightarrow>
     control_valid c \<and> control_valid n \<and> c_cell n = c_cell c \<and> c_incarnation n = c_incarnation c
     \<and> unat (c_revision n) = Suc (unat (c_revision c))
     \<and> unat (c_progress n) = Suc (unat (c_progress c))
     \<and> (t \<in> {BindBundle, Release, Takeover, Tombstone} \<or> c_bundle_binding n = c_bundle_binding c)
     \<and> transition_check t c n = Inr ()"
  by (auto simp: validate_transition_def control_valid_def rust_simps)

lemmas transition_checks = bind_bundle_check_def renew_check_def activate_check_def
  publish_check_def migrate_check_def release_check_def attach_recovery_check_def
  publish_recovery_check_def takeover_check_def tombstone_check_def

text \<open>
  The orders every accepted transition climbs. \<open>counters_le\<close>: the Cell scope is fixed, epoch and
  schema never fall, revision and progress rise in lockstep. \<open>ownership_le\<close>: within one epoch
  the owner and an enrolled bundle binding can only be given up. \<open>root_le\<close>: a published root is
  never lost or rolled back. \<open>overlay_le\<close>: a pinned recovery overlay stays pinned against its
  predecessor until the root contains its recovered tail.
\<close>

definition counters_le :: "control \<Rightarrow> control \<Rightarrow> bool" where
  "counters_le a b \<longleftrightarrow> c_cell b = c_cell a \<and> c_incarnation b = c_incarnation a
     \<and> c_epoch a \<le> c_epoch b \<and> c_schema a \<le> c_schema b \<and> c_revision a \<le> c_revision b
     \<and> unat (c_revision b) + unat (c_progress a) = unat (c_revision a) + unat (c_progress b)"

definition ownership_le :: "control \<Rightarrow> control \<Rightarrow> bool" where
  "ownership_le a b \<longleftrightarrow> c_epoch a < c_epoch b
     \<or> c_epoch a = c_epoch b
       \<and> (c_owner b = c_owner a \<and> c_bundle_binding a \<in> {None, c_bundle_binding b}
          \<or> c_owner b = None)"

definition root_ref_le :: "root_ref \<Rightarrow> root_ref \<Rightarrow> bool" where
  "root_ref_le r s \<longleftrightarrow> rr_txid r \<le> rr_txid s \<and> rr_commit_sequence r \<le> rr_commit_sequence s
     \<and> (rr_txid r = rr_txid s \<longrightarrow>
          rr_checksum r = rr_checksum s \<and> rr_commit_sequence r = rr_commit_sequence s)"

definition root_le :: "control \<Rightarrow> control \<Rightarrow> bool" where
  "root_le a b \<longleftrightarrow> (case c_root a of None \<Rightarrow> True
     | Some r \<Rightarrow> (case c_root b of None \<Rightarrow> False | Some s \<Rightarrow> root_ref_le r s))"

definition tail_published :: "recovery_overlay_ref \<Rightarrow> control \<Rightarrow> bool" where
  "tail_published o' b \<longleftrightarrow> (\<exists>s. c_root b = Some s \<and> ro_final_txid o' \<le> rr_txid s
     \<and> ro_final_commit_sequence o' \<le> rr_commit_sequence s)"

definition overlay_held :: "recovery_overlay_ref \<Rightarrow> control \<Rightarrow> bool" where
  "overlay_held o' b \<longleftrightarrow>
     c_recovery b = Some o' \<and> c_root b = Some (ro_predecessor o') \<or> tail_published o' b"

lemma root_ref_le_refl [simp]: "root_ref_le r r"
  by (simp add: root_ref_le_def)

lemma root_ref_le_trans: "root_ref_le r s \<Longrightarrow> root_ref_le s u \<Longrightarrow> root_ref_le r u"
  by (auto simp: root_ref_le_def)

lemma valid_root_successor_le:
  "valid_root_successor (Some r) (Some s) \<longleftrightarrow> root_ref_le r s"
  by (auto simp: root_ref_le_def)

lemma suc_le: "unat (b :: 'a::len word) = Suc (unat a) \<Longrightarrow> a \<le> b \<and> a < b"
  by (simp add: word_le_nat_alt word_less_nat_alt)

lemma step_counters:
  assumes "control_step a b"
  shows "counters_le a b"
proof -
  from assms obtain t where t: "validate_transition a b t = Inr ()"
    by (auto elim: control_stepE)
  then have "c_epoch a \<le> c_epoch b \<and> c_schema a \<le> c_schema b"
    by (cases t) (auto simp: validate_transition_ok transition_checks rust_simps Let_def
        valid_migration_version_def dest!: suc_le split: option.splits dest: arg_cong [where f = c_epoch]
        arg_cong [where f = c_schema])
  then show ?thesis
    using t by (auto simp: validate_transition_ok counters_le_def word_le_nat_alt)
qed

lemma step_ownership:
  assumes "control_step a b"
  shows "ownership_le a b"
proof -
  from assms obtain t where t: "validate_transition a b t = Inr ()"
    by (auto elim: control_stepE)
  then show ?thesis
    by (cases t) (auto simp: validate_transition_ok transition_checks rust_simps Let_def
        ownership_le_def dest!: suc_le split: option.splits
        dest: arg_cong [where f = c_epoch] arg_cong [where f = c_owner])
qed

lemma step_root:
  assumes "control_step a b"
  shows "root_le a b"
proof -
  from assms obtain t where t: "validate_transition a b t = Inr ()"
    by (auto elim: control_stepE)
  show ?thesis
  proof (cases "t \<in> {Publish, Migrate}")
    case True
    then have "valid_root_successor (c_root a) (c_root b)"
      using t by (auto simp: validate_transition_ok transition_checks rust_simps)
    then show ?thesis
      by (cases "c_root a"; cases "c_root b") (auto simp: root_le_def valid_root_successor_le
          simp del: valid_root_successor.simps(3))
  next
    case other: False
    show ?thesis
    proof (cases "t = PublishRecovery")
      case True
      then obtain r where "c_recovery a = Some r"
        using t by (auto simp: validate_transition_ok transition_checks split: option.splits)
      then show ?thesis
        using True t control_valid_recovery [of a r]
        by (auto simp: validate_transition_ok transition_checks rust_simps Let_def root_le_def
            root_ref_le_def split: option.splits)
    next
      case False
      then have "c_root b = c_root a"
        using other t by (cases t) (auto simp: validate_transition_ok transition_checks rust_simps
            split: option.splits dest: arg_cong [where f = c_root])
      then show ?thesis
        by (auto simp: root_le_def split: option.splits)
    qed
  qed
qed

lemma step_overlay:
  assumes "control_step a b" and "c_recovery a = Some o'"
  shows "overlay_held o' b"
proof -
  from assms(1) obtain t where t: "validate_transition a b t = Inr ()"
    by (auto elim: control_stepE)
  show ?thesis
  proof (cases "t = PublishRecovery")
    case True
    then show ?thesis
      using t assms(2) by (auto simp: validate_transition_ok transition_checks rust_simps Let_def
          overlay_held_def tail_published_def split: option.splits)
  next
    case False
    then have "c_recovery b = Some o'"
      using t assms(2) by (cases t) (auto simp: validate_transition_ok transition_checks rust_simps
          split: option.splits dest: arg_cong [where f = c_recovery])
    then show ?thesis
      using t control_valid_recovery [of b o'] by (auto simp: validate_transition_ok overlay_held_def)
  qed
qed

interpretation counters: ratchet control_step counters_le
proof
  show "counters_le s u" if "counters_le s t" "counters_le t u" for s t u
    using that by (auto simp: counters_le_def)
qed (simp_all add: counters_le_def [where a = s and b = s for s] step_counters)

interpretation ownership: ratchet control_step ownership_le
proof
  show "ownership_le s u" if "ownership_le s t" "ownership_le t u" for s t u
    using that by (auto simp: ownership_le_def)
qed (simp_all add: ownership_le_def [where a = s and b = s for s] step_ownership)

interpretation roots: ratchet control_step root_le
proof
  show "root_le s u" if "root_le s t" "root_le t u" for s t u
    using that by (auto simp: root_le_def split: option.splits intro: root_ref_le_trans)
qed (simp_all add: root_le_def [where a = s and b = s for s] step_root split: option.split)

lemma root_le_tail: "root_le a b \<Longrightarrow> tail_published o' a \<Longrightarrow> tail_published o' b"
  by (fastforce simp: root_le_def tail_published_def root_ref_le_def split: option.splits)

interpretation overlay: preserved control_step "overlay_held o'" for o'
proof
  show "overlay_held o' t" if "overlay_held o' s" "control_step s t" for s t
    using that step_overlay [of s t o'] root_le_tail [OF step_root [of s t], of o']
    by (auto simp: overlay_held_def)
qed

definition tombstone_kept :: "control \<Rightarrow> control \<Rightarrow> bool" where
  "tombstone_kept a b \<longleftrightarrow> c_state b = Tombstoned \<and> c_owner b = None \<and> c_epoch b = c_epoch a
     \<and> c_root b = c_root a \<and> c_recovery b = c_recovery a \<and> c_code b = c_code a
     \<and> c_schema b = c_schema a"

interpretation tombstone: preserved control_step "tombstone_kept a" for a
proof
  fix s t
  assume inv: "tombstone_kept a s" and "control_step s t"
  then obtain tr where tr: "validate_transition s t tr = Inr ()"
    by (auto elim: control_stepE)
  with inv have "tr = Renew"
    by (cases tr) (auto simp: tombstone_kept_def validate_transition_ok transition_checks rust_simps
        Let_def split: option.splits)
  then show "tombstone_kept a t"
    using tr inv by (auto simp: tombstone_kept_def validate_transition_ok transition_checks rust_simps)
qed

subsection \<open>What the builders return\<close>

lemma bump_Inr:
  "bump c = Inr n \<longleftrightarrow> (\<exists>r p. unat r = Suc (unat (c_revision c)) \<and> unat p = Suc (unat (c_progress c))
     \<and> n = c\<lparr>c_revision := r, c_progress := p\<rparr>)"
  by (auto simp: bump_def rust_simps)

lemma checked_successor_Inr:
  "checked_successor c t n = Inr n' \<longleftrightarrow> n' = n \<and> validate_transition c n t = Inr ()"
  by (auto simp: checked_successor_def bind_r_Inr)

lemma unat_Suc_nonzero: "unat (r :: 'a::len word) = Suc k \<Longrightarrow> r \<noteq> 0"
  by auto

lemma control_valid_counters:
  "control_valid c \<Longrightarrow> r \<noteq> 0 \<Longrightarrow> control_valid (c\<lparr>c_revision := r, c_progress := p\<rparr>)"
  by (auto simp: control_valid_def validate_def rust_simps binding_invalid_def state_matches_def
      split: option.splits control_state.splits)

lemma renew_is_bump:
  assumes "control_valid c"
  shows "renew c = bump c"
proof (cases "bump c")
  case (Inl e)
  then show ?thesis
    by (simp add: renew_def)
next
  case (Inr n)
  then obtain r p where "unat r = Suc (unat (c_revision c))" "unat p = Suc (unat (c_progress c))"
    and n: "n = c\<lparr>c_revision := r, c_progress := p\<rparr>"
    by (auto simp: bump_Inr)
  then have "validate_transition c n Renew = Inr ()"
    using assms control_valid_counters [OF assms unat_Suc_nonzero [of r]]
    by (simp add: validate_transition_ok renew_check_def)
  then show ?thesis
    using Inr by (simp add: renew_def checked_successor_def)
qed

fun renew_times :: "nat \<Rightarrow> control \<Rightarrow> control result" where
  "renew_times 0 c = Inr c"
| "renew_times (Suc k) c = bind_r (renew c) (renew_times k)"

lemma bump_valid: "control_valid c \<Longrightarrow> bump c = Inr n \<Longrightarrow> control_valid n"
  by (auto simp: bump_Inr intro: control_valid_counters unat_Suc_nonzero)

lemma renew_times_exact:
  "control_valid c \<Longrightarrow> renew_times k c = Inr n \<longleftrightarrow>
     (\<exists>r p. unat r = unat (c_revision c) + k \<and> unat p = unat (c_progress c) + k
        \<and> n = c\<lparr>c_revision := r, c_progress := p\<rparr>)"
proof (induction k arbitrary: c)
  case 0
  have "(\<exists>r p. unat r = unat (c_revision c) \<and> unat p = unat (c_progress c)
      \<and> n = c\<lparr>c_revision := r, c_progress := p\<rparr>) \<longleftrightarrow> n = c"
    by (auto simp: word_unat_eq_iff [symmetric])
  then show ?case
    by auto
next
  case (Suc k)
  let ?Q = "\<lambda>m. \<exists>r p. unat r = unat (c_revision m) + k \<and> unat p = unat (c_progress m) + k
      \<and> n = m\<lparr>c_revision := r, c_progress := p\<rparr>"
  have "renew_times (Suc k) c = Inr n \<longleftrightarrow> (\<exists>m. bump c = Inr m \<and> ?Q m)"
    using Suc.IH bump_valid [OF Suc.prems] by (auto simp: bind_r_Inr renew_is_bump [OF Suc.prems])
  also have "\<dots> \<longleftrightarrow> (\<exists>r p. unat r = unat (c_revision c) + Suc k
      \<and> unat p = unat (c_progress c) + Suc k \<and> n = c\<lparr>c_revision := r, c_progress := p\<rparr>)"
    (is "?l \<longleftrightarrow> ?r")
  proof
    assume ?l
    then obtain r p where "unat r = unat (c_revision c) + Suc k"
        "unat p = unat (c_progress c) + Suc k" "n = c\<lparr>c_revision := r, c_progress := p\<rparr>"
      by (auto simp: bump_Inr)
    then show ?r
      by blast
  next
    assume ?r
    then obtain r p where h: "unat r = unat (c_revision c) + Suc k"
        "unat p = unat (c_progress c) + Suc k" "n = c\<lparr>c_revision := r, c_progress := p\<rparr>"
      by blast
    have "unat (c_revision c + 1) = Suc (unat (c_revision c))"
        "unat (c_progress c + 1) = Suc (unat (c_progress c))"
      using h unat_Suc_if_less [of "c_revision c" r] unat_Suc_if_less [of "c_progress c" p]
      by (simp_all add: word_less_nat_alt)
    then show ?l
      using h by (intro exI [of _ "c\<lparr>c_revision := c_revision c + 1,
          c_progress := c_progress c + 1\<rparr>"]) (auto simp: bump_Inr)
  qed
  finally show ?case .
qed

lemma validate_takeover:
  assumes "control_valid c" and "e \<noteq> 0" and "r \<noteq> 0"
  shows "control_valid (c\<lparr>c_bundle_binding := None, c_epoch := e, c_revision := r, c_progress := p,
      c_state := Recovering, c_owner := Some w\<rparr>) \<longleftrightarrow> \<not> endpoint_invalid w"
  using assms by (auto simp: control_valid_def validate_def rust_simps state_matches_def
      split: option.splits)

lemma validate_release:
  assumes "control_valid c" and "r \<noteq> 0"
  shows "control_valid (c\<lparr>c_bundle_binding := None, c_revision := r, c_progress := p,
      c_state := Idle, c_owner := None\<rparr>)"
  using assms by (auto simp: control_valid_def validate_def rust_simps state_matches_def
      split: option.splits)

subsection \<open>A concrete Cell\<close>

text \<open>Records of one Cell that the examples below evaluate.\<close>

definition sample_root :: "u64 \<Rightarrow> root_ref" where
  "sample_root n = \<lparr>rr_digest = Digest (replicate 32 7), rr_txid = n, rr_checksum = 0x8000000000000000,
     rr_commit_sequence = n\<rparr>"

definition sample_owner :: "u8 \<Rightarrow> owner" where
  "sample_owner k = \<lparr>ow_session = SessionId (replicate 16 k), ow_endpoint = [0x61, 0x3a, 0x31]\<rparr>"

definition sample_overlay :: recovery_overlay_ref where
  "sample_overlay = \<lparr>ro_leader_session = SessionId (replicate 16 1), ro_log_epoch = 1,
     ro_manifest_digest = Digest (replicate 32 9), ro_first_node_sequence = 1,
     ro_last_node_sequence = 4, ro_predecessor = sample_root 5, ro_final_txid = 8,
     ro_final_checksum = 0x8000000000000000, ro_final_commit_sequence = 8\<rparr>"

definition sample_control :: control where
  "sample_control = \<lparr>c_cell = CellId (replicate 32 3), c_incarnation = IncarnationId (replicate 16 4),
     c_epoch = 1, c_revision = 10, c_progress = 10, c_state = Serving,
     c_owner = Some (sample_owner 1), c_root = Some (sample_root 5), c_recovery = None,
     c_bundle_binding = None, c_code = Digest (replicate 32 6), c_schema = 1, c_next_due_ms = None\<rparr>"

definition sample_next :: control where
  "sample_next = sample_control\<lparr>c_revision := 11, c_progress := 11\<rparr>"

lemma sample_renew: "control_step sample_control sample_next"
  by (rule accept [of _ _ Renew]) code_simp

lemma sample_publish:
  "control_step sample_control (sample_next\<lparr>c_root := Some (sample_root 6)\<rparr>)"
  by (rule accept [of _ _ Publish]) code_simp

lemma sample_takeover_pinned:
  "control_step (sample_control\<lparr>c_recovery := Some sample_overlay\<rparr>)
     (sample_next\<lparr>c_recovery := Some sample_overlay, c_epoch := 2, c_state := Recovering,
        c_owner := Some (sample_owner 2)\<rparr>)"
  by (rule accept [of _ _ Takeover]) code_simp

lemma sample_tombstone_renew:
  "control_step (sample_control\<lparr>c_state := Tombstoned, c_owner := None\<rparr>)
     (sample_next\<lparr>c_state := Tombstoned, c_owner := None\<rparr>)"
  by (rule accept [of _ _ Renew]) code_simp

subsection \<open>Properties\<close>

text \<open>
  C10: At most one owner per epoch. Along every history of accepted transitions, if two
  records carry the same ownership epoch and both name an owner, they name the same owner; a
  bundle binding enrolled in the first is still the one of the second. A new owner therefore
  always comes with a higher epoch, which is what fences the old one.
\<close>

theorem single_owner_per_epoch:
  assumes "control_step\<^sup>*\<^sup>* a b" and "c_epoch b = c_epoch a"
    and "c_owner a = Some v" and "c_owner b = Some w"
  shows "w = v \<and> (c_bundle_binding a = None \<or> c_bundle_binding b = c_bundle_binding a)"
  using ownership.run_le [OF assms(1)] assms(2-4) by (auto simp: ownership_le_def)

theorem single_owner_per_epoch_witness:
  "c_owner sample_next = Some (sample_owner 1) \<and> c_epoch sample_next = c_epoch sample_control
   \<and> sample_owner 1 = sample_owner 1
   \<and> (c_bundle_binding sample_control = None
      \<or> c_bundle_binding sample_next = c_bundle_binding sample_control)"
  using single_owner_per_epoch [OF r_into_rtranclp [where r = control_step, OF sample_renew],
      of "sample_owner 1" "sample_owner 1"]
  by (simp add: sample_next_def sample_control_def)

text \<open>
  C11: The record's identity and counters. Along every history the Cell and the incarnation are
  fixed, the ownership epoch, the schema and the revision never decrease, and revision and progress
  advance by the same amount.
\<close>

theorem control_counters_monotone:
  assumes "control_step\<^sup>*\<^sup>* a b"
  shows "c_cell b = c_cell a \<and> c_incarnation b = c_incarnation a
    \<and> c_epoch a \<le> c_epoch b \<and> c_schema a \<le> c_schema b \<and> c_revision a \<le> c_revision b
    \<and> unat (c_revision b) - unat (c_revision a) = unat (c_progress b) - unat (c_progress a)"
  using counters.run_le [OF assms] by (auto simp: counters_le_def)

theorem control_counters_monotone_witness:
  "c_epoch sample_control \<le> c_epoch sample_next \<and> c_revision sample_control \<le> c_revision sample_next"
  using control_counters_monotone [OF r_into_rtranclp [where r = control_step, OF sample_renew]]
  by blast

text \<open>
  C12: A published root is never lost or rolled back. Once a record names a root, every later
  record names one whose transaction id and commit sequence are at least as large, and a later
  root with the same transaction id has the same checksum and commit sequence.
\<close>

theorem root_never_rolled_back:
  assumes "control_step\<^sup>*\<^sup>* a b" and "c_root a = Some r"
  shows "\<exists>s. c_root b = Some s \<and> rr_txid r \<le> rr_txid s
    \<and> rr_commit_sequence r \<le> rr_commit_sequence s
    \<and> (rr_txid r \<noteq> rr_txid s \<or>
         rr_checksum s = rr_checksum r \<and> rr_commit_sequence s = rr_commit_sequence r)"
  using roots.run_le [OF assms(1)] assms(2)
  by (auto simp: root_le_def root_ref_le_def split: option.splits)

theorem root_never_rolled_back_witness:
  "\<exists>s. c_root (sample_next\<lparr>c_root := Some (sample_root 6)\<rparr>) = Some s
     \<and> rr_txid (sample_root 5) \<le> rr_txid s"
  using root_never_rolled_back [OF r_into_rtranclp [where r = control_step, OF sample_publish],
      of "sample_root 5"]
  by (auto simp: sample_control_def)

text \<open>
  C13: A recovered tail is never dropped. Once a recovery overlay is pinned on a valid record,
  every later record either still pins that very overlay against the root it supersedes, or names a
  root that has reached the overlay's final transaction id and commit sequence.
\<close>

theorem recovered_tail_not_dropped:
  assumes "control_step\<^sup>*\<^sup>* a b" and "validate a = Inr ()" and "c_recovery a = Some r"
  shows "c_recovery b = Some r \<and> c_root b = Some (ro_predecessor r)
    \<or> (\<exists>s. c_root b = Some s \<and> ro_final_txid r \<le> rr_txid s
         \<and> ro_final_commit_sequence r \<le> rr_commit_sequence s)"
proof -
  have "overlay_held r a"
    using control_valid_recovery [of a r] assms(2,3)
    by (simp add: overlay_held_def control_valid_def)
  then show ?thesis
    using overlay.run_inv [OF assms(1)] by (simp add: overlay_held_def tail_published_def)
qed

theorem recovered_tail_not_dropped_witness:
  "let b = sample_next\<lparr>c_recovery := Some sample_overlay, c_epoch := 2, c_state := Recovering,
        c_owner := Some (sample_owner 2)\<rparr>
   in c_recovery b = Some sample_overlay \<and> c_root b = Some (ro_predecessor sample_overlay)
      \<or> (\<exists>s. c_root b = Some s \<and> ro_final_txid sample_overlay \<le> rr_txid s
         \<and> ro_final_commit_sequence sample_overlay \<le> rr_commit_sequence s)"
proof -
  have "validate (sample_control\<lparr>c_recovery := Some sample_overlay\<rparr>) = Inr ()"
    by code_simp
  then show ?thesis
    using recovered_tail_not_dropped [OF r_into_rtranclp [where r = control_step,
        OF sample_takeover_pinned], of sample_overlay]
    unfolding Let_def by simp
qed

text \<open>
  C14: A tombstone is final. From a valid tombstoned record no history reaches any other state:
  the Cell keeps no owner and its epoch, root, code and schema never change again.
\<close>

theorem tombstone_is_final:
  assumes "control_step\<^sup>*\<^sup>* a b" and "validate a = Inr ()" and "c_state a = Tombstoned"
  shows "c_state b = Tombstoned \<and> c_owner b = None \<and> c_epoch b = c_epoch a \<and> c_root b = c_root a
    \<and> c_code b = c_code a \<and> c_schema b = c_schema a"
proof -
  have "tombstone_kept a a"
    using control_valid_state [of a] assms(2,3)
    by (simp add: tombstone_kept_def control_valid_def state_matches_def)
  then show ?thesis
    using tombstone.run_inv [OF assms(1)] by (simp add: tombstone_kept_def)
qed

theorem tombstone_is_final_witness:
  "c_state (sample_next\<lparr>c_state := Tombstoned, c_owner := None\<rparr>) = Tombstoned"
proof -
  have "validate (sample_control\<lparr>c_state := Tombstoned, c_owner := None\<rparr>) = Inr ()"
    by code_simp
  then show ?thesis
    using tombstone_is_final [OF r_into_rtranclp [where r = control_step,
        OF sample_tombstone_renew]] by simp
qed

text \<open>
  C15: The renewal test is exact. For a valid record, \<open>is_same_or_pure_renewal_of\<close> holds of a
  record exactly when that record is the result of renewing the first some number of times.
\<close>

theorem pure_renewal_exact:
  assumes "validate c = Inr ()"
  shows "is_same_or_pure_renewal_of n c \<longleftrightarrow> (\<exists>k. renew_times k c = Inr n)"
proof
  assume h: "is_same_or_pure_renewal_of n c"
  then obtain d where d: "checked_sub (c_revision n) (c_revision c) = Some d"
      "checked_sub (c_progress n) (c_progress c) = Some d"
    by (auto simp: is_same_or_pure_renewal_of_def Let_def)
  have "n = c\<lparr>c_revision := c_revision n, c_progress := c_progress n\<rparr>"
    using h by (simp add: is_same_or_pure_renewal_of_def Let_def)
  then show "\<exists>k. renew_times k c = Inr n"
    using d assms by (intro exI [of _ "unat d"])
      (auto simp: renew_times_exact control_valid_def checked_sub_Some)
next
  assume "\<exists>k. renew_times k c = Inr n"
  then obtain k r p where k: "unat r = unat (c_revision c) + k" "unat p = unat (c_progress c) + k"
    and n: "n = c\<lparr>c_revision := r, c_progress := p\<rparr>"
    using assms by (auto simp: renew_times_exact control_valid_def)
  then have "k = unat (of_nat k :: u64)"
    using unat_bound [of r] by (simp add: unat_of_nat)
  then have "checked_sub r (c_revision c) = Some (of_nat k)"
      "checked_sub p (c_progress c) = Some (of_nat k)"
    using k by (simp_all add: checked_sub_Some)
  then show "is_same_or_pure_renewal_of n c"
    by (simp add: n is_same_or_pure_renewal_of_def)
qed

theorem pure_renewal_exact_witness:
  "\<exists>k. renew_times k sample_control = Inr sample_next"
proof -
  have "validate sample_control = Inr ()"
    by code_simp
  moreover have "is_same_or_pure_renewal_of sample_next sample_control"
    by code_simp
  ultimately show ?thesis
    using pure_renewal_exact [of sample_control sample_next] by simp
qed

lemma unat_eq_Suc: "unat (r :: 'a::len word) = Suc (unat a) \<longleftrightarrow> a \<noteq> - 1 \<and> r = a + 1"
proof
  assume "unat r = Suc (unat a)"
  then show "a \<noteq> - 1 \<and> r = a + 1"
    using unat_Suc_if_less [of a r] unat_bound [of r]
    by (auto simp: word_less_nat_alt word_unat_eq_iff unsigned_minus_1_eq_mask mask_eq_exp_minus_1)
next
  assume "a \<noteq> - 1 \<and> r = a + 1"
  then show "unat r = Suc (unat a)"
    by (auto intro!: unat_Suc_if_less [of a "- 1"] simp: word_order.not_eq_extremum)
qed

text \<open>
  C16: Takeover, exactly. It succeeds on a valid record that is not tombstoned, for an owner
  other than the current one with a well-formed endpoint, unless a counter is exhausted; the
  successor is the record with the next epoch, revision and progress, in recovery under the new
  owner, its bundle binding dropped and its root and pinned overlay kept. The owners are compared
  whole, so the current session may take over from itself under another endpoint.
\<close>

theorem takeover_exact:
  "takeover c w = Inr n \<longleftrightarrow>
     validate c = Inr () \<and> c_state c \<noteq> Tombstoned \<and> c_owner c \<noteq> Some w \<and> \<not> endpoint_invalid w
     \<and> c_epoch c \<noteq> - 1 \<and> c_revision c \<noteq> - 1 \<and> c_progress c \<noteq> - 1
     \<and> n = c\<lparr>c_bundle_binding := None, c_epoch := c_epoch c + 1, c_revision := c_revision c + 1,
              c_progress := c_progress c + 1, c_state := Recovering, c_owner := Some w\<rparr>"
proof -
  let ?n = "c\<lparr>c_bundle_binding := None, c_epoch := c_epoch c + 1, c_revision := c_revision c + 1,
              c_progress := c_progress c + 1, c_state := Recovering, c_owner := Some w\<rparr>"
  have "takeover c w = Inr n \<longleftrightarrow> c_epoch c \<noteq> - 1 \<and> c_revision c \<noteq> - 1 \<and> c_progress c \<noteq> - 1
      \<and> n = ?n \<and> validate_transition c ?n Takeover = Inr ()"
    by (auto simp: takeover_def bind_r_Inr ok_or_Inr checked_add_Some bump_Inr
        checked_successor_Inr unat_eq_Suc)
  also have "\<dots> \<longleftrightarrow> c_epoch c \<noteq> - 1 \<and> c_revision c \<noteq> - 1 \<and> c_progress c \<noteq> - 1 \<and> n = ?n
      \<and> control_valid c \<and> \<not> endpoint_invalid w \<and> c_state c \<noteq> Tombstoned \<and> c_owner c \<noteq> Some w"
    using validate_takeover [where c = c and e = "c_epoch c + 1" and r = "c_revision c + 1"
        and p = "c_progress c + 1" and w = w]
    by (auto simp: validate_transition_ok takeover_check_def reject_if_Inr checked_add_Some
        unat_eq_Suc eq_neg_iff_add_eq_0)
  finally show ?thesis
    by (auto simp: control_valid_def)
qed

text \<open>
  Release, exactly. It succeeds on a valid recovering or serving record with a published root
  and no pinned overlay, unless a counter is exhausted; the successor is the same record, idle, with
  no owner and no bundle binding, at the same epoch and root.
\<close>

lemma release_exact:
  "release c = Inr n \<longleftrightarrow>
     validate c = Inr () \<and> c_state c \<in> {Recovering, Serving} \<and> c_root c \<noteq> None
     \<and> c_recovery c = None \<and> c_revision c \<noteq> - 1 \<and> c_progress c \<noteq> - 1
     \<and> n = c\<lparr>c_bundle_binding := None, c_revision := c_revision c + 1,
              c_progress := c_progress c + 1, c_state := Idle, c_owner := None\<rparr>"
proof -
  let ?n = "c\<lparr>c_bundle_binding := None, c_revision := c_revision c + 1,
              c_progress := c_progress c + 1, c_state := Idle, c_owner := None\<rparr>"
  have "release c = Inr n \<longleftrightarrow> c_revision c \<noteq> - 1 \<and> c_progress c \<noteq> - 1
      \<and> n = ?n \<and> validate_transition c ?n Release = Inr ()"
    by (auto simp: release_def bind_r_Inr bump_Inr checked_successor_Inr unat_eq_Suc)
  also have "\<dots> \<longleftrightarrow> c_revision c \<noteq> - 1 \<and> c_progress c \<noteq> - 1 \<and> n = ?n \<and> control_valid c
      \<and> c_state c \<in> {Recovering, Serving} \<and> c_root c \<noteq> None \<and> c_recovery c = None"
    using validate_release [where c = c and r = "c_revision c + 1" and p = "c_progress c + 1"]
    by (auto simp: validate_transition_ok release_check_def reject_if_Inr unat_eq_Suc
        eq_neg_iff_add_eq_0)
  finally show ?thesis
    by (auto simp: control_valid_def)
qed

end
