(* ===== verification/Control_Codec.thy ===== *)
theory Control_Codec
  imports Control_Record
begin

text \<open>
  The canonical JSON form of the control record, \<^verbatim>\<open>crates/cellule-runtime/src/control/codec.rs\<close>
  with \<^verbatim>\<open>Control::encode\<close> and \<^verbatim>\<open>Control::decode\<close> of \<^verbatim>\<open>control/mod.rs\<close>: the raw records whose fields
  are text, the conversions in both directions, and the strict decimal fields. The JSON printer and
  parser are the third-party crate serde_json: they are the parameters \<open>to_vec\<close> and \<open>from_slice\<close>.
  The standard library's decimal printing and parsing of integers is modelled.
\<close>

subsection \<open>Decimal integers\<close>

fun digits :: "nat \<Rightarrow> rstring" where
  "digits n = (if n < 10 then [of_nat (48 + n)] else digits (n div 10) @ [of_nat (48 + n mod 10)])"

declare digits.simps [simp del]

definition u64_to_string :: "u64 \<Rightarrow> rstring" where
  "u64_to_string n = digits (unat n)"

definition i64_to_string :: "i64 \<Rightarrow> rstring" where
  "i64_to_string x = (if x < 0 then 45 # digits (nat (- x)) else digits (nat x))"

definition is_digit :: "u8 \<Rightarrow> bool" where
  "is_digit b \<longleftrightarrow> 48 \<le> b \<and> b \<le> 57"

definition parse_digits :: "rstring \<Rightarrow> nat option" where
  "parse_digits s = (if s \<noteq> [] \<and> list_all is_digit s
     then Some (foldl (\<lambda>acc b. acc * 10 + (unat b - 48)) 0 s) else None)"

definition parse_u64 :: "rstring \<Rightarrow> u64 option" where
  "parse_u64 s =
     (case parse_digits (if take 1 s = [43] then tl s else s) of
        None \<Rightarrow> None
      | Some n \<Rightarrow> if n < 2 ^ 64 then Some (of_nat n) else None)"

definition parse_i64 :: "rstring \<Rightarrow> i64 option" where
  "parse_i64 s =
     (if take 1 s = [45]
      then (case parse_digits (tl s) of None \<Rightarrow> None
            | Some n \<Rightarrow> if is_i64 (- int n) then Some (- int n) else None)
      else (case parse_digits (if take 1 s = [43] then tl s else s) of None \<Rightarrow> None
            | Some n \<Rightarrow> if is_i64 (int n) then Some (int n) else None))"

definition decimal_u64 :: "rstring \<Rightarrow> u64 result" where
  "decimal_u64 v = bind_r (ok_or (Control ''invalid decimal u64'') (parse_u64 v)) (\<lambda>n.
     if u64_to_string n \<noteq> v then Inl (Control ''noncanonical decimal u64'') else Inr n)"

definition decimal_i64 :: "rstring \<Rightarrow> i64 result" where
  "decimal_i64 v = bind_r (ok_or (Control ''invalid decimal i64'') (parse_i64 v)) (\<lambda>n.
     if i64_to_string n \<noteq> v then Inl (Control ''noncanonical decimal i64'') else Inr n)"

subsection \<open>Raw records\<close>

record raw_owner =
  rw_session :: rstring
  rw_endpoint :: rstring

record raw_root =
  rt_digest :: rstring
  rt_txid :: rstring
  rt_checksum :: rstring
  rt_commit_sequence :: rstring

record raw_bundle_binding =
  rb_session :: rstring
  rb_epoch :: rstring
  rb_digest :: rstring

record raw_recovery_overlay =
  rv_leader_session :: rstring
  rv_log_epoch :: rstring
  rv_manifest_digest :: rstring
  rv_first_node_sequence :: rstring
  rv_last_node_sequence :: rstring
  rv_predecessor :: raw_root
  rv_final_txid :: rstring
  rv_final_checksum :: rstring
  rv_final_commit_sequence :: rstring

record raw_control =
  rc_version :: u32
  rc_cell :: rstring
  rc_incarnation :: rstring
  rc_epoch :: rstring
  rc_revision :: rstring
  rc_progress :: rstring
  rc_state :: control_state
  rc_owner :: "raw_owner option"
  rc_root :: "raw_root option"
  rc_recovery :: "raw_recovery_overlay option"
  rc_bundle_binding :: "raw_bundle_binding option"
  rc_code :: rstring
  rc_schema :: u32
  rc_next_due_ms :: "rstring option"

definition raw_root_from :: "root_ref \<Rightarrow> raw_root" where
  "raw_root_from r = \<lparr>rt_digest = encode_hex (digest_bytes (rr_digest r)),
     rt_txid = u64_to_string (rr_txid r),
     rt_checksum = encode_hex (u64_to_be_bytes (rr_checksum r)),
     rt_commit_sequence = u64_to_string (rr_commit_sequence r)\<rparr>"

definition raw_owner_from :: "owner \<Rightarrow> raw_owner" where
  "raw_owner_from w = \<lparr>rw_session = encode_hex (session_bytes (ow_session w)),
     rw_endpoint = ow_endpoint w\<rparr>"

definition raw_binding_from :: "bundle_binding_ref \<Rightarrow> raw_bundle_binding" where
  "raw_binding_from b = \<lparr>rb_session = encode_hex (session_bytes (bb_session b)),
     rb_epoch = u64_to_string (bb_epoch b), rb_digest = encode_hex (digest_bytes (bb_digest b))\<rparr>"

definition raw_overlay_from :: "recovery_overlay_ref \<Rightarrow> raw_recovery_overlay" where
  "raw_overlay_from r = \<lparr>rv_leader_session = encode_hex (session_bytes (ro_leader_session r)),
     rv_log_epoch = u64_to_string (ro_log_epoch r),
     rv_manifest_digest = encode_hex (digest_bytes (ro_manifest_digest r)),
     rv_first_node_sequence = u64_to_string (ro_first_node_sequence r),
     rv_last_node_sequence = u64_to_string (ro_last_node_sequence r),
     rv_predecessor = raw_root_from (ro_predecessor r),
     rv_final_txid = u64_to_string (ro_final_txid r),
     rv_final_checksum = encode_hex (u64_to_be_bytes (ro_final_checksum r)),
     rv_final_commit_sequence = u64_to_string (ro_final_commit_sequence r)\<rparr>"

definition raw_from :: "control \<Rightarrow> raw_control" where
  "raw_from c = \<lparr>rc_version = (if c_bundle_binding c \<noteq> None then 2 else 1),
     rc_cell = encode_hex (cell_bytes (c_cell c)),
     rc_incarnation = encode_hex (incarnation_bytes (c_incarnation c)),
     rc_epoch = u64_to_string (c_epoch c), rc_revision = u64_to_string (c_revision c),
     rc_progress = u64_to_string (c_progress c), rc_state = c_state c,
     rc_owner = map_option raw_owner_from (c_owner c),
     rc_root = map_option raw_root_from (c_root c),
     rc_recovery = map_option raw_overlay_from (c_recovery c),
     rc_bundle_binding = map_option raw_binding_from (c_bundle_binding c),
     rc_code = encode_hex (digest_bytes (c_code c)), rc_schema = c_schema c,
     rc_next_due_ms = map_option i64_to_string (c_next_due_ms c)\<rparr>"

definition root_try_from :: "raw_root \<Rightarrow> root_ref result" where
  "root_try_from r =
     bind_r (decode_hex 32 (rt_digest r)) (\<lambda>digest.
     bind_r (decimal_u64 (rt_txid r)) (\<lambda>txid.
     bind_r (decode_hex 8 (rt_checksum r)) (\<lambda>checksum.
     bind_r (decimal_u64 (rt_commit_sequence r)) (\<lambda>sequence.
     Inr \<lparr>rr_digest = Digest digest, rr_txid = txid, rr_checksum = u64_from_be_bytes checksum,
          rr_commit_sequence = sequence\<rparr>))))"

definition owner_try_from :: "raw_owner \<Rightarrow> owner result" where
  "owner_try_from w = bind_r (decode_hex 16 (rw_session w)) (\<lambda>session.
     Inr \<lparr>ow_session = SessionId session, ow_endpoint = rw_endpoint w\<rparr>)"

definition binding_try_from :: "raw_bundle_binding \<Rightarrow> bundle_binding_ref result" where
  "binding_try_from b =
     bind_r (decode_hex 16 (rb_session b)) (\<lambda>session.
     bind_r (decimal_u64 (rb_epoch b)) (\<lambda>epoch.
     bind_r (decode_hex 32 (rb_digest b)) (\<lambda>digest.
     Inr \<lparr>bb_session = SessionId session, bb_epoch = epoch, bb_digest = Digest digest\<rparr>)))"

definition overlay_try_from :: "raw_recovery_overlay \<Rightarrow> recovery_overlay_ref result" where
  "overlay_try_from r =
     bind_r (decode_hex 16 (rv_leader_session r)) (\<lambda>leader.
     bind_r (decimal_u64 (rv_log_epoch r)) (\<lambda>epoch.
     bind_r (decode_hex 32 (rv_manifest_digest r)) (\<lambda>manifest.
     bind_r (decimal_u64 (rv_first_node_sequence r)) (\<lambda>first.
     bind_r (decimal_u64 (rv_last_node_sequence r)) (\<lambda>last_seq.
     bind_r (root_try_from (rv_predecessor r)) (\<lambda>predecessor.
     bind_r (decimal_u64 (rv_final_txid r)) (\<lambda>txid.
     bind_r (decode_hex 8 (rv_final_checksum r)) (\<lambda>checksum.
     bind_r (decimal_u64 (rv_final_commit_sequence r)) (\<lambda>sequence.
     Inr \<lparr>ro_leader_session = SessionId leader, ro_log_epoch = epoch,
          ro_manifest_digest = Digest manifest, ro_first_node_sequence = first,
          ro_last_node_sequence = last_seq, ro_predecessor = predecessor, ro_final_txid = txid,
          ro_final_checksum = u64_from_be_bytes checksum,
          ro_final_commit_sequence = sequence\<rparr>)))))))))"

definition control_try_from :: "raw_control \<Rightarrow> control result" where
  "control_try_from raw =
     (if rc_version raw \<noteq> (if rc_bundle_binding raw \<noteq> None then 2 else 1)
      then Inl (Control ''unsupported version'') else
     bind_r (transpose_opt binding_try_from (rc_bundle_binding raw)) (\<lambda>binding.
     bind_r (decode_hex 32 (rc_cell raw)) (\<lambda>cell.
     bind_r (decode_hex 16 (rc_incarnation raw)) (\<lambda>incarnation.
     bind_r (decimal_u64 (rc_epoch raw)) (\<lambda>epoch.
     bind_r (decimal_u64 (rc_revision raw)) (\<lambda>revision.
     bind_r (decimal_u64 (rc_progress raw)) (\<lambda>progress.
     bind_r (transpose_opt owner_try_from (rc_owner raw)) (\<lambda>w.
     bind_r (transpose_opt root_try_from (rc_root raw)) (\<lambda>root.
     bind_r (transpose_opt overlay_try_from (rc_recovery raw)) (\<lambda>recovery.
     bind_r (decode_hex 32 (rc_code raw)) (\<lambda>code.
     bind_r (transpose_opt decimal_i64 (rc_next_due_ms raw)) (\<lambda>due.
     Inr \<lparr>c_cell = CellId cell, c_incarnation = IncarnationId incarnation, c_epoch = epoch,
          c_revision = revision, c_progress = progress, c_state = rc_state raw, c_owner = w,
          c_root = root, c_recovery = recovery, c_bundle_binding = binding, c_code = Digest code,
          c_schema = rc_schema raw, c_next_due_ms = due\<rparr>))))))))))))"

subsection \<open>Encoding and decoding\<close>

definition MAX_CONTROL_BYTES :: nat where
  "MAX_CONTROL_BYTES = 8 * 1024"

definition control_encode ::
  "(raw_control \<Rightarrow> bytes option) \<Rightarrow> control \<Rightarrow> bytes result" where
  "control_encode to_vec c =
     bind_r (validate c) (\<lambda>_.
     bind_r (ok_or Json (to_vec (raw_from c))) (\<lambda>bs.
     if length bs > MAX_CONTROL_BYTES then Inl (Control ''body exceeds 8 KiB'') else Inr bs))"

definition control_decode ::
  "(raw_control \<Rightarrow> bytes option) \<Rightarrow> (bytes \<Rightarrow> raw_control option) \<Rightarrow> bytes \<Rightarrow> control result" where
  "control_decode to_vec from_slice bs =
     (if length bs > MAX_CONTROL_BYTES then Inl (Control ''body exceeds 8 KiB'') else
     bind_r (ok_or Json (from_slice bs)) (\<lambda>raw.
     bind_r (control_try_from raw) (\<lambda>c.
     bind_r (validate c) (\<lambda>_.
     bind_r (control_encode to_vec c) (\<lambda>canonical.
     if canonical \<noteq> bs then Inl (Control ''JSON is not canonical'') else Inr c)))))"

subsection \<open>The contract of a canonical field\<close>

text \<open>
  A field codec prints a well-formed value to exactly one text, reads that text back, and reads
  nothing else. Options of a codec are a codec; records of codecs are codecs by interpretation.
\<close>

locale field_codec =
  fixes put :: "'a \<Rightarrow> 'b" and get :: "'b \<Rightarrow> 'a result" and ok :: "'a \<Rightarrow> bool"
  assumes get_put: "ok x \<Longrightarrow> get (put x) = Inr x"
    and get_sound: "get y = Inr x \<Longrightarrow> ok x \<and> y = put x"
begin

lemma exact: "get y = Inr x \<longleftrightarrow> ok x \<and> y = put x"
  using get_put get_sound by auto

lemma option_sound: "transpose_opt get y = Inr x \<Longrightarrow> pred_option ok x \<and> y = map_option put x"
  by (cases x) (auto simp: rust_simps dest: get_sound)

lemma option_get_put: "pred_option ok x \<Longrightarrow> transpose_opt get (map_option put x) = Inr x"
  by (cases x) (simp_all add: get_put)

end

lemma digits_shape: "digits n \<noteq> [] \<and> list_all is_digit (digits n)"
proof (induction n rule: digits.induct)
  case (1 n)
  have d: "is_digit (of_nat (48 + k))" if "k < 10" for k
    using that by (simp add: is_digit_def word_le_nat_alt del: of_nat_add)
  have "n mod 10 < 10"
    by simp
  then show ?case
    using 1 d by (subst digits.simps, subst (2) digits.simps) (auto simp del: of_nat_add)
qed

lemma digits_value: "foldl (\<lambda>acc b. acc * 10 + (unat b - 48)) 0 (digits n) = n"
proof (induction n rule: digits.induct)
  case (1 n)
  have d: "unat (of_nat (48 + k) :: u8) - 48 = k" if "k < 10" for k
    using that by (simp add: unat_of_nat del: of_nat_add)
  show ?case
    using 1 d [of n] d [of "n mod 10"] by (subst digits.simps) (simp del: of_nat_add)
qed

lemma parse_digits_round: "parse_digits (digits n) = Some n"
  using digits_shape [of n] digits_value [of n] by (simp add: parse_digits_def)

lemma digits_no_sign: "take 1 (digits n) \<noteq> [43] \<and> take 1 (digits n) \<noteq> [45]"
  using digits_shape [of n] by (cases "digits n") (auto simp: is_digit_def)

interpretation decimal_u64_field: field_codec u64_to_string decimal_u64 "\<lambda>_. True"
proof
  show "decimal_u64 (u64_to_string x) = Inr x" for x
    using digits_no_sign [of "unat x"] unat_bound [of x]
    by (simp add: decimal_u64_def parse_u64_def u64_to_string_def parse_digits_round)
qed (auto simp: decimal_u64_def rust_simps split: if_splits)

lemma parse_i64_range: "parse_i64 s = Some x \<Longrightarrow> is_i64 x"
  by (auto simp: parse_i64_def split: if_splits option.splits)

interpretation decimal_i64_field: field_codec i64_to_string decimal_i64 is_i64
proof
  show "decimal_i64 (i64_to_string x) = Inr x" if "is_i64 x" for x
    using that digits_no_sign [of "nat x"]
    by (auto simp: decimal_i64_def parse_i64_def i64_to_string_def parse_digits_round)
qed (auto simp: decimal_i64_def rust_simps parse_i64_range split: if_splits)

interpretation hex_field: field_codec encode_hex "decode_hex n" "\<lambda>bs. length bs = n" for n
  by unfold_locales (auto simp: decode_hex_Inr)

subsection \<open>Records of fields\<close>

definition root_wf :: "root_ref \<Rightarrow> bool" where
  "root_wf r \<longleftrightarrow> length (digest_bytes (rr_digest r)) = 32"

definition owner_wf :: "owner \<Rightarrow> bool" where
  "owner_wf w \<longleftrightarrow> length (session_bytes (ow_session w)) = 16"

definition binding_wf :: "bundle_binding_ref \<Rightarrow> bool" where
  "binding_wf b \<longleftrightarrow> length (session_bytes (bb_session b)) = 16 \<and> length (digest_bytes (bb_digest b)) = 32"

definition overlay_wf :: "recovery_overlay_ref \<Rightarrow> bool" where
  "overlay_wf r \<longleftrightarrow> length (session_bytes (ro_leader_session r)) = 16
     \<and> length (digest_bytes (ro_manifest_digest r)) = 32 \<and> root_wf (ro_predecessor r)"

definition control_wf :: "control \<Rightarrow> bool" where
  "control_wf c \<longleftrightarrow> length (cell_bytes (c_cell c)) = 32
     \<and> length (incarnation_bytes (c_incarnation c)) = 16 \<and> length (digest_bytes (c_code c)) = 32
     \<and> pred_option owner_wf (c_owner c) \<and> pred_option root_wf (c_root c)
     \<and> pred_option overlay_wf (c_recovery c) \<and> pred_option binding_wf (c_bundle_binding c)
     \<and> pred_option is_i64 (c_next_due_ms c)"

lemmas field_sound = hex_field.get_sound decimal_u64_field.get_sound decimal_i64_field.get_sound

lemmas field_put = hex_field.get_put decimal_u64_field.get_put decimal_i64_field.get_put

interpretation root_field: field_codec raw_root_from root_try_from root_wf
proof
  show "root_try_from (raw_root_from x) = Inr x" if "root_wf x" for x
    using that by (simp add: root_try_from_def raw_root_from_def root_wf_def field_put)
  show "root_wf x \<and> y = raw_root_from x" if "root_try_from y = Inr x" for x y
    using that by (auto simp: root_try_from_def raw_root_from_def root_wf_def bind_r_Inr
        u64_be_round' dest!: field_sound)
qed

interpretation owner_field: field_codec raw_owner_from owner_try_from owner_wf
proof
  show "owner_try_from (raw_owner_from x) = Inr x" if "owner_wf x" for x
    using that by (simp add: owner_try_from_def raw_owner_from_def owner_wf_def field_put)
  show "owner_wf x \<and> y = raw_owner_from x" if "owner_try_from y = Inr x" for x y
    using that by (auto simp: owner_try_from_def raw_owner_from_def owner_wf_def bind_r_Inr
        dest!: field_sound)
qed

interpretation binding_field: field_codec raw_binding_from binding_try_from binding_wf
proof
  show "binding_try_from (raw_binding_from x) = Inr x" if "binding_wf x" for x
    using that by (simp add: binding_try_from_def raw_binding_from_def binding_wf_def field_put)
  show "binding_wf x \<and> y = raw_binding_from x" if "binding_try_from y = Inr x" for x y
    using that by (auto simp: binding_try_from_def raw_binding_from_def binding_wf_def bind_r_Inr
        dest!: field_sound)
qed

interpretation overlay_field: field_codec raw_overlay_from overlay_try_from overlay_wf
proof
  show "overlay_try_from (raw_overlay_from x) = Inr x" if "overlay_wf x" for x
    using that by (simp add: overlay_try_from_def raw_overlay_from_def overlay_wf_def field_put
        root_field.get_put)
  show "overlay_wf x \<and> y = raw_overlay_from x" if "overlay_try_from y = Inr x" for x y
    using that by (auto simp: overlay_try_from_def raw_overlay_from_def overlay_wf_def bind_r_Inr
        u64_be_round' dest!: field_sound root_field.get_sound)
qed

interpretation control_field: field_codec raw_from control_try_from control_wf
proof
  show "control_try_from (raw_from x) = Inr x" if "control_wf x" for x
    using that by (simp add: control_try_from_def raw_from_def control_wf_def field_put
        root_field.option_get_put owner_field.option_get_put binding_field.option_get_put
        overlay_field.option_get_put decimal_i64_field.option_get_put)
  show "control_wf x \<and> y = raw_from x" if "control_try_from y = Inr x" for x y
    using that by (auto simp: control_try_from_def raw_from_def control_wf_def bind_r_Inr
        dest!: field_sound root_field.option_sound owner_field.option_sound
        binding_field.option_sound overlay_field.option_sound decimal_i64_field.option_sound
        split: if_splits)
qed

subsection \<open>Properties\<close>

text \<open>
  C17: The persisted form round-trips and is unique. If the JSON parser reads back what the JSON
  printer wrote, then a stored body decodes to a control record exactly when encoding that
  record produces that body; both require the record to be valid and the body to be at most
  8 KiB.
\<close>

theorem control_codec_roundtrip:
  assumes "\<And>raw bs. to_vec raw = Some bs \<Longrightarrow> from_slice bs = Some raw" and "control_wf c"
  shows "control_decode to_vec from_slice bs = Inr c \<longleftrightarrow> control_encode to_vec c = Inr bs"
proof
  assume "control_decode to_vec from_slice bs = Inr c"
  then show "control_encode to_vec c = Inr bs"
    by (auto simp: control_decode_def rust_simps split: if_splits)
next
  assume h: "control_encode to_vec c = Inr bs"
  then have "validate c = Inr ()" "to_vec (raw_from c) = Some bs" "length bs \<le> MAX_CONTROL_BYTES"
    by (auto simp: control_encode_def rust_simps split: if_splits)
  then show "control_decode to_vec from_slice bs = Inr c"
    using h assms by (simp add: control_decode_def control_field.get_put)
qed

theorem control_codec_roundtrip_witness:
  "let to_vec = (\<lambda>raw. if raw = raw_from sample_control then Some [0x7b, 0x7d] else None);
       from_slice = (\<lambda>bs. if bs = [0x7b, 0x7d] then Some (raw_from sample_control) else None)
   in control_decode to_vec from_slice [0x7b, 0x7d] = Inr sample_control"
proof -
  let ?t = "\<lambda>raw. if raw = raw_from sample_control then Some [0x7b, 0x7d] else None"
  let ?f = "\<lambda>bs. if bs = [0x7b, 0x7d] then Some (raw_from sample_control) else None"
  have law: "?f bs = Some raw" if "?t raw = Some bs" for raw bs
    using that by (auto split: if_splits)
  have wf: "control_wf sample_control"
    by (simp add: control_wf_def sample_control_def owner_wf_def root_wf_def sample_owner_def
        sample_root_def)
  have "validate sample_control = Inr ()"
    by code_simp
  then have "control_encode ?t sample_control = Inr [0x7b, 0x7d]"
    by (simp add: control_encode_def MAX_CONTROL_BYTES_def)
  then show ?thesis
    unfolding Let_def
    using control_codec_roundtrip [of ?t ?f sample_control "[0x7b, 0x7d]"] law wf by blast
qed

end
