(* ===== verification/Resource_Ledger.thy ===== *)
theory Resource_Ledger
  imports Rust_Order
begin

text \<open>
  The node resource ledger,
      \<^verbatim>\<open>crates/cellule-runtime/src/fleet/resource.rs\<close>: the fourteen-dimensional
  cost, its checked arithmetic, the locked snapshot with its limits, reservation with its headroom
  rules, and what happens to a reservation until it is dropped. Every operation holds the ledger's
  mutex for its whole body, so a concurrent execution is a sequence of these operations. The
  ledger's state here is the snapshot together with the reservations that are alive; a Rust
  reservation is owned and dropped exactly once, which is its removal from that list.

  Waiting for capacity (\<^verbatim>\<open>reserve\<close>) retries \<open>try_reserve_in\<close> on every release and is not modelled
  further; a poisoned mutex is not modelled.
\<close>

subsection \<open>Costs\<close>

record resource_cost =
  rs_active_cells :: usize
  rs_resident_bytes :: usize
  rs_file_descriptors :: usize
  rs_publication_file_descriptors :: usize
  rs_retained_bytes :: usize
  rs_disk_bytes :: u64
  rs_worker_jobs :: usize
  rs_primitive_jobs :: usize
  rs_hydration_jobs :: usize
  rs_io_slots :: usize
  rs_blocking_jobs :: usize
  rs_recovery_jobs :: usize
  rs_dirty_jobs :: usize
  rs_scratch_units :: usize

definition cost_zero :: resource_cost where
  "cost_zero = \<lparr>rs_active_cells = 0, rs_resident_bytes = 0, rs_file_descriptors = 0,
      rs_publication_file_descriptors = 0, rs_retained_bytes = 0, rs_disk_bytes = 0,
      rs_worker_jobs = 0, rs_primitive_jobs = 0, rs_hydration_jobs = 0, rs_io_slots = 0,
      rs_blocking_jobs = 0, rs_recovery_jobs = 0, rs_dirty_jobs = 0, rs_scratch_units = 0\<rparr>"

definition ACTIVE_CELL_NATIVE_BYTES :: usize where
  "ACTIVE_CELL_NATIVE_BYTES = 128 * 1024 + 4 * (512 * 16)"

definition ACTIVE_CELL_FILE_DESCRIPTORS :: usize where
  "ACTIVE_CELL_FILE_DESCRIPTORS = 11"

definition active_cell :: resource_cost where
  "active_cell = cost_zero\<lparr>rs_active_cells := 1, rs_resident_bytes := ACTIVE_CELL_NATIVE_BYTES,
     rs_file_descriptors := ACTIVE_CELL_FILE_DESCRIPTORS\<rparr>"

text \<open>The fourteen dimensions, so that arithmetic is stated once for all of them.\<close>

datatype dim =
    ActiveCells | ResidentBytes | FileDescriptors | PublicationFileDescriptors | RetainedBytes | DiskBytes | WorkerJobs
  | PrimitiveJobs | HydrationJobs | IoSlots | BlockingJobs | RecoveryJobs | DirtyJobs | ScratchUnits

fun field :: "dim \<Rightarrow> resource_cost \<Rightarrow> u64" where
  "field ActiveCells c = rs_active_cells c"
| "field ResidentBytes c = rs_resident_bytes c"
| "field FileDescriptors c = rs_file_descriptors c"
| "field PublicationFileDescriptors c = rs_publication_file_descriptors c"
| "field RetainedBytes c = rs_retained_bytes c"
| "field DiskBytes c = rs_disk_bytes c"
| "field WorkerJobs c = rs_worker_jobs c"
| "field PrimitiveJobs c = rs_primitive_jobs c"
| "field HydrationJobs c = rs_hydration_jobs c"
| "field IoSlots c = rs_io_slots c"
| "field BlockingJobs c = rs_blocking_jobs c"
| "field RecoveryJobs c = rs_recovery_jobs c"
| "field DirtyJobs c = rs_dirty_jobs c"
| "field ScratchUnits c = rs_scratch_units c"

definition cost_checked_add :: "resource_cost \<Rightarrow> resource_cost \<Rightarrow> resource_cost option" where
  "cost_checked_add a b =
     (case checked_add (rs_active_cells a) (rs_active_cells b) of None \<Rightarrow> None | Some v0 \<Rightarrow>
     (case checked_add (rs_resident_bytes a) (rs_resident_bytes b) of None \<Rightarrow> None | Some v1 \<Rightarrow>
     (case checked_add (rs_file_descriptors a) (rs_file_descriptors b) of None \<Rightarrow> None | Some v2 \<Rightarrow>
     (case checked_add (rs_publication_file_descriptors a) (rs_publication_file_descriptors b) of None \<Rightarrow> None | Some v3 \<Rightarrow>
     (case checked_add (rs_retained_bytes a) (rs_retained_bytes b) of None \<Rightarrow> None | Some v4 \<Rightarrow>
     (case checked_add (rs_disk_bytes a) (rs_disk_bytes b) of None \<Rightarrow> None | Some v5 \<Rightarrow>
     (case checked_add (rs_worker_jobs a) (rs_worker_jobs b) of None \<Rightarrow> None | Some v6 \<Rightarrow>
     (case checked_add (rs_primitive_jobs a) (rs_primitive_jobs b) of None \<Rightarrow> None | Some v7 \<Rightarrow>
     (case checked_add (rs_hydration_jobs a) (rs_hydration_jobs b) of None \<Rightarrow> None | Some v8 \<Rightarrow>
     (case checked_add (rs_io_slots a) (rs_io_slots b) of None \<Rightarrow> None | Some v9 \<Rightarrow>
     (case checked_add (rs_blocking_jobs a) (rs_blocking_jobs b) of None \<Rightarrow> None | Some v10 \<Rightarrow>
     (case checked_add (rs_recovery_jobs a) (rs_recovery_jobs b) of None \<Rightarrow> None | Some v11 \<Rightarrow>
     (case checked_add (rs_dirty_jobs a) (rs_dirty_jobs b) of None \<Rightarrow> None | Some v12 \<Rightarrow>
     (case checked_add (rs_scratch_units a) (rs_scratch_units b) of None \<Rightarrow> None | Some v13 \<Rightarrow>
     Some \<lparr>rs_active_cells = v0, rs_resident_bytes = v1, rs_file_descriptors = v2,
      rs_publication_file_descriptors = v3, rs_retained_bytes = v4, rs_disk_bytes = v5,
      rs_worker_jobs = v6, rs_primitive_jobs = v7, rs_hydration_jobs = v8, rs_io_slots = v9,
      rs_blocking_jobs = v10, rs_recovery_jobs = v11, rs_dirty_jobs = v12,
      rs_scratch_units = v13\<rparr>))))))))))))))"

definition cost_checked_sub :: "resource_cost \<Rightarrow> resource_cost \<Rightarrow> resource_cost option" where
  "cost_checked_sub a b =
     (case checked_sub (rs_active_cells a) (rs_active_cells b) of None \<Rightarrow> None | Some v0 \<Rightarrow>
     (case checked_sub (rs_resident_bytes a) (rs_resident_bytes b) of None \<Rightarrow> None | Some v1 \<Rightarrow>
     (case checked_sub (rs_file_descriptors a) (rs_file_descriptors b) of None \<Rightarrow> None | Some v2 \<Rightarrow>
     (case checked_sub (rs_publication_file_descriptors a) (rs_publication_file_descriptors b) of None \<Rightarrow> None | Some v3 \<Rightarrow>
     (case checked_sub (rs_retained_bytes a) (rs_retained_bytes b) of None \<Rightarrow> None | Some v4 \<Rightarrow>
     (case checked_sub (rs_disk_bytes a) (rs_disk_bytes b) of None \<Rightarrow> None | Some v5 \<Rightarrow>
     (case checked_sub (rs_worker_jobs a) (rs_worker_jobs b) of None \<Rightarrow> None | Some v6 \<Rightarrow>
     (case checked_sub (rs_primitive_jobs a) (rs_primitive_jobs b) of None \<Rightarrow> None | Some v7 \<Rightarrow>
     (case checked_sub (rs_hydration_jobs a) (rs_hydration_jobs b) of None \<Rightarrow> None | Some v8 \<Rightarrow>
     (case checked_sub (rs_io_slots a) (rs_io_slots b) of None \<Rightarrow> None | Some v9 \<Rightarrow>
     (case checked_sub (rs_blocking_jobs a) (rs_blocking_jobs b) of None \<Rightarrow> None | Some v10 \<Rightarrow>
     (case checked_sub (rs_recovery_jobs a) (rs_recovery_jobs b) of None \<Rightarrow> None | Some v11 \<Rightarrow>
     (case checked_sub (rs_dirty_jobs a) (rs_dirty_jobs b) of None \<Rightarrow> None | Some v12 \<Rightarrow>
     (case checked_sub (rs_scratch_units a) (rs_scratch_units b) of None \<Rightarrow> None | Some v13 \<Rightarrow>
     Some \<lparr>rs_active_cells = v0, rs_resident_bytes = v1, rs_file_descriptors = v2,
      rs_publication_file_descriptors = v3, rs_retained_bytes = v4, rs_disk_bytes = v5,
      rs_worker_jobs = v6, rs_primitive_jobs = v7, rs_hydration_jobs = v8, rs_io_slots = v9,
      rs_blocking_jobs = v10, rs_recovery_jobs = v11, rs_dirty_jobs = v12,
      rs_scratch_units = v13\<rparr>))))))))))))))"

definition fits_within :: "resource_cost \<Rightarrow> resource_cost \<Rightarrow> bool" where
  "fits_within a limit \<longleftrightarrow>
     rs_active_cells a \<le> rs_active_cells limit
     \<and> rs_resident_bytes a \<le> rs_resident_bytes limit
     \<and> rs_file_descriptors a \<le> rs_file_descriptors limit
     \<and> rs_publication_file_descriptors a \<le> rs_publication_file_descriptors limit
     \<and> rs_retained_bytes a \<le> rs_retained_bytes limit
     \<and> rs_disk_bytes a \<le> rs_disk_bytes limit
     \<and> rs_worker_jobs a \<le> rs_worker_jobs limit
     \<and> rs_primitive_jobs a \<le> rs_primitive_jobs limit
     \<and> rs_hydration_jobs a \<le> rs_hydration_jobs limit
     \<and> rs_io_slots a \<le> rs_io_slots limit
     \<and> rs_blocking_jobs a \<le> rs_blocking_jobs limit
     \<and> rs_recovery_jobs a \<le> rs_recovery_jobs limit
     \<and> rs_dirty_jobs a \<le> rs_dirty_jobs limit
     \<and> rs_scratch_units a \<le> rs_scratch_units limit"

definition file_descriptors :: "resource_cost \<Rightarrow> usize" where
  "file_descriptors c = saturating_add (rs_file_descriptors c) (rs_publication_file_descriptors c)"

subsection \<open>The ledger\<close>

datatype retention_stage =
  Other | Request | Capture | Publisher | Pipeline | Selection | Materialization

fun stage_index :: "retention_stage \<Rightarrow> nat" where
  "stage_index Other = 0"
| "stage_index Request = 1"
| "stage_index Capture = 2"
| "stage_index Publisher = 3"
| "stage_index Pipeline = 4"
| "stage_index Selection = 5"
| "stage_index Materialization = 6"

record resource_snapshot =
  sn_used :: resource_cost
  sn_limit :: resource_cost
  sn_retained_by_stage :: "usize list"
  sn_working_materializations :: usize

datatype working_admission = Unrestricted | Optional | Materialization_work

record resource_reservation =
  rsv_cost :: resource_cost
  rsv_stage :: retention_stage
  rsv_working :: bool

definition retained_admission_threshold :: "usize \<Rightarrow> usize" where
  "retained_admission_threshold limit = saturating_sub limit (limit div 4)"

definition publication_working_threshold :: "usize \<Rightarrow> usize" where
  "publication_working_threshold limit =
     saturating_sub (retained_admission_threshold limit) (limit div 8)"

definition snapshot_new :: "resource_cost \<Rightarrow> resource_snapshot" where
  "snapshot_new limit = \<lparr>sn_used = cost_zero, sn_limit = limit,
     sn_retained_by_stage = replicate 7 0, sn_working_materializations = 0\<rparr>"

definition try_reserve_inner ::
  "resource_snapshot \<Rightarrow> retention_stage \<Rightarrow> resource_cost \<Rightarrow> working_admission
     \<Rightarrow> (resource_snapshot \<times> resource_reservation) result" where
  "try_reserve_inner st stage cost admission =
     bind_r (ok_or (Capacity ''resource ledger arithmetic'') (cost_checked_add (sn_used st) cost)) (\<lambda>next.
     if \<not> fits_within next (sn_limit st) then Inl (Capacity ''resource ledger'') else
     let working = (admission = Materialization_work);
         preserve_headroom = (case admission of Unrestricted \<Rightarrow> False | Optional \<Rightarrow> True
           | Materialization_work \<Rightarrow> sn_working_materializations st \<noteq> 0)
     in
     if preserve_headroom
        \<and> rs_retained_bytes next \<ge> publication_working_threshold (rs_retained_bytes (sn_limit st))
     then Inl (Capacity (if stage = Materialization then ''root materialization headroom''
                         else ''bundle pipeline headroom''))
     else
     bind_r (ok_or (Capacity ''materialization admission arithmetic'')
       (checked_add (sn_working_materializations st) (if working then 1 else 0))) (\<lambda>materializations.
     Inr (st\<lparr>sn_used := next, sn_working_materializations := materializations,
             sn_retained_by_stage := (sn_retained_by_stage st)[stage_index stage :=
               sn_retained_by_stage st ! stage_index stage + rs_retained_bytes cost]\<rparr>,
          \<lparr>rsv_cost = cost, rsv_stage = stage, rsv_working = working\<rparr>)))"

definition try_reserve_in ::
  "resource_snapshot \<Rightarrow> retention_stage \<Rightarrow> resource_cost
     \<Rightarrow> (resource_snapshot \<times> resource_reservation) result" where
  "try_reserve_in st stage cost = try_reserve_inner st stage cost Unrestricted"

definition try_reserve ::
  "resource_snapshot \<Rightarrow> resource_cost \<Rightarrow> (resource_snapshot \<times> resource_reservation) result" where
  "try_reserve st cost = try_reserve_in st Other cost"

definition try_reserve_pipeline ::
  "resource_snapshot \<Rightarrow> resource_cost \<Rightarrow> (resource_snapshot \<times> resource_reservation) result" where
  "try_reserve_pipeline st cost = try_reserve_inner st Pipeline cost Optional"

definition try_reserve_materialization ::
  "resource_snapshot \<Rightarrow> resource_cost \<Rightarrow> (resource_snapshot \<times> resource_reservation) result" where
  "try_reserve_materialization st cost =
     try_reserve_inner st Materialization cost Materialization_work"

text \<open>The LTX host's admission: one dimension per kind of host resource.\<close>

datatype host_resource_kind = Host_Io | Host_BlockingJob | Host_Recovery | Host_Dirty | Host_Scratch

fun host_cost :: "host_resource_kind \<Rightarrow> usize \<Rightarrow> resource_cost" where
  "host_cost Host_Io n = cost_zero\<lparr>rs_io_slots := n\<rparr>"
| "host_cost Host_BlockingJob n = cost_zero\<lparr>rs_blocking_jobs := n\<rparr>"
| "host_cost Host_Recovery n = cost_zero\<lparr>rs_recovery_jobs := n\<rparr>"
| "host_cost Host_Dirty n = cost_zero\<lparr>rs_dirty_jobs := n\<rparr>"
| "host_cost Host_Scratch n = cost_zero\<lparr>rs_scratch_units := n\<rparr>"

definition host_reserve ::
  "resource_snapshot \<Rightarrow> host_resource_kind \<Rightarrow> u32 \<Rightarrow> (resource_snapshot \<times> resource_reservation) result" where
  "host_reserve st kind units = try_reserve st (host_cost kind (ucast units))"

definition materialization_headroom :: "resource_snapshot \<Rightarrow> usize \<times> bool" where
  "materialization_headroom st =
     (saturating_sub (publication_working_threshold (rs_retained_bytes (sn_limit st)))
        (rs_retained_bytes (sn_used st)),
      sn_working_materializations st \<noteq> 0)"

definition set_retained_limit :: "resource_snapshot \<Rightarrow> usize \<Rightarrow> resource_snapshot result" where
  "set_retained_limit st bs =
     (if rs_retained_bytes (sn_used st) > bs then Inl (Capacity ''resource ledger retained bytes'')
      else Inr (st\<lparr>sn_limit := (sn_limit st)\<lparr>rs_retained_bytes := bs\<rparr>\<rparr>))"

definition set_resident_limit :: "resource_snapshot \<Rightarrow> usize \<Rightarrow> resource_snapshot result" where
  "set_resident_limit st bs =
     (if bs = 0 \<or> rs_resident_bytes (sn_used st) > bs
      then Inl (Capacity ''resource ledger resident bytes'')
      else Inr (st\<lparr>sn_limit := (sn_limit st)\<lparr>rs_resident_bytes := bs\<rparr>\<rparr>))"

definition set_disk_limit :: "resource_snapshot \<Rightarrow> u64 \<Rightarrow> resource_snapshot result" where
  "set_disk_limit st bs =
     (if rs_disk_bytes (sn_used st) > bs then Inl (Capacity ''resource ledger disk bytes'')
      else Inr (st\<lparr>sn_limit := (sn_limit st)\<lparr>rs_disk_bytes := bs\<rparr>\<rparr>))"

definition set_host_limits ::
  "resource_snapshot \<Rightarrow> usize \<Rightarrow> usize \<Rightarrow> usize \<Rightarrow> usize \<Rightarrow> usize \<Rightarrow> resource_snapshot result" where
  "set_host_limits st io blocking recovery dirty scratch =
     (let limit = (sn_limit st)\<lparr>rs_io_slots := io, rs_blocking_jobs := blocking,
            rs_recovery_jobs := recovery, rs_dirty_jobs := dirty, rs_scratch_units := scratch\<rparr>
      in if \<not> fits_within (sn_used st) limit then Inl (Capacity ''resource ledger host limits'')
         else Inr (st\<lparr>sn_limit := limit\<rparr>))"

definition reconcile_disk :: "resource_snapshot \<Rightarrow> u64 \<Rightarrow> resource_snapshot result" where
  "reconcile_disk st bs =
     (let used = (sn_used st)\<lparr>rs_disk_bytes := bs\<rparr>
      in if \<not> fits_within used (sn_limit st) then Inl (Capacity ''resource ledger'')
         else Inr (st\<lparr>sn_used := used\<rparr>))"

text \<open>A release that would underflow changes nothing.\<close>

definition release_cost ::
  "resource_snapshot \<Rightarrow> retention_stage \<Rightarrow> resource_cost \<Rightarrow> bool \<Rightarrow> resource_snapshot" where
  "release_cost st stage cost working =
     (case cost_checked_sub (sn_used st) cost of None \<Rightarrow> st
      | Some used \<Rightarrow>
        (case checked_sub (sn_working_materializations st) (if working then 1 else 0) of None \<Rightarrow> st
         | Some materializations \<Rightarrow>
           st\<lparr>sn_used := used, sn_working_materializations := materializations,
              sn_retained_by_stage := (sn_retained_by_stage st)[stage_index stage :=
                sn_retained_by_stage st ! stage_index stage - rs_retained_bytes cost]\<rparr>))"

definition set_stage ::
  "resource_snapshot \<Rightarrow> resource_reservation \<Rightarrow> retention_stage
     \<Rightarrow> resource_snapshot \<times> resource_reservation" where
  "set_stage st r stage =
     (if stage \<noteq> rsv_stage r then
        let from = stage_index (rsv_stage r); to = stage_index stage;
            b = rs_retained_bytes (rsv_cost r);
            taken = (sn_retained_by_stage st)[from := sn_retained_by_stage st ! from - b]
        in (st\<lparr>sn_retained_by_stage := taken[to := taken ! to + b]\<rparr>, r\<lparr>rsv_stage := stage\<rparr>)
      else (st, r))"

definition split_retained ::
  "resource_reservation \<Rightarrow> usize \<Rightarrow> (resource_reservation \<times> resource_reservation) result" where
  "split_retained r bs =
     bind_r (ok_or (Capacity ''retained transfer exceeds admission'')
       (checked_sub (rs_retained_bytes (rsv_cost r)) bs)) (\<lambda>remaining.
     Inr (r\<lparr>rsv_cost := (rsv_cost r)\<lparr>rs_retained_bytes := remaining\<rparr>\<rparr>,
          \<lparr>rsv_cost = cost_zero\<lparr>rs_retained_bytes := bs\<rparr>, rsv_stage = rsv_stage r,
           rsv_working = False\<rparr>))"

definition shrink_retained ::
  "resource_snapshot \<Rightarrow> resource_reservation \<Rightarrow> usize
     \<Rightarrow> (resource_snapshot \<times> resource_reservation) result" where
  "shrink_retained st r bs =
     bind_r (ok_or (Capacity ''capture cleanup cannot grow admission'')
       (checked_sub (rs_retained_bytes (rsv_cost r)) bs)) (\<lambda>released.
     Inr (release_cost st (rsv_stage r) (cost_zero\<lparr>rs_retained_bytes := released\<rparr>) False,
          r\<lparr>rsv_cost := (rsv_cost r)\<lparr>rs_retained_bytes := bs\<rparr>\<rparr>))"

definition drop_reservation :: "resource_snapshot \<Rightarrow> resource_reservation \<Rightarrow> resource_snapshot" where
  "drop_reservation st r = release_cost st (rsv_stage r) (rsv_cost r) (rsv_working r)"

subsection \<open>Executions\<close>

record ledger =
  lg_snapshot :: resource_snapshot
  lg_live :: "resource_reservation list"

definition ledger_new :: "resource_cost \<Rightarrow> ledger" where
  "ledger_new limit = \<lparr>lg_snapshot = snapshot_new limit, lg_live = []\<rparr>"

text \<open>
  One critical section. Reservations carry no disk bytes: scratch disk is only ever charged by
  reconciliation with the disk budget, and no caller sets a reservation's disk dimension.
\<close>

inductive ledger_step :: "ledger \<Rightarrow> ledger \<Rightarrow> bool" where
  reserve: "try_reserve_inner (lg_snapshot l) stage cost admission = Inr (st, r) \<Longrightarrow>
     rs_disk_bytes cost = 0 \<Longrightarrow>
     ledger_step l (l\<lparr>lg_snapshot := st, lg_live := r # lg_live l\<rparr>)"
| retained_limit: "set_retained_limit (lg_snapshot l) n = Inr st \<Longrightarrow>
     ledger_step l (l\<lparr>lg_snapshot := st\<rparr>)"
| resident_limit: "set_resident_limit (lg_snapshot l) n = Inr st \<Longrightarrow>
     ledger_step l (l\<lparr>lg_snapshot := st\<rparr>)"
| disk_limit: "set_disk_limit (lg_snapshot l) n = Inr st \<Longrightarrow> ledger_step l (l\<lparr>lg_snapshot := st\<rparr>)"
| host_limits: "set_host_limits (lg_snapshot l) a b c d e = Inr st \<Longrightarrow>
     ledger_step l (l\<lparr>lg_snapshot := st\<rparr>)"
| reconcile: "reconcile_disk (lg_snapshot l) n = Inr st \<Longrightarrow> ledger_step l (l\<lparr>lg_snapshot := st\<rparr>)"
| restage: "lg_live l = xs @ r # ys \<Longrightarrow> set_stage (lg_snapshot l) r stage = (st, r') \<Longrightarrow>
     ledger_step l (l\<lparr>lg_snapshot := st, lg_live := xs @ r' # ys\<rparr>)"
| split: "lg_live l = xs @ r # ys \<Longrightarrow> split_retained r n = Inr (r1, r2) \<Longrightarrow>
     ledger_step l (l\<lparr>lg_live := xs @ r1 # r2 # ys\<rparr>)"
| shrink: "lg_live l = xs @ r # ys \<Longrightarrow> shrink_retained (lg_snapshot l) r n = Inr (st, r') \<Longrightarrow>
     ledger_step l (l\<lparr>lg_snapshot := st, lg_live := xs @ r' # ys\<rparr>)"
| drop: "lg_live l = xs @ r # ys \<Longrightarrow>
     ledger_step l (l\<lparr>lg_snapshot := drop_reservation (lg_snapshot l) r, lg_live := xs @ ys\<rparr>)"

subsection \<open>Arithmetic of costs\<close>

lemma cost_checked_add_Some:
  "cost_checked_add a b = Some c \<longleftrightarrow> (\<forall>d. unat (field d c) = unat (field d a) + unat (field d b))"
proof
  show "cost_checked_add a b = Some c \<Longrightarrow>
      \<forall>d. unat (field d c) = unat (field d a) + unat (field d b)"
    by (rule allI, case_tac d)
      (auto simp: cost_checked_add_def checked_add_Some split: option.splits)
next
  assume h: "\<forall>d. unat (field d c) = unat (field d a) + unat (field d b)"
  have "checked_add (field d a) (field d b) = Some (field d c)" for d
    using h by (simp add: checked_add_Some)
  from this [of ActiveCells] this [of ResidentBytes] this [of FileDescriptors]
    this [of PublicationFileDescriptors] this [of RetainedBytes] this [of DiskBytes]
    this [of WorkerJobs] this [of PrimitiveJobs] this [of HydrationJobs] this [of IoSlots]
    this [of BlockingJobs] this [of RecoveryJobs] this [of DirtyJobs] this [of ScratchUnits]
  show "cost_checked_add a b = Some c"
    by (simp add: cost_checked_add_def)
qed

lemma cost_checked_sub_Some:
  "cost_checked_sub a b = Some c \<longleftrightarrow> (\<forall>d. unat (field d a) = unat (field d b) + unat (field d c))"
proof
  show "cost_checked_sub a b = Some c \<Longrightarrow>
      \<forall>d. unat (field d a) = unat (field d b) + unat (field d c)"
    by (rule allI, case_tac d)
      (auto simp: cost_checked_sub_def checked_sub_Some split: option.splits)
next
  assume h: "\<forall>d. unat (field d a) = unat (field d b) + unat (field d c)"
  have "checked_sub (field d a) (field d b) = Some (field d c)" for d
    using h by (simp add: checked_sub_Some)
  from this [of ActiveCells] this [of ResidentBytes] this [of FileDescriptors]
    this [of PublicationFileDescriptors] this [of RetainedBytes] this [of DiskBytes]
    this [of WorkerJobs] this [of PrimitiveJobs] this [of HydrationJobs] this [of IoSlots]
    this [of BlockingJobs] this [of RecoveryJobs] this [of DirtyJobs] this [of ScratchUnits]
  show "cost_checked_sub a b = Some c"
    by (simp add: cost_checked_sub_def)
qed

lemma cost_checked_sub_defined:
  assumes "\<And>d. unat (field d b) \<le> unat (field d a)"
  shows "\<exists>c. cost_checked_sub a b = Some c"
proof -
  have "checked_sub (field d a) (field d b) = Some (field d a - field d b)" for d
    using assms [of d] by (simp add: checked_sub_def word_le_nat_alt)
  from this [of ActiveCells] this [of ResidentBytes] this [of FileDescriptors]
    this [of PublicationFileDescriptors] this [of RetainedBytes] this [of DiskBytes]
    this [of WorkerJobs] this [of PrimitiveJobs] this [of HydrationJobs] this [of IoSlots]
    this [of BlockingJobs] this [of RecoveryJobs] this [of DirtyJobs] this [of ScratchUnits]
  show ?thesis
    by (simp add: cost_checked_sub_def)
qed

lemma fits_within_iff: "fits_within a l \<longleftrightarrow> (\<forall>d. field d a \<le> field d l)"
proof
  show "fits_within a l \<Longrightarrow> \<forall>d. field d a \<le> field d l"
    by (rule allI, case_tac d) (simp_all add: fits_within_def)
next
  assume h: "\<forall>d. field d a \<le> field d l"
  from h [rule_format, of ActiveCells] h [rule_format, of ResidentBytes] h [rule_format,
      of FileDescriptors] h [rule_format, of PublicationFileDescriptors] h [rule_format,
      of RetainedBytes] h [rule_format, of DiskBytes] h [rule_format, of WorkerJobs] h [rule_format,
      of PrimitiveJobs] h [rule_format, of HydrationJobs] h [rule_format, of IoSlots] h [rule_format,
      of BlockingJobs] h [rule_format, of RecoveryJobs] h [rule_format, of DirtyJobs] h [rule_format,
      of ScratchUnits]
  show "fits_within a l"
    by (simp add: fits_within_def)
qed

lemma cost_eqI: "(\<And>d. field d a = field d b) \<Longrightarrow> a = b"
proof -
  assume h: "\<And>d. field d a = field d b"
  from h [of ActiveCells] h [of ResidentBytes] h [of FileDescriptors]
    h [of PublicationFileDescriptors] h [of RetainedBytes] h [of DiskBytes] h [of WorkerJobs]
    h [of PrimitiveJobs] h [of HydrationJobs] h [of IoSlots] h [of BlockingJobs]
    h [of RecoveryJobs] h [of DirtyJobs] h [of ScratchUnits]
  show "a = b"
    by simp
qed

subsection \<open>The accounting invariant\<close>

definition usage :: "dim \<Rightarrow> resource_reservation list \<Rightarrow> nat" where
  "usage d rs = sum_list (map (\<lambda>r. unat (field d (rsv_cost r))) rs)"

definition staged :: "retention_stage \<Rightarrow> resource_reservation list \<Rightarrow> nat" where
  "staged k rs =
     sum_list (map (\<lambda>r. if rsv_stage r = k then unat (rs_retained_bytes (rsv_cost r)) else 0) rs)"

definition workers :: "resource_reservation list \<Rightarrow> nat" where
  "workers rs = length (filter rsv_working rs)"

definition accounts :: "resource_snapshot \<Rightarrow> resource_reservation list \<Rightarrow> bool" where
  "accounts st rs \<longleftrightarrow> fits_within (sn_used st) (sn_limit st)
     \<and> (\<forall>d. d \<noteq> DiskBytes \<longrightarrow> unat (field d (sn_used st)) = usage d rs)
     \<and> length (sn_retained_by_stage st) = 7
     \<and> (\<forall>k. unat (sn_retained_by_stage st ! stage_index k) = staged k rs)
     \<and> unat (sn_working_materializations st) = workers rs
     \<and> (\<forall>r \<in> set rs. rs_disk_bytes (rsv_cost r) = 0)"

lemma stage_index_bound [simp]: "stage_index k < 7"
  by (cases k) simp_all

lemma stage_index_inj [simp]: "stage_index j = stage_index k \<longleftrightarrow> j = k"
  by (cases j; cases k) simp_all

lemma usage_simps [simp]:
  "usage d [] = 0"
  "usage d (r # rs) = unat (field d (rsv_cost r)) + usage d rs"
  "usage d (xs @ ys) = usage d xs + usage d ys"
  by (simp_all add: usage_def)

lemma staged_simps [simp]:
  "staged k [] = 0"
  "staged k (r # rs) = (if rsv_stage r = k then unat (rs_retained_bytes (rsv_cost r)) else 0) + staged k rs"
  "staged k (xs @ ys) = staged k xs + staged k ys"
  by (simp_all add: staged_def)

lemma workers_simps [simp]:
  "workers [] = 0"
  "workers (r # rs) = (if rsv_working r then 1 else 0) + workers rs"
  "workers (xs @ ys) = workers xs + workers ys"
  by (simp_all add: workers_def)

lemma staged_le_usage: "staged k rs \<le> usage RetainedBytes rs"
  by (induction rs) simp_all

lemma staged_total:
  "staged Other rs + staged Request rs + staged Capture rs + staged Publisher rs + staged Pipeline rs
     + staged Selection rs + staged Materialization rs = usage RetainedBytes rs"
proof (induction rs)
  case (Cons r rs)
  then show ?case by (cases "rsv_stage r") simp_all
qed simp

lemma field_zero [simp]: "field d cost_zero = 0"
  by (cases d) (simp_all add: cost_zero_def)

lemma zero_disk [simp]: "rs_disk_bytes cost_zero = 0" "rs_retained_bytes cost_zero = 0"
  by (simp_all add: cost_zero_def)

lemma field_retained [simp]:
  "field d (c\<lparr>rs_retained_bytes := b\<rparr>) = (if d = RetainedBytes then b else field d c)"
  by (cases d) simp_all

lemma unat_add_exact: "unat a + unat b < 2 ^ LENGTH('a) \<Longrightarrow> unat (a + b :: 'a::len word) = unat a + unat b"
  by (simp add: unat_word_ariths)

lemma unat_sub_exact: "unat a = unat b + k \<Longrightarrow> unat (a - b) = k"
  by (simp add: unat_sub word_le_nat_alt)

lemma accounts_reserve:
  assumes "accounts st rs" and "try_reserve_inner st stage cost admission = Inr (st', r)"
    and "rs_disk_bytes cost = 0"
  shows "accounts st' (r # rs)"
proof -
  obtain nx m where
    nx: "cost_checked_add (sn_used st) cost = Some nx" "fits_within nx (sn_limit st)" and
    m: "checked_add (sn_working_materializations st)
          (if admission = Materialization_work then 1 else 0) = Some m" and
    st': "st' = st\<lparr>sn_used := nx, sn_working_materializations := m,
      sn_retained_by_stage := (sn_retained_by_stage st)[stage_index stage :=
        sn_retained_by_stage st ! stage_index stage + rs_retained_bytes cost]\<rparr>" and
    r: "r = \<lparr>rsv_cost = cost, rsv_stage = stage, rsv_working = (admission = Materialization_work)\<rparr>"
    using assms(2) by (auto simp: try_reserve_inner_def rust_simps Let_def simp del: checked_add_Some
        split: if_splits)
  have fields: "unat (field d nx) = unat (field d (sn_used st)) + unat (field d cost)" for d
    using nx(1) by (simp add: cost_checked_add_Some)
  have "unat (sn_retained_by_stage st ! stage_index stage) + unat (rs_retained_bytes cost)
      \<le> unat (field RetainedBytes nx)"
    using assms(1) staged_le_usage [of stage rs] fields [of RetainedBytes]
    by (simp add: accounts_def del: field.simps) (simp only: field.simps)
  then have "unat (sn_retained_by_stage st ! stage_index stage + rs_retained_bytes cost)
      = staged stage rs + unat (rs_retained_bytes cost)"
    using assms(1) unat_bound [of "field RetainedBytes nx"]
    by (subst unat_add_exact) (auto simp: accounts_def simp del: field.simps unsigned_less)
  then show ?thesis
    using assms nx(2) fields m
    by (auto simp: accounts_def st' r nth_list_update checked_add_Some split: if_splits)
qed

lemma accounts_release:
  assumes "accounts st rs" and "rs_disk_bytes cost = 0"
    and use: "\<And>d. d \<noteq> DiskBytes \<Longrightarrow> usage d rs = usage d rs' + unat (field d cost)"
    and stg: "\<And>k. staged k rs = staged k rs' + (if k = stage then unat (rs_retained_bytes cost) else 0)"
    and wk: "workers rs = workers rs' + (if w then 1 else 0)"
    and disk: "\<forall>r \<in> set rs'. rs_disk_bytes (rsv_cost r) = 0"
  shows "accounts (release_cost st stage cost w) rs'"
proof -
  let ?u = "sn_used st"
  have le: "unat (field d cost) \<le> unat (field d ?u)" for d
    using assms(1,2) use [of d] by (cases "d = DiskBytes") (auto simp: accounts_def)
  then obtain used where used: "cost_checked_sub ?u cost = Some used"
    using cost_checked_sub_defined by blast
  then have fields: "unat (field d ?u) = unat (field d cost) + unat (field d used)" for d
    by (simp add: cost_checked_sub_Some)
  have "(if w then 1 else 0) \<le> unat (sn_working_materializations st)"
    using assms(1) wk by (simp add: accounts_def)
  then obtain m where m: "checked_sub (sn_working_materializations st) (if w then 1 else 0) = Some m"
    by (cases w) (auto simp: checked_sub_def word_le_nat_alt)
  then have mw: "unat m = workers rs'"
    using assms(1) wk by (cases w) (auto simp: accounts_def checked_sub_Some)
  have fit: "fits_within used (sn_limit st)"
    using assms(1) fields
    by (simp add: accounts_def fits_within_iff word_le_nat_alt) (metis le_add2 order_trans)
  have "unat (sn_retained_by_stage st ! stage_index stage - rs_retained_bytes cost) = staged stage rs'"
    using assms(1) stg [of stage] by (intro unat_sub_exact) (simp add: accounts_def)
  then show ?thesis
    using assms(1) fields use stg disk fit mw
    by (auto simp: accounts_def release_cost_def used m nth_list_update split: if_splits)
qed

lemma accounts_restage:
  assumes "accounts st (xs @ r # ys)" and "set_stage st r stage = (st', r')"
  shows "accounts st' (xs @ r' # ys)"
proof (cases "stage = rsv_stage r")
  case True
  then show ?thesis
    using assms by (simp add: set_stage_def)
next
  case False
  let ?live = "xs @ r # ys" and ?by = "sn_retained_by_stage st"
  let ?b = "rs_retained_bytes (rsv_cost r)"
  have r': "r' = r\<lparr>rsv_stage := stage\<rparr>" and
    st': "st' = st\<lparr>sn_retained_by_stage := ?by[stage_index (rsv_stage r) :=
        ?by ! stage_index (rsv_stage r) - ?b, stage_index stage := ?by ! stage_index stage + ?b]\<rparr>"
    using assms(2) False by (auto simp: set_stage_def Let_def)
  have total: "usage RetainedBytes ?live = unat (field RetainedBytes (sn_used st))"
    and by_stage: "\<And>k. unat (?by ! stage_index k) = staged k ?live"
    using assms(1) unfolding accounts_def by auto
  have "staged stage ?live + unat ?b \<le> usage RetainedBytes ?live"
    using False staged_le_usage [of stage "xs @ r' # ys"] by (simp add: r')
  then have new: "unat (?by ! stage_index stage + ?b) = staged stage ?live + unat ?b"
    using total by_stage unat_bound [of "field RetainedBytes (sn_used st)"]
    by (subst unat_add_exact) (auto simp del: field.simps unsigned_less)
  have old: "unat (?by ! stage_index (rsv_stage r) - ?b) = staged (rsv_stage r) xs + staged (rsv_stage r) ys"
    using by_stage [of "rsv_stage r"] by (intro unat_sub_exact) simp
  show ?thesis
    using assms(1) False new old by (auto simp: accounts_def r' st' nth_list_update)
qed

lemma accounts_split:
  assumes "accounts st (xs @ r # ys)" and "split_retained r n = Inr (r1, r2)"
  shows "accounts st (xs @ r1 # r2 # ys)"
proof -
  obtain m where m: "unat (rs_retained_bytes (rsv_cost r)) = unat n + unat m"
    and r: "r1 = r\<lparr>rsv_cost := (rsv_cost r)\<lparr>rs_retained_bytes := m\<rparr>\<rparr>"
      "r2 = \<lparr>rsv_cost = cost_zero\<lparr>rs_retained_bytes := n\<rparr>, rsv_stage = rsv_stage r, rsv_working = False\<rparr>"
    using assms(2) by (auto simp: split_retained_def rust_simps)
  have "unat (field d (rsv_cost r1)) + unat (field d (rsv_cost r2)) = unat (field d (rsv_cost r))" for d
    using m by (auto simp: r)
  then show ?thesis
    using assms(1) m by (auto simp: accounts_def r)
qed

lemma accounts_shrink:
  assumes "accounts st (xs @ r # ys)" and "shrink_retained st r n = Inr (st', r')"
  shows "accounts st' (xs @ r' # ys)"
proof -
  obtain m where m: "unat (rs_retained_bytes (rsv_cost r)) = unat n + unat m"
    and st': "st' = release_cost st (rsv_stage r) (cost_zero\<lparr>rs_retained_bytes := m\<rparr>) False"
    and r': "r' = r\<lparr>rsv_cost := (rsv_cost r)\<lparr>rs_retained_bytes := n\<rparr>\<rparr>"
    using assms(2) by (auto simp: shrink_retained_def rust_simps)
  show ?thesis
    unfolding st' using assms(1) m
    by (intro accounts_release [OF assms(1)]) (auto simp: r' accounts_def)
qed

lemma accounts_drop:
  assumes "accounts st (xs @ r # ys)"
  shows "accounts (drop_reservation st r) (xs @ ys)"
  unfolding drop_reservation_def
  using assms by (intro accounts_release [OF assms]) (auto simp: accounts_def)

lemma drop_used:
  assumes "accounts st (xs @ r # ys)"
  shows "cost_checked_sub (sn_used st) (rsv_cost r) = Some (sn_used (drop_reservation st r))"
proof -
  have "unat (field d (rsv_cost r)) \<le> unat (field d (sn_used st))" for d
    using assms by (cases "d = DiskBytes") (auto simp: accounts_def)
  then obtain used where "cost_checked_sub (sn_used st) (rsv_cost r) = Some used"
    using cost_checked_sub_defined by blast
  moreover have "(if rsv_working r then 1 else 0) \<le> unat (sn_working_materializations st)"
    using assms by (simp add: accounts_def)
  ultimately show ?thesis
    by (auto simp: drop_reservation_def release_cost_def checked_sub_def word_le_nat_alt
        split: if_splits)
qed

lemma accounts_limits:
  assumes "accounts st rs"
  shows "set_retained_limit st n = Inr st' \<Longrightarrow> accounts st' rs"
    and "set_resident_limit st n = Inr st' \<Longrightarrow> accounts st' rs"
    and "set_disk_limit st m = Inr st' \<Longrightarrow> accounts st' rs"
    and "set_host_limits st a b c d e = Inr st' \<Longrightarrow> accounts st' rs"
  using assms by (auto simp: set_retained_limit_def set_resident_limit_def set_disk_limit_def
      set_host_limits_def accounts_def fits_within_def Let_def split: if_splits)

lemma field_disk [simp]:
  "d \<noteq> DiskBytes \<Longrightarrow> field d (c\<lparr>rs_disk_bytes := b\<rparr>) = field d c"
  by (cases d) simp_all

lemma accounts_reconcile: "accounts st rs \<Longrightarrow> reconcile_disk st n = Inr st' \<Longrightarrow> accounts st' rs"
  by (auto simp: reconcile_disk_def accounts_def Let_def split: if_splits)

interpretation ledger_accounting: preserved ledger_step "\<lambda>l. accounts (lg_snapshot l) (lg_live l)"
proof
  fix l m
  assume inv: "accounts (lg_snapshot l) (lg_live l)" and "ledger_step l m"
  from \<open>ledger_step l m\<close> show "accounts (lg_snapshot m) (lg_live m)"
    using inv by cases (auto intro: accounts_reserve accounts_limits accounts_reconcile accounts_restage
        accounts_split accounts_shrink accounts_drop)
qed

lemma accounts_new: "accounts (snapshot_new limit) []"
proof -
  have "replicate 7 0 ! stage_index k = (0 :: usize)" for k
    by (cases k) (simp_all add: numeral_eq_Suc)
  then show ?thesis
    by (auto simp: accounts_def snapshot_new_def fits_within_iff)
qed

lemma ledger_reach:
  "ledger_step\<^sup>*\<^sup>* (ledger_new limit) l \<Longrightarrow> accounts (lg_snapshot l) (lg_live l)"
  using ledger_accounting.run_inv [of "ledger_new limit" l] accounts_new [of limit]
  by (simp add: ledger_new_def)

definition sample_limit :: resource_cost where
  "sample_limit = cost_zero\<lparr>rs_retained_bytes := 128, rs_worker_jobs := 2\<rparr>"

definition sample_reservation :: resource_reservation where
  "sample_reservation = \<lparr>rsv_cost = cost_zero\<lparr>rs_retained_bytes := 96, rs_worker_jobs := 1\<rparr>,
     rsv_stage = Request, rsv_working = False\<rparr>"

definition sample_ledger :: ledger where
  "sample_ledger = \<lparr>lg_snapshot = \<lparr>sn_used = cost_zero\<lparr>rs_retained_bytes := 96, rs_worker_jobs := 1\<rparr>,
     sn_limit = sample_limit, sn_retained_by_stage = [0, 96, 0, 0, 0, 0, 0],
     sn_working_materializations = 0\<rparr>, lg_live = [sample_reservation]\<rparr>"

lemma sample_reach: "ledger_step\<^sup>*\<^sup>* (ledger_new sample_limit) sample_ledger"
proof -
  let ?c = "cost_zero\<lparr>rs_retained_bytes := 96, rs_worker_jobs := 1\<rparr>"
  have "try_reserve_inner (lg_snapshot (ledger_new sample_limit)) Request ?c Unrestricted
      = Inr (lg_snapshot sample_ledger, sample_reservation)"
    by code_simp
  from reserve [OF this] have "ledger_step (ledger_new sample_limit) sample_ledger"
    by (simp add: ledger_new_def sample_ledger_def)
  then show ?thesis
    by blast
qed

subsection \<open>Properties\<close>

text \<open>
  C22: The ledger never overcommits and its books balance. After any sequence of reservations,
  stage changes, splits, shrinks, drops, limit changes and disk reconciliations, usage is within the
  limit in every dimension; in every dimension but disk it equals the total cost of the live
  reservations; the bytes retained per stage are those of the live reservations of that stage
  and add up to the retained bytes in use; and the number of working materializations is that
  of the live reservations holding one. Reservations carry no disk bytes, as at every caller: disk is
  charged by reconciliation.
\<close>

theorem ledger_books_balance:
  assumes "ledger_step\<^sup>*\<^sup>* (ledger_new limit) l"
  shows "fits_within (sn_used (lg_snapshot l)) (sn_limit (lg_snapshot l))
    \<and> (\<forall>d. d \<noteq> DiskBytes \<longrightarrow> unat (field d (sn_used (lg_snapshot l)))
          = sum_list (map (\<lambda>r. unat (field d (rsv_cost r))) (lg_live l)))
    \<and> (\<forall>k. unat (sn_retained_by_stage (lg_snapshot l) ! stage_index k)
          = sum_list (map (\<lambda>r. if rsv_stage r = k then unat (rs_retained_bytes (rsv_cost r)) else 0)
              (lg_live l)))
    \<and> sum_list (map unat (sn_retained_by_stage (lg_snapshot l)))
        = unat (rs_retained_bytes (sn_used (lg_snapshot l)))
    \<and> unat (sn_working_materializations (lg_snapshot l)) = length (filter rsv_working (lg_live l))"
proof -
  let ?by = "sn_retained_by_stage (lg_snapshot l)"
  have acc: "accounts (lg_snapshot l) (lg_live l)"
    using assms by (rule ledger_reach)
  then have by_stage: "\<And>k. unat (?by ! stage_index k) = staged k (lg_live l)" and "length ?by = 7"
    and "unat (field RetainedBytes (sn_used (lg_snapshot l))) = usage RetainedBytes (lg_live l)"
    unfolding accounts_def by auto
  moreover from \<open>length ?by = 7\<close> have "map unat ?by = map (\<lambda>i. unat (?by ! i)) [0, 1, 2, 3, 4, 5, 6]"
    by (auto simp: list_eq_iff_nth_eq nth_Cons' less_Suc_eq numeral_eq_Suc)
  ultimately have "sum_list (map unat ?by) = unat (rs_retained_bytes (sn_used (lg_snapshot l)))"
    using staged_total [of "lg_live l"] by_stage [of Other] by_stage [of Request] by_stage [of Capture]
      by_stage [of Publisher] by_stage [of Pipeline] by_stage [of Selection]
      by_stage [of Materialization] by simp
  then show ?thesis
    using acc by (simp add: accounts_def usage_def staged_def workers_def)
qed

theorem ledger_books_balance_witness:
  "fits_within (sn_used (lg_snapshot sample_ledger)) (sn_limit (lg_snapshot sample_ledger))
   \<and> sum_list (map unat (sn_retained_by_stage (lg_snapshot sample_ledger))) = 96"
  using ledger_books_balance [OF sample_reach]
  by (simp add: sample_ledger_def)

text \<open>
  C23: Dropping a reservation returns exactly its cost. In every reachable ledger, dropping a live
  reservation always takes effect: in each dimension the new usage plus the reservation's cost
  is the old usage; and once no reservation is alive, nothing but reconciled disk is in use.
  Reservations carry no disk bytes, as at every caller.
\<close>

theorem drop_returns_exact_cost:
  assumes "ledger_step\<^sup>*\<^sup>* (ledger_new limit) l"
  shows "(\<forall>xs r ys d. lg_live l = xs @ r # ys \<longrightarrow>
      unat (field d (sn_used (lg_snapshot l)))
        = unat (field d (rsv_cost r)) + unat (field d (sn_used (drop_reservation (lg_snapshot l) r))))
    \<and> (lg_live l = [] \<longrightarrow> sn_used (lg_snapshot l)
        = cost_zero\<lparr>rs_disk_bytes := rs_disk_bytes (sn_used (lg_snapshot l))\<rparr>)"
proof -
  have acc: "accounts (lg_snapshot l) (lg_live l)"
    using assms by (rule ledger_reach)
  have "sn_used (lg_snapshot l) = cost_zero\<lparr>rs_disk_bytes := rs_disk_bytes (sn_used (lg_snapshot l))\<rparr>"
    if "lg_live l = []"
  proof (rule cost_eqI)
    show "field d (sn_used (lg_snapshot l))
        = field d (cost_zero\<lparr>rs_disk_bytes := rs_disk_bytes (sn_used (lg_snapshot l))\<rparr>)" for d
      using acc that by (cases "d = DiskBytes") (auto simp: accounts_def word_unat_eq_iff)
  qed
  then show ?thesis
    using acc drop_used by (auto simp: cost_checked_sub_Some)
qed

theorem drop_returns_exact_cost_witness:
  "unat (rs_retained_bytes (sn_used (drop_reservation (lg_snapshot sample_ledger) sample_reservation))) = 0"
proof -
  have "lg_live sample_ledger = [] @ sample_reservation # []"
    by (simp add: sample_ledger_def)
  then have "unat (field RetainedBytes (sn_used (lg_snapshot sample_ledger)))
      = unat (field RetainedBytes (rsv_cost sample_reservation)) + unat (field RetainedBytes
          (sn_used (drop_reservation (lg_snapshot sample_ledger) sample_reservation)))"
    using drop_returns_exact_cost [OF sample_reach] by blast
  then show ?thesis
    by (simp add: sample_ledger_def sample_reservation_def)
qed

lemma unat_working_threshold:
  "unat (publication_working_threshold n) = unat n - unat n div 4 - unat n div 8"
  by (simp add: publication_working_threshold_def retained_admission_threshold_def
      unat_saturating_sub unat_div)

text \<open>
  C24: The pipeline keeps the foreground's progress reserve. A pipeline reservation, and a
  materialization while another is working, succeeds only if the retained bytes then in use
  stay strictly below the working threshold: the limit less a quarter and an eighth of it, each
  rounded down.
\<close>

theorem headroom_is_preserved:
  assumes "admission = Optional \<or> admission = Materialization_work \<and> sn_working_materializations st \<noteq> 0"
    and "try_reserve_inner st stage cost admission = Inr (st', r)"
  shows "let used = unat (rs_retained_bytes (sn_used st'));
             limit = unat (rs_retained_bytes (sn_limit st)) in
    used = unat (rs_retained_bytes (sn_used st)) + unat (rs_retained_bytes cost)
    \<and> used < limit - limit div 4 - limit div 8"
proof -
  obtain nx where nx: "cost_checked_add (sn_used st) cost = Some nx" and st': "sn_used st' = nx"
    and less: "rs_retained_bytes nx < publication_working_threshold (rs_retained_bytes (sn_limit st))"
    using assms by (auto simp: try_reserve_inner_def rust_simps Let_def not_le
        split: if_splits working_admission.splits)
  then show ?thesis
    using cost_checked_add_Some [of "sn_used st" cost nx, THEN iffD1, rule_format, of RetainedBytes]
    by (simp add: Let_def unat_working_threshold word_less_nat_alt)
qed

theorem headroom_is_preserved_witness:
  "let st = snapshot_new (cost_zero\<lparr>rs_retained_bytes := 128\<rparr>) in
   (case try_reserve_inner st Pipeline (cost_zero\<lparr>rs_retained_bytes := 79\<rparr>) Optional of
      Inl e \<Rightarrow> False | Inr (st', r) \<Rightarrow> unat (rs_retained_bytes (sn_used st')) < 128 - 128 div 4 - 128 div 8)
   \<and> try_reserve_inner st Pipeline (cost_zero\<lparr>rs_retained_bytes := 80\<rparr>) Optional
       = Inl (Capacity ''bundle pipeline headroom'')"
proof -
  let ?st = "snapshot_new (cost_zero\<lparr>rs_retained_bytes := 128\<rparr>)"
  let ?c = "cost_zero\<lparr>rs_retained_bytes := 79\<rparr>"
  have "try_reserve_inner ?st Pipeline ?c Optional
      = Inr (?st\<lparr>sn_used := ?c, sn_retained_by_stage := [0, 0, 0, 0, 79, 0, 0]\<rparr>,
             \<lparr>rsv_cost = ?c, rsv_stage = Pipeline, rsv_working = False\<rparr>)"
    by code_simp
  moreover from headroom_is_preserved [OF _ this]
  have "unat (rs_retained_bytes ?c) < 128 - 128 div 4 - 128 div 8"
    by (simp add: Let_def snapshot_new_def)
  moreover have "try_reserve_inner ?st Pipeline (cost_zero\<lparr>rs_retained_bytes := 80\<rparr>) Optional
      = Inl (Capacity ''bundle pipeline headroom'')"
    by code_simp
  ultimately show ?thesis
    by (simp add: Let_def)
qed

end
