(* ===== verification/Fleet_Eviction.thy ===== *)
theory Fleet_Eviction
  imports Resource_Ledger Cell_Identity
begin

text \<open>
  Idle Cell eviction, \<^verbatim>\<open>crates/cellule-runtime/src/fleet/eviction.rs\<close>: the observation of an actor,
  its eligibility, and the deterministic victim selector. The comparator of the selector meets the
  contract \<open>sort_order\<close>, from which the order of the victims and its independence of the order of
  the observations follow.
\<close>

datatype eviction_state = Ev_Idle | Ev_Quiescing

text \<open>The derived order of the enumeration: idle before quiescing.\<close>

fun eviction_rank :: "eviction_state \<Rightarrow> nat" where
  "eviction_rank Ev_Idle = 0"
| "eviction_rank Ev_Quiescing = 1"

record eviction_observation =
  eo_cell :: cell_id
  eo_state :: eviction_state
  eo_last_used_ms :: i64
  eo_cost :: resource_cost
  eo_busy :: bool
  eo_retained_obligation :: bool
  eo_migrating :: bool
  eo_backup_pinned :: bool
  eo_leased_work :: bool
  eo_primitive_obligation :: bool
  eo_accounting_known :: bool

definition eligible :: "eviction_observation \<Rightarrow> bool" where
  "eligible o' \<longleftrightarrow> eo_accounting_known o' \<and> \<not> eo_busy o' \<and> \<not> eo_retained_obligation o'
     \<and> \<not> eo_migrating o' \<and> \<not> eo_backup_pinned o' \<and> \<not> eo_leased_work o'
     \<and> \<not> eo_primitive_obligation o' \<and> eo_last_used_ms o' \<ge> 0"

definition victim_order :: "eviction_observation \<Rightarrow> eviction_observation \<Rightarrow> ordering" where
  "victim_order l r =
     then_with (ocmp (eo_last_used_ms l) (eo_last_used_ms r))
     (then_with (ocmp (eviction_rank (eo_state r)) (eviction_rank (eo_state l)))
     (then_with (ocmp (rs_active_cells (eo_cost r)) (rs_active_cells (eo_cost l)))
     (then_with (ocmp (rs_retained_bytes (eo_cost r)) (rs_retained_bytes (eo_cost l)))
     (then_with (ocmp (rs_disk_bytes (eo_cost r)) (rs_disk_bytes (eo_cost l)))
     (ocmp (cell_bytes (eo_cell l)) (cell_bytes (eo_cell r)))))))"

definition select_victims :: "eviction_observation list \<Rightarrow> nat \<Rightarrow> cell_id list" where
  "select_victims observations limit =
     map eo_cell (take limit (sort_by victim_order (filter eligible observations)))"

interpretation victims: sort_order victim_order "\<lambda>_. True"
  unfolding victim_order_def
  by (intro sort_order_then_with sort_order_key sort_order_key_desc)

lemma victim_order_Equal: "victim_order a b = Equal \<Longrightarrow> eo_cell a = eo_cell b"
  by (simp add: victim_order_def cell_id.expand)

text \<open>
  C25: Victim selection is safe, oldest first and deterministic. The victims are the Cells of the
  first \<open>limit\<close> eligible observations in the selector's order (least recently used first, then
  quiescing, larger and lower Cell identity), each of them idle of every obligation; and any
  permutation of the observations selects the same victims in the same order.
\<close>

theorem select_victims_correct:
  "(\<exists>chosen rest. select_victims obs limit = map eo_cell chosen
      \<and> mset (chosen @ rest) = mset (filter eligible obs)
      \<and> length chosen = min limit (length (filter eligible obs))
      \<and> sorted_wrt (\<lambda>a b. victim_order a b \<noteq> Greater) (chosen @ rest)
      \<and> list_all eligible chosen)
   \<and> (mset obs' = mset obs \<longrightarrow> select_victims obs' limit = select_victims obs limit)"
proof -
  let ?s = "sort_by victim_order (filter eligible obs)"
  have "list_all eligible (take limit ?s)"
    by (auto simp: list_all_iff dest: in_set_takeD)
  moreover have "length ?s = length (filter eligible obs)"
    by (metis mset_sort_by size_mset)
  moreover have "sorted_wrt (\<lambda>a b. victim_order a b \<noteq> Greater) ?s"
    by (rule victims.sorted_sort_by) simp
  moreover have "select_victims obs' limit = select_victims obs limit" if "mset obs' = mset obs"
  proof -
    have "map eo_cell (sort_by victim_order (filter eligible obs')) = map eo_cell ?s"
      using that by (intro victims.sort_by_order_independent) (auto simp: victim_order_Equal)
    then show ?thesis
      by (simp add: select_victims_def flip: take_map)
  qed
  ultimately show ?thesis
    by (intro conjI exI [of _ "take limit ?s"] exI [of _ "drop limit ?s"] impI)
      (auto simp: select_victims_def min.commute)
qed

definition sample_observation :: "u8 \<Rightarrow> i64 \<Rightarrow> bool \<Rightarrow> eviction_observation" where
  "sample_observation n at busy = \<lparr>eo_cell = CellId (replicate 32 n), eo_state = Ev_Idle,
     eo_last_used_ms = at, eo_cost = cost_zero, eo_busy = busy, eo_retained_obligation = False,
     eo_migrating = False, eo_backup_pinned = False, eo_leased_work = False,
     eo_primitive_obligation = False, eo_accounting_known = True\<rparr>"

theorem select_victims_correct_witness:
  "let a = sample_observation 1 20 False; b = sample_observation 2 10 False;
       c = sample_observation 3 5 True
   in select_victims [a, b, c] 1 = [eo_cell b] \<and> select_victims [c, b, a] 1 = [eo_cell b]"
proof -
  let ?a = "sample_observation 1 20 False" and ?b = "sample_observation 2 10 False"
    and ?c = "sample_observation 3 5 True"
  have "select_victims [?a, ?b, ?c] 1 = [eo_cell ?b]"
    by code_simp
  moreover have "select_victims [?c, ?b, ?a] 1 = select_victims [?a, ?b, ?c] 1"
    using select_victims_correct [where obs = "[?a, ?b, ?c]" and obs' = "[?c, ?b, ?a]" and limit = 1]
    by (simp add: add_mset_commute)
  ultimately show ?thesis
    by (simp add: Let_def)
qed

end
