(* ===== verification/Fleet_Pressure.thy ===== *)
theory Fleet_Pressure
  imports Rust_Order
begin

text \<open>
  Node pressure, \<^verbatim>\<open>crates/cellule-runtime/src/fleet/pressure.rs\<close>: the utilization sample, the
  hysteretic classifier, and the budget that paces Cell movements. The classifier is studied over
  the history of the samples it accepted; the budget over the sequences of starts and completions
  in which every permit it issued is completed at most once.
\<close>

subsection \<open>Classifier\<close>

definition MAX_PERMILLE :: u16 where
  "MAX_PERMILLE = 1000"

datatype pressure_state = Normal | Constrained | Shedding | Pr_Recovering | Critical

record pressure_sample =
  ps_at_ms :: i64
  ps_memory :: u16
  ps_disk :: u16
  ps_jobs :: u16
  ps_stale :: bool

definition sample_validate :: "pressure_sample \<Rightarrow> unit result" where
  "sample_validate s = reject_if
     (ps_at_ms s < 0 \<or> ps_memory s > MAX_PERMILLE \<or> ps_disk s > MAX_PERMILLE \<or> ps_jobs s > MAX_PERMILLE)
     (Control ''pressure sample is invalid'')"

definition elevated :: "pressure_sample \<Rightarrow> u16 \<Rightarrow> bool" where
  "elevated s threshold \<longleftrightarrow>
     ps_memory s \<ge> threshold \<or> ps_disk s \<ge> threshold \<or> ps_jobs s \<ge> threshold"

definition recovered :: "pressure_sample \<Rightarrow> u16 \<Rightarrow> bool" where
  "recovered s threshold \<longleftrightarrow>
     ps_memory s \<le> threshold \<and> ps_disk s \<le> threshold \<and> ps_jobs s \<le> threshold"

record pressure_classifier =
  pc_enter_permille :: u16
  pc_exit_permille :: u16
  pc_dwell_ms :: i64
  pc_state :: pressure_state
  pc_pending :: "(pressure_state \<times> i64) option"
  pc_last_at_ms :: "i64 option"

definition classifier_new :: "u16 \<Rightarrow> u16 \<Rightarrow> i64 \<Rightarrow> pressure_classifier result" where
  "classifier_new enter exit dwell =
     (if enter > MAX_PERMILLE \<or> exit \<ge> enter \<or> dwell \<le> 0
      then Inl (Control ''pressure thresholds are invalid'')
      else Inr \<lparr>pc_enter_permille = enter, pc_exit_permille = exit, pc_dwell_ms = dwell,
                pc_state = Normal, pc_pending = None, pc_last_at_ms = None\<rparr>)"

definition desired_state :: "pressure_classifier \<Rightarrow> pressure_sample \<Rightarrow> pressure_state" where
  "desired_state c s =
     (if elevated s (pc_enter_permille c) then
        if ps_memory s \<ge> pc_enter_permille c \<and> ps_disk s \<ge> pc_enter_permille c
        then Critical else Shedding
      else if recovered s (pc_exit_permille c) then Normal
      else Constrained)"

definition observe :: "pressure_classifier \<Rightarrow> pressure_sample \<Rightarrow> (pressure_classifier \<times> pressure_state) result" where
  "observe c s =
     bind_r (sample_validate s) (\<lambda>_.
     bind_r (reject_if (case pc_last_at_ms c of None \<Rightarrow> False | Some l \<Rightarrow> ps_at_ms s < l)
       (Control ''pressure sample time regressed'')) (\<lambda>_.
     let c = c\<lparr>pc_last_at_ms := Some (ps_at_ms s)\<rparr> in
     if ps_stale s then
       let c = c\<lparr>pc_pending := None\<rparr>;
           c = (if pc_state c = Normal then c\<lparr>pc_state := Constrained\<rparr> else c)
       in Inr (c, pc_state c)
     else
       let desired = desired_state c s in
       if desired = pc_state c then Inr (c\<lparr>pc_pending := None\<rparr>, pc_state c)
       else case pc_pending c of
         None \<Rightarrow> Inr (c\<lparr>pc_pending := Some (desired, ps_at_ms s)\<rparr>, pc_state c)
       | Some (pending, started) \<Rightarrow>
           if pending \<noteq> desired then Inr (c\<lparr>pc_pending := Some (desired, ps_at_ms s)\<rparr>, pc_state c)
           else if i64_saturating_sub (ps_at_ms s) started \<ge> pc_dwell_ms c then
             let c = c\<lparr>pc_state := (if desired = Normal then Pr_Recovering else desired)\<rparr>;
                 c = c\<lparr>pc_pending := None\<rparr>;
                 c = (if pc_state c = Pr_Recovering then c\<lparr>pc_state := Normal\<rparr> else c)
             in Inr (c, pc_state c)
           else Inr (c, pc_state c)))"

text \<open>The classifier after a history of samples, rejected samples leaving it unchanged.\<close>

fun observe_all :: "pressure_classifier \<Rightarrow> pressure_sample list \<Rightarrow> pressure_classifier" where
  "observe_all c [] = c"
| "observe_all c (s # ss) =
     observe_all (case observe c s of Inl e \<Rightarrow> c | Inr (c', st) \<Rightarrow> c') ss"

text \<open>The samples of a history that were accepted, in order.\<close>

fun accepted :: "pressure_classifier \<Rightarrow> pressure_sample list \<Rightarrow> pressure_sample list" where
  "accepted c [] = []"
| "accepted c (s # ss) = (case observe c s of Inl e \<Rightarrow> accepted c ss
     | Inr (c', st) \<Rightarrow> s # accepted c' ss)"

subsection \<open>Movement budget\<close>

record movement_budget =
  mb_limit :: u32
  mb_used :: u32
  mb_interval_ms :: i64
  mb_window_started_ms :: i64
  mb_completed_in_window :: u32
  mb_requested_limit :: u32
  mb_requested_used :: u32
  mb_requested_window_started_ms :: i64
  mb_requested_completed_in_window :: u32

record movement_permit =
  mp_completed :: bool
  mp_requested :: bool

definition with_requested_limit :: "u32 \<Rightarrow> u32 \<Rightarrow> i64 \<Rightarrow> movement_budget result" where
  "with_requested_limit limit requested interval =
     (if limit = 0 \<or> requested = 0 \<or> interval \<le> 0 then Inl (Capacity ''movement budget'')
      else Inr \<lparr>mb_limit = limit, mb_used = 0, mb_interval_ms = interval, mb_window_started_ms = 0,
                mb_completed_in_window = 0, mb_requested_limit = requested, mb_requested_used = 0,
                mb_requested_window_started_ms = 0, mb_requested_completed_in_window = 0\<rparr>)"

definition budget_new :: "u32 \<Rightarrow> i64 \<Rightarrow> movement_budget result" where
  "budget_new limit interval = with_requested_limit limit limit interval"

text \<open>A refused start may still have opened a new window, so the budget is returned with the outcome.\<close>

definition try_start :: "movement_budget \<Rightarrow> i64 \<Rightarrow> movement_budget \<times> movement_permit result" where
  "try_start b now =
     (if now < mb_window_started_ms b then (b, Inl (Control ''movement time regressed''))
      else
        let b = (if i64_saturating_sub now (mb_window_started_ms b) \<ge> mb_interval_ms b
                 then b\<lparr>mb_window_started_ms := now, mb_completed_in_window := 0\<rparr> else b)
        in if mb_used b \<ge> mb_limit b \<or> mb_completed_in_window b \<ge> mb_limit b
           then (b, Inl (Capacity ''movement budget''))
           else (b\<lparr>mb_used := mb_used b + 1\<rparr>, Inr \<lparr>mp_completed = False, mp_requested = False\<rparr>))"

definition try_start_requested :: "movement_budget \<Rightarrow> i64 \<Rightarrow> movement_budget \<times> movement_permit result" where
  "try_start_requested b now =
     (if now < mb_requested_window_started_ms b then (b, Inl (Control ''movement time regressed''))
      else
        let b = (if i64_saturating_sub now (mb_requested_window_started_ms b) \<ge> mb_interval_ms b
                 then b\<lparr>mb_requested_window_started_ms := now, mb_requested_completed_in_window := 0\<rparr>
                 else b)
        in if mb_requested_used b \<ge> mb_requested_limit b
              \<or> mb_requested_completed_in_window b \<ge> mb_requested_limit b
           then (b, Inl (Capacity ''movement budget''))
           else (b\<lparr>mb_requested_used := mb_requested_used b + 1\<rparr>,
                 Inr \<lparr>mp_completed = False, mp_requested = True\<rparr>))"

definition complete :: "movement_budget \<Rightarrow> movement_permit \<Rightarrow> movement_budget \<times> movement_permit" where
  "complete b p =
     (if mp_completed p then (b, p)
      else if mp_requested p then
        (b\<lparr>mb_requested_used := saturating_sub (mb_requested_used b) 1,
           mb_requested_completed_in_window :=
             saturating_add (mb_requested_completed_in_window b) 1\<rparr>, p\<lparr>mp_completed := True\<rparr>)
      else
        (b\<lparr>mb_used := saturating_sub (mb_used b) 1,
           mb_completed_in_window := saturating_add (mb_completed_in_window b) 1\<rparr>,
         p\<lparr>mp_completed := True\<rparr>))"

text \<open>A controller: the budget and the permits it has not completed yet.\<close>

inductive movement_step ::
  "movement_budget \<times> movement_permit list \<Rightarrow> movement_budget \<times> movement_permit list \<Rightarrow> bool" where
  start: "try_start b now = (b', Inr p) \<Longrightarrow> movement_step (b, ps) (b', p # ps)"
| start_refused: "try_start b now = (b', Inl e) \<Longrightarrow> movement_step (b, ps) (b', ps)"
| start_requested: "try_start_requested b now = (b', Inr p) \<Longrightarrow> movement_step (b, ps) (b', p # ps)"
| start_requested_refused: "try_start_requested b now = (b', Inl e) \<Longrightarrow> movement_step (b, ps) (b', ps)"
| complete: "complete b p = (b', p') \<Longrightarrow> movement_step (b, xs @ p # ys) (b', xs @ ys)"

subsection \<open>Hysteresis\<close>

lemma desired_state_not_marker: "desired_state c s \<noteq> Pr_Recovering"
  by (simp add: desired_state_def)

lemma desired_state_update [simp]:
  "desired_state (c\<lparr>pc_last_at_ms := l\<rparr>) = desired_state c"
  "desired_state (c\<lparr>pc_pending := p\<rparr>) = desired_state c"
  "desired_state (c\<lparr>pc_state := q\<rparr>) = desired_state c"
  by (simp_all add: desired_state_def fun_eq_iff)

text \<open>A sustained observation: fresh samples, all asking for \<open>d\<close>, the first of them at \<open>t\<close>.\<close>

definition sustained ::
  "pressure_classifier \<Rightarrow> pressure_sample list \<Rightarrow> pressure_state \<Rightarrow> i64 \<Rightarrow> bool" where
  "sustained c hist d t \<longleftrightarrow> (\<exists>pre suf. hist = pre @ suf \<and> suf \<noteq> [] \<and> ps_at_ms (hd suf) = t
     \<and> (\<forall>x \<in> set suf. \<not> ps_stale x \<and> desired_state c x = d))"

definition hysteresis_inv :: "pressure_classifier \<Rightarrow> pressure_sample list \<Rightarrow> bool" where
  "hysteresis_inv c hist \<longleftrightarrow> pc_state c \<noteq> Pr_Recovering
     \<and> (\<forall>d t. pc_pending c = Some (d, t) \<longrightarrow> sustained c hist d t)"

lemma sustained_update [simp]:
  "sustained (c\<lparr>pc_last_at_ms := l\<rparr>) = sustained c"
  "sustained (c\<lparr>pc_pending := p\<rparr>) = sustained c"
  "sustained (c\<lparr>pc_state := q\<rparr>) = sustained c"
  by (simp_all add: sustained_def fun_eq_iff)

lemma sustained_start:
  "\<not> ps_stale s \<Longrightarrow> sustained c (hist @ [s]) (desired_state c s) (ps_at_ms s)"
  unfolding sustained_def by (intro exI [of _ hist] exI [of _ "[s]"]) simp

lemma sustained_extend:
  assumes "sustained c hist (desired_state c s) t" and "\<not> ps_stale s"
  shows "sustained c (hist @ [s]) (desired_state c s) t"
proof -
  obtain pre suf where "hist = pre @ suf" "suf \<noteq> []" "ps_at_ms (hd suf) = t"
    "\<forall>x \<in> set suf. \<not> ps_stale x \<and> desired_state c x = desired_state c s"
    using assms(1) unfolding sustained_def by blast
  then show ?thesis
    using assms(2) unfolding sustained_def by (intro exI [of _ pre] exI [of _ "suf @ [s]"]) auto
qed

lemma saturating_dwell: "0 < dwell \<Longrightarrow> dwell \<le> i64_saturating_sub a b \<Longrightarrow> dwell \<le> a - b"
  by (simp add: i64_saturating_sub_def i64_MIN_def le_max_iff_disj)

lemma observe_hysteresis:
  assumes "hysteresis_inv c hist" and "observe c s = Inr (c', st)" and "0 < pc_dwell_ms c"
  shows "hysteresis_inv c' (hist @ [s]) \<and> st = pc_state c'
    \<and> desired_state c' = desired_state c \<and> pc_dwell_ms c' = pc_dwell_ms c
    \<and> (st \<noteq> pc_state c \<longrightarrow> (if ps_stale s then pc_state c = Normal \<and> st = Constrained
         else \<exists>t. sustained c (hist @ [s]) st t \<and> pc_dwell_ms c \<le> ps_at_ms s - t))"
proof (cases "ps_stale s")
  case True
  then show ?thesis
    using assms(1,2) by (auto simp: observe_def rust_simps Let_def hysteresis_inv_def split: if_splits)
next
  case fresh: False
  let ?d = "desired_state c s"
  show ?thesis
  proof (cases "pc_pending c = None \<or> fst (the (pc_pending c)) \<noteq> ?d \<or> ?d = pc_state c")
    case True
    then show ?thesis
      using assms(1,2) fresh sustained_start [OF fresh, of c hist]
      by (auto simp: observe_def rust_simps Let_def hysteresis_inv_def
          split: if_splits option.splits prod.splits)
  next
    case False
    then obtain t where t: "pc_pending c = Some (?d, t)" and ne: "?d \<noteq> pc_state c"
      by auto
    then have "sustained c (hist @ [s]) ?d t"
      using assms(1) fresh sustained_extend by (simp add: hysteresis_inv_def)
    then show ?thesis
      using assms fresh t ne saturating_dwell [OF assms(3)] desired_state_not_marker [of c s]
      by (auto simp: observe_def rust_simps Let_def hysteresis_inv_def split: if_splits)
  qed
qed

lemma observe_all_hysteresis:
  assumes "hysteresis_inv c hist" and "0 < pc_dwell_ms c"
  shows "hysteresis_inv (observe_all c ss) (hist @ accepted c ss)
    \<and> desired_state (observe_all c ss) = desired_state c
    \<and> pc_dwell_ms (observe_all c ss) = pc_dwell_ms c"
  using assms
proof (induction ss arbitrary: c hist)
  case (Cons s ss)
  show ?case
  proof (cases "observe c s")
    case (Inl e)
    then show ?thesis
      using Cons by simp
  next
    case (Inr r)
    then obtain c' st where r: "observe c s = Inr (c', st)"
      by (cases r) auto
    have step: "hysteresis_inv c' (hist @ [s])" "desired_state c' = desired_state c"
        "pc_dwell_ms c' = pc_dwell_ms c"
      using observe_hysteresis [OF Cons.prems(1) r Cons.prems(2)] by auto
    then show ?thesis
      using Cons.IH [of c' "hist @ [s]"] Cons.prems(2) r by simp
  qed
qed simp

text \<open>
  C26: The classifier is hysteretic. After any history of samples from a new classifier, a sample
  changes the state only in two ways: a stale sample moves a normal node to constrained (and
  never declares recovery), and a fresh sample installs a state that every accepted sample of a
  period of at least the dwell time, ending with it, was fresh and asked for. The transient
  recovering marker is never observed.
\<close>

theorem pressure_change_is_sustained:
  assumes "classifier_new enter exit dwell = Inr c0"
    and "observe (observe_all c0 history) s = Inr (c, st)"
    and "st \<noteq> pc_state (observe_all c0 history)"
  shows "st \<noteq> Pr_Recovering \<and> pc_state c = st
    \<and> (if ps_stale s then pc_state (observe_all c0 history) = Normal \<and> st = Constrained
       else \<exists>pre suf. accepted c0 history @ [s] = pre @ suf \<and> suf \<noteq> []
         \<and> (\<forall>x \<in> set suf. \<not> ps_stale x \<and> desired_state c0 x = st)
         \<and> dwell \<le> ps_at_ms s - ps_at_ms (hd suf))"
proof -
  have c0: "hysteresis_inv c0 []" "pc_dwell_ms c0 = dwell" "0 < dwell"
    using assms(1) by (auto simp: classifier_new_def hysteresis_inv_def split: if_splits)
  let ?c = "observe_all c0 history"
  have run: "hysteresis_inv ?c (accepted c0 history)" "desired_state ?c = desired_state c0"
      "pc_dwell_ms ?c = dwell"
    using observe_all_hysteresis [of c0 "[]" history] c0 by auto
  have same: "sustained ?c = sustained c0"
    using run(2) by (simp add: sustained_def fun_eq_iff)
  have obs: "pc_state c \<noteq> Pr_Recovering" "st = pc_state c"
    and why: "if ps_stale s then pc_state ?c = Normal \<and> st = Constrained
      else \<exists>t. sustained c0 (accepted c0 history @ [s]) st t \<and> dwell \<le> ps_at_ms s - t"
    using observe_hysteresis [OF run(1) assms(2)] assms(3) c0(3)
    unfolding hysteresis_inv_def run(3) same by auto
  show ?thesis
  proof (cases "ps_stale s")
    case True
    then show ?thesis
      using obs why by simp
  next
    case False
    then obtain t where "sustained c0 (accepted c0 history @ [s]) st t" "dwell \<le> ps_at_ms s - t"
      using why by auto
    then show ?thesis
      using False obs unfolding sustained_def by auto
  qed
qed

definition hot_sample :: "i64 \<Rightarrow> pressure_sample" where
  "hot_sample t = \<lparr>ps_at_ms = t, ps_memory = 950, ps_disk = 100, ps_jobs = 100, ps_stale = False\<rparr>"

theorem pressure_change_is_sustained_witness:
  "\<exists>c0 pre suf. classifier_new 900 700 50 = Inr c0
     \<and> accepted c0 [hot_sample 0, hot_sample 30] @ [hot_sample 60] = pre @ suf
     \<and> suf \<noteq> [] \<and> (\<forall>x \<in> set suf. desired_state c0 x = Shedding)
     \<and> 50 \<le> ps_at_ms (hot_sample 60) - ps_at_ms (hd suf)"
proof -
  define c0 where "c0 = \<lparr>pc_enter_permille = 900, pc_exit_permille = 700, pc_dwell_ms = 50,
    pc_state = Normal, pc_pending = None, pc_last_at_ms = None\<rparr>"
  have new: "classifier_new 900 700 50 = Inr c0"
    unfolding c0_def by code_simp
  have "observe (observe_all c0 [hot_sample 0, hot_sample 30]) (hot_sample 60)
      = Inr (c0\<lparr>pc_state := Shedding, pc_last_at_ms := Some 60\<rparr>, Shedding)"
    unfolding c0_def by code_simp
  moreover have "pc_state (observe_all c0 [hot_sample 0, hot_sample 30]) = Normal"
    unfolding c0_def by code_simp
  ultimately show ?thesis
    using pressure_change_is_sustained [OF new, of "[hot_sample 0, hot_sample 30]" "hot_sample 60"] new
    by (auto simp: hot_sample_def)
qed

subsection \<open>The bounds of the movement budget\<close>

definition in_flight :: "bool \<Rightarrow> movement_permit list \<Rightarrow> nat" where
  "in_flight requested ps = length (filter (\<lambda>p. mp_requested p = requested) ps)"

text \<open>One class of movements: its limit, its reservations and its completions in the window.\<close>

definition class_ok :: "u32 \<Rightarrow> u32 \<Rightarrow> u32 \<Rightarrow> nat \<Rightarrow> bool" where
  "class_ok limit used done n \<longleftrightarrow> limit \<noteq> 0 \<and> unat used = n \<and> used \<le> limit
     \<and> unat used + unat done < 2 * unat limit"

definition budget_inv :: "movement_budget \<times> movement_permit list \<Rightarrow> bool" where
  "budget_inv = (\<lambda>(b, ps). list_all (\<lambda>p. \<not> mp_completed p) ps
     \<and> class_ok (mb_limit b) (mb_used b) (mb_completed_in_window b) (in_flight False ps)
     \<and> class_ok (mb_requested_limit b) (mb_requested_used b) (mb_requested_completed_in_window b)
         (in_flight True ps))"

lemma class_ok_window: "class_ok limit used done n \<Longrightarrow> class_ok limit used 0 n"
  by (auto simp: class_ok_def word_le_nat_alt word_unat_eq_iff)

lemma class_ok_start:
  assumes "class_ok limit used done n" and "used < limit" and "done < limit"
  shows "class_ok limit (used + 1) done (Suc n)"
  using assms unat_Suc_if_less [OF assms(2)]
  by (auto simp: class_ok_def word_le_nat_alt word_less_nat_alt)

lemma class_ok_complete:
  assumes "class_ok limit used done (Suc n)"
  shows "class_ok limit (saturating_sub used 1) (saturating_add done 1) n"
  using assms by (auto simp: class_ok_def unat_saturating_sub unat_saturating_add word_le_nat_alt)

lemma in_flight_simps [simp]:
  "in_flight q [] = 0"
  "in_flight q (p # ps) = (if mp_requested p = q then Suc (in_flight q ps) else in_flight q ps)"
  "in_flight q (ps @ qs) = in_flight q ps + in_flight q qs"
  by (simp_all add: in_flight_def)

lemma try_start_inv:
  assumes "budget_inv (b, ps)" and "try_start b now = (b', r)"
  shows "budget_inv (b', case r of Inl e \<Rightarrow> ps | Inr p \<Rightarrow> p # ps)"
  using assms class_ok_window class_ok_start
  by (auto simp: budget_inv_def try_start_def Let_def not_le split: if_splits)

lemma try_start_requested_inv:
  assumes "budget_inv (b, ps)" and "try_start_requested b now = (b', r)"
  shows "budget_inv (b', case r of Inl e \<Rightarrow> ps | Inr p \<Rightarrow> p # ps)"
  using assms class_ok_window class_ok_start
  by (auto simp: budget_inv_def try_start_requested_def Let_def not_le split: if_splits)

lemma complete_inv:
  assumes "budget_inv (b, xs @ p # ys)" and "complete b p = (b', p')"
  shows "budget_inv (b', xs @ ys)"
  using assms class_ok_complete
  by (auto simp: budget_inv_def complete_def split: if_splits)

interpretation budget: preserved movement_step budget_inv
proof
  show "budget_inv t" if "budget_inv s" "movement_step s t" for s t
    using that(2,1) by cases (auto dest: try_start_inv try_start_requested_inv complete_inv)
qed

lemma limits_fixed: "movement_step s t \<Longrightarrow> mb_limit (fst t) = mb_limit (fst s)
    \<and> mb_requested_limit (fst t) = mb_requested_limit (fst s)"
  by (cases rule: movement_step.cases)
    (auto simp: try_start_def try_start_requested_def complete_def Let_def split: if_splits)

lemma limits_fixed_run: "movement_step\<^sup>*\<^sup>* s t \<Longrightarrow> mb_limit (fst t) = mb_limit (fst s)
    \<and> mb_requested_limit (fst t) = mb_requested_limit (fst s)"
  by (induction rule: rtranclp_induct) (auto dest: limits_fixed)

text \<open>Limit 2, all at time 0: start, start, complete, start, complete, complete.\<close>

lemma three_completions:
  assumes "with_requested_limit 2 1 1000 = Inr b0"
  shows "movement_step\<^sup>*\<^sup>* (b0, []) (b0\<lparr>mb_completed_in_window := 3\<rparr>, [])"
proof -
  let ?p = "\<lparr>mp_completed = False, mp_requested = False\<rparr>"
  let ?s = "\<lambda>u d. b0\<lparr>mb_used := u, mb_completed_in_window := d\<rparr>"
  have b0: "b0 = \<lparr>mb_limit = 2, mb_used = 0, mb_interval_ms = 1000, mb_window_started_ms = 0,
      mb_completed_in_window = 0, mb_requested_limit = 1, mb_requested_used = 0,
      mb_requested_window_started_ms = 0, mb_requested_completed_in_window = 0\<rparr>"
    using assms by (simp add: with_requested_limit_def)
  have start: "try_start (?s u d) 0 = (?s (u + 1) d, Inr ?p)" if "u < 2" "d < 2" for u d
    using that by (auto simp: try_start_def b0 Let_def i64_saturating_sub_def i64_MIN_def i64_MAX_def)
  have finish: "complete (?s u d) ?p = (?s (saturating_sub u 1) (saturating_add d 1), ?p\<lparr>mp_completed := True\<rparr>)"
    for u d
    by (simp add: complete_def b0)
  have sub: "saturating_sub 2 1 = (1 :: u32)" "saturating_sub 1 1 = (0 :: u32)"
    and add: "saturating_add 0 1 = (1 :: u32)" "saturating_add 1 1 = (2 :: u32)"
      "saturating_add 2 1 = (3 :: u32)"
    by (simp_all add: saturating_sub_def saturating_add_def)
  have go: "movement_step (?s u d, ps) (?s (u + 1) d, ?p # ps)" if "u < 2" "d < 2" for u d ps
    using movement_step.start [OF start [OF that]] .
  have "movement_step (?s 0 0, []) (?s 1 0, [?p])" "movement_step (?s 1 0, [?p]) (?s 2 0, [?p, ?p])"
    using go [of 0 0 "[]"] go [of 1 0 "[?p]"] by simp_all
  moreover have "movement_step (?s 2 0, [?p, ?p]) (?s 1 1, [?p])"
    using movement_step.complete [OF finish [where u = 2 and d = 0], where xs = "[]" and ys = "[?p]"]
    by (simp add: sub add)
  moreover have "movement_step (?s 1 1, [?p]) (?s 2 1, [?p, ?p])"
    using go [of 1 1 "[?p]"] by simp
  moreover have "movement_step (?s 2 1, [?p, ?p]) (?s 1 2, [?p])"
    using movement_step.complete [OF finish [where u = 2 and d = 1], where xs = "[]" and ys = "[?p]"]
    by (simp add: sub add)
  moreover have "movement_step (?s 1 2, [?p]) (?s 0 3, [])"
    using movement_step.complete [OF finish [where u = 1 and d = 2], where xs = "[]" and ys = "[]"]
    by (simp add: sub add)
  ultimately have "movement_step\<^sup>*\<^sup>* (?s 0 0, []) (?s 0 3, [])"
    by (meson converse_rtranclp_into_rtranclp rtranclp.rtrancl_refl)
  then show ?thesis
    by (simp add: b0)
qed

text \<open>
  C27: The bounds of the movement budget. However starts and completions of both classes interleave,
  the reservations of each class are its incomplete permits and never exceed its limit, and the
  completions counted in one window stay below twice the limit. The limit itself does not bound
  them: with limit 2, three movements complete in one window. Each permit is completed at most
  once; its type is copyable and does not enforce that.
\<close>

theorem movement_budget_bounds:
  assumes "with_requested_limit limit requested interval = Inr b0"
    and "movement_step\<^sup>*\<^sup>* (b0, []) (b, ps)"
  shows "unat (mb_used b) = in_flight False ps \<and> mb_used b \<le> limit
    \<and> unat (mb_completed_in_window b) + unat (mb_used b) < 2 * unat limit
    \<and> unat (mb_requested_used b) = in_flight True ps \<and> mb_requested_used b \<le> requested
    \<and> unat (mb_requested_completed_in_window b) + unat (mb_requested_used b) < 2 * unat requested
    \<and> (\<forall>b1. with_requested_limit 2 1 1000 = Inr b1 \<longrightarrow>
         movement_step\<^sup>*\<^sup>* (b1, []) (b1\<lparr>mb_completed_in_window := 3\<rparr>, []))"
proof -
  have "budget_inv (b0, [])" and l: "mb_limit b0 = limit" "mb_requested_limit b0 = requested"
    using assms(1) by (auto simp: with_requested_limit_def budget_inv_def class_ok_def
        word_unat_eq_iff split: if_splits)
  then have "budget_inv (b, ps)"
    using budget.run_inv [OF assms(2)] by simp
  moreover have "mb_limit b = limit" "mb_requested_limit b = requested"
    using limits_fixed_run [OF assms(2)] l by simp_all
  ultimately show ?thesis
    using three_completions by (auto simp: budget_inv_def class_ok_def)
qed

theorem movement_budget_bounds_witness:
  "\<exists>b0. with_requested_limit 2 1 1000 = Inr b0
     \<and> movement_step\<^sup>*\<^sup>* (b0, []) (b0\<lparr>mb_completed_in_window := 3\<rparr>, [])
     \<and> unat (mb_completed_in_window (b0\<lparr>mb_completed_in_window := 3\<rparr>)) < 4"
proof -
  obtain b0 where b0: "with_requested_limit 2 1 1000 = Inr b0"
    by (simp add: with_requested_limit_def)
  from movement_budget_bounds [OF b0, of b0 "[]"] movement_budget_bounds [OF b0]
  show ?thesis
    using b0 by fastforce
qed

end
