(* ===== verification/Node_Capacity.thy ===== *)
theory Node_Capacity
  imports Fleet_Pressure Cell_Identity
begin

text \<open>
  Node capacity values, \<^verbatim>\<open>crates/cellule-runtime/src/node/capacity.rs\<close>: the admission mode and the
  wire pressure tier of a node, the operational sample and the capacity blocks an advertisement
  carries, and the failure domain labels, each with its validation.
\<close>

datatype node_mode = Nm_Active | Nm_Cordoned | Nm_Draining

datatype node_pressure = Np_Normal | Np_Constrained | Np_Shedding | Np_Critical

fun node_pressure_try_from :: "pressure_state \<Rightarrow> node_pressure result" where
  "node_pressure_try_from Normal = Inr Np_Normal"
| "node_pressure_try_from Constrained = Inr Np_Constrained"
| "node_pressure_try_from Shedding = Inr Np_Shedding"
| "node_pressure_try_from Critical = Inr Np_Critical"
| "node_pressure_try_from Pr_Recovering = Inl (Node ''transient pressure is not a wire tier'')"

record node_operational_sample =
  os_mode :: node_mode
  os_pressure :: node_pressure
  os_sequence :: u64
  os_observed_at_ms :: i64

definition operational_validated :: "node_operational_sample \<Rightarrow> node_operational_sample result" where
  "operational_validated s =
     (if os_sequence s = 0 \<or> os_observed_at_ms s < 0
      then Inl (Node ''operational sample identity is invalid'') else Inr s)"

definition accepts_roles :: "node_operational_sample \<Rightarrow> bool" where
  "accepts_roles s \<longleftrightarrow> os_mode s = Nm_Active \<and> os_pressure s = Np_Normal"

record node_capacity =
  nc_free_memory_bytes :: u64
  nc_free_disk_bytes :: u64
  nc_follower_free_bytes :: u64
  nc_follower_retained_bytes :: u64
  nc_job_credits :: u32
  nc_log_protocol :: u32

record node_placement_capacity =
  npc_memory_capacity_bytes :: u64
  npc_disk_capacity_bytes :: u64
  npc_active_cells :: u32
  npc_max_active_cells :: u32
  npc_running_jobs :: u32
  npc_job_capacity :: u32
  npc_publication_backlog :: u32
  npc_hydration_backlog :: u32
  npc_primitive_backlog :: u32

definition placement_validated :: "node_placement_capacity \<Rightarrow> node_placement_capacity result" where
  "placement_validated p =
     (if npc_memory_capacity_bytes p = 0 \<or> npc_disk_capacity_bytes p = 0
         \<or> npc_max_active_cells p = 0 \<or> npc_active_cells p > npc_max_active_cells p
         \<or> npc_job_capacity p = 0 \<or> npc_running_jobs p > npc_job_capacity p
      then Inl (Node ''placement capacity is invalid'') else Inr p)"

text \<open>
  Topology labels. The source's test that a label is ASCII precedes the test that every byte is an
  ASCII graphic character.
\<close>

definition MAX_FAILURE_DOMAIN_BYTES :: nat where
  "MAX_FAILURE_DOMAIN_BYTES = 253"

record node_failure_domain =
  fd_zone :: "rstring option"
  fd_host :: "rstring option"

definition is_ascii :: "rstring \<Rightarrow> bool" where
  "is_ascii = list_all (\<lambda>b. b < 128)"

definition is_ascii_graphic :: "u8 \<Rightarrow> bool" where
  "is_ascii_graphic b \<longleftrightarrow> 33 \<le> b \<and> b \<le> 126"

definition domain_label_invalid :: "rstring \<Rightarrow> bool" where
  "domain_label_invalid v \<longleftrightarrow> v = [] \<or> length v > MAX_FAILURE_DOMAIN_BYTES \<or> \<not> is_ascii v
     \<or> list_ex (\<lambda>b. \<not> is_ascii_graphic b) v"

definition failure_domain_validate :: "node_failure_domain \<Rightarrow> unit result" where
  "failure_domain_validate d = reject_if
     (list_ex domain_label_invalid (List.map_filter id [fd_zone d, fd_host d]))
     (Node ''node failure domain is invalid'')"

definition failure_domain_new :: "rstring option \<Rightarrow> rstring option \<Rightarrow> node_failure_domain result" where
  "failure_domain_new zone host =
     (let d = \<lparr>fd_zone = zone, fd_host = host\<rparr> in bind_r (failure_domain_validate d) (\<lambda>_. Inr d))"

lemma operational_validated_Inr [rust_simps]:
  "operational_validated s = Inr t \<longleftrightarrow> t = s \<and> os_sequence s \<noteq> 0 \<and> 0 \<le> os_observed_at_ms s"
  by (auto simp: operational_validated_def)

lemma placement_validated_Inr [rust_simps]:
  "placement_validated p = Inr q \<longleftrightarrow> q = p \<and> npc_memory_capacity_bytes p \<noteq> 0
     \<and> npc_disk_capacity_bytes p \<noteq> 0 \<and> npc_max_active_cells p \<noteq> 0
     \<and> npc_active_cells p \<le> npc_max_active_cells p \<and> npc_job_capacity p \<noteq> 0
     \<and> npc_running_jobs p \<le> npc_job_capacity p"
  by (auto simp: placement_validated_def not_less)

lemma failure_domain_new_Inr [rust_simps]:
  "failure_domain_new zone host = Inr d \<longleftrightarrow> d = \<lparr>fd_zone = zone, fd_host = host\<rparr>
     \<and> failure_domain_validate d = Inr ()"
  by (auto simp: failure_domain_new_def Let_def rust_simps)

end
