(* ===== verification/Placement.thy ===== *)
theory Placement
  imports Node_Capacity
begin

text \<open>
  The placement planner, \<^verbatim>\<open>crates/cellule-runtime/src/fleet/placement/mod.rs\<close>: the observation of a node,
  its eligibility and score, the ranking of candidates for one Cell, the weighted ownership balance
  of a fleet snapshot, and the bounded plan of transfers. The planner is a pure function of one
  snapshot; BLAKE3, which spreads ties, is the parameter \<open>blake3\<close>. Its 128-bit accumulators
  are natural numbers: snapshots hold at most 10000 members with 32-bit counts, and a score is at
  most \<open>950000 + 50000 + 99\<close>, far below their range.
\<close>

subsection \<open>Values\<close>

definition MAX_OBSERVATION_AGE_MS :: i64 where "MAX_OBSERVATION_AGE_MS = 30000"
definition SCORE_SCALE :: u128 where "SCORE_SCALE = 1000"
definition MIN_TRANSFER_GAIN :: u128 where "MIN_TRANSFER_GAIN = 50000"
definition MIN_RESIDENCE_MS :: i64 where "MIN_RESIDENCE_MS = 60000"
definition MAX_TRANSFERS_PER_TICK :: nat where "MAX_TRANSFERS_PER_TICK = 2"
definition MAX_TRANSFER_BYTES_PER_TICK :: u64 where
  "MAX_TRANSFER_BYTES_PER_TICK = 8 * 1024 * 1024 * 1024"
definition BALANCE_DEADBAND_PERCENT :: u128 where "BALANCE_DEADBAND_PERCENT = 2"

text \<open>The derived order of the enumerations is the order of their variants.\<close>

datatype placement_pressure = Pp_Normal | Pp_Constrained | Pp_Shedding | Pp_Critical

fun pressure_rank :: "placement_pressure \<Rightarrow> nat" where
  "pressure_rank Pp_Normal = 0"
| "pressure_rank Pp_Constrained = 1"
| "pressure_rank Pp_Shedding = 2"
| "pressure_rank Pp_Critical = 3"

instantiation placement_pressure :: linorder
begin

definition less_eq_placement_pressure :: "placement_pressure \<Rightarrow> placement_pressure \<Rightarrow> bool" where
  "p \<le> q \<longleftrightarrow> pressure_rank p \<le> pressure_rank q"

definition less_placement_pressure :: "placement_pressure \<Rightarrow> placement_pressure \<Rightarrow> bool" where
  "p < q \<longleftrightarrow> pressure_rank p < pressure_rank q"

instance
proof
  show "p = q" if "p \<le> q" "q \<le> p" for p q :: placement_pressure
    using that by (cases p; cases q) (auto simp: less_eq_placement_pressure_def)
qed (auto simp: less_eq_placement_pressure_def less_placement_pressure_def)

end

datatype placement_eligibility = Eligible | Unauthenticated | Stale | Pe_Draining | CriticalPressure
  | Pressure | NoMemoryHeadroom | NoDiskHeadroom | NoCellCapacity | NoJobCapacity

fun eligibility_rank :: "placement_eligibility \<Rightarrow> nat" where
  "eligibility_rank Eligible = 0"
| "eligibility_rank Unauthenticated = 1"
| "eligibility_rank Stale = 2"
| "eligibility_rank Pe_Draining = 3"
| "eligibility_rank CriticalPressure = 4"
| "eligibility_rank Pressure = 5"
| "eligibility_rank NoMemoryHeadroom = 6"
| "eligibility_rank NoDiskHeadroom = 7"
| "eligibility_rank NoCellCapacity = 8"
| "eligibility_rank NoJobCapacity = 9"

instantiation placement_eligibility :: linorder
begin

definition less_eq_placement_eligibility :: "placement_eligibility \<Rightarrow> placement_eligibility \<Rightarrow> bool" where
  "p \<le> q \<longleftrightarrow> eligibility_rank p \<le> eligibility_rank q"

definition less_placement_eligibility :: "placement_eligibility \<Rightarrow> placement_eligibility \<Rightarrow> bool" where
  "p < q \<longleftrightarrow> eligibility_rank p < eligibility_rank q"

instance
proof
  show "p = q" if "p \<le> q" "q \<le> p" for p q :: placement_eligibility
    using that by (cases p; cases q) (auto simp: less_eq_placement_eligibility_def)
qed (auto simp: less_eq_placement_eligibility_def less_placement_eligibility_def)

end

record placement_observation =
  po_node :: node_id
  po_session :: session_id
  po_observed_at_ms :: i64
  po_memory_capacity_bytes :: u64
  po_free_memory_bytes :: u64
  po_disk_capacity_bytes :: u64
  po_free_disk_bytes :: u64
  po_active_cells :: u32
  po_max_active_cells :: u32
  po_running_jobs :: u32
  po_job_capacity :: u32
  po_publication_backlog :: u32
  po_hydration_backlog :: u32
  po_primitive_backlog :: u32
  po_pressure :: placement_pressure
  po_draining :: bool
  po_authenticated :: bool
  po_current_owner :: bool

record placement_score =
  sc_node :: node_id
  sc_session :: session_id
  sc_score :: u128
  sc_eligibility :: placement_eligibility

record cell_transfer_demand =
  td_cell :: cell_id
  td_source :: session_id
  td_generation :: u64
  td_memory_bytes :: u64
  td_disk_bytes :: u64
  td_job_credits :: u32
  td_resident_since_ms :: i64
  td_last_used_ms :: i64
  td_last_moved_at_ms :: "i64 option"
  td_stable_observations :: u8
  td_settled :: bool
  td_maintenance :: bool

record cell_transfer_intent =
  ti_cell :: cell_id
  ti_source :: session_id
  ti_generation :: u64
  ti_destination :: session_id
  ti_observed_at_ms :: i64
  ti_memory_bytes :: u64
  ti_disk_bytes :: u64
  ti_job_credits :: u32

record fleet_balance =
  fb_donor :: session_id
  fb_surplus :: nat
  fb_receivers :: "session_id list"

record placement_planner =
  pl_max_observation_age_ms :: i64

definition planner_default :: placement_planner where
  "planner_default = \<lparr>pl_max_observation_age_ms = MAX_OBSERVATION_AGE_MS\<rparr>"

definition planner_new :: "i64 \<Rightarrow> placement_planner result" where
  "planner_new age = (if age \<le> 0 then Inl (Control ''placement freshness window is invalid'')
     else Inr \<lparr>pl_max_observation_age_ms = age\<rparr>)"

subsection \<open>Eligibility and score\<close>

definition fresh :: "placement_planner \<Rightarrow> i64 \<Rightarrow> placement_observation \<Rightarrow> bool" where
  "fresh p now ob \<longleftrightarrow> po_authenticated ob \<and> po_observed_at_ms ob \<ge> 0 \<and> po_observed_at_ms ob \<le> now
     \<and> i64_saturating_sub now (po_observed_at_ms ob) \<le> pl_max_observation_age_ms p"

definition sampled_after :: "placement_planner \<Rightarrow> i64 \<Rightarrow> placement_observation \<Rightarrow> i64 \<Rightarrow> bool" where
  "sampled_after p now ob since \<longleftrightarrow> fresh p now ob \<and> po_observed_at_ms ob > since"

definition eligibility :: "placement_planner \<Rightarrow> i64 \<Rightarrow> placement_observation \<Rightarrow> placement_eligibility" where
  "eligibility p now ob =
     (if \<not> fresh p now ob then (if po_authenticated ob then Stale else Unauthenticated)
      else if po_draining ob then Pe_Draining
      else if po_pressure ob \<ge> Pp_Critical then CriticalPressure
      else if po_pressure ob \<noteq> Pp_Normal then Pressure
      else if po_memory_capacity_bytes ob = 0 \<or> po_free_memory_bytes ob = 0 then NoMemoryHeadroom
      else if po_disk_capacity_bytes ob = 0 \<or> po_free_disk_bytes ob = 0 then NoDiskHeadroom
      else if po_max_active_cells ob = 0 \<or> po_active_cells ob \<ge> po_max_active_cells ob
      then NoCellCapacity
      else if po_job_capacity ob = 0 \<or> po_running_jobs ob \<ge> po_job_capacity ob then NoJobCapacity
      else Eligible)"

definition ratio :: "u64 \<Rightarrow> u64 \<Rightarrow> u128" where
  "ratio numerator denominator =
     (if denominator = 0 then 0
      else unat (min numerator denominator) * SCORE_SCALE div unat denominator)"

definition placement_hash :: "(bytes \<Rightarrow> bytes) \<Rightarrow> cell_id \<Rightarrow> node_id \<Rightarrow> session_id \<Rightarrow> u128" where
  "placement_hash blake3 cell node session =
     nat_of_be (take 16 (blake3 (ascii ''crab.cell.placement.v1'' @ [0] @ cell_bytes cell
       @ node_bytes node @ session_bytes session)))"

definition score :: "(bytes \<Rightarrow> bytes) \<Rightarrow> placement_planner \<Rightarrow> cell_id \<Rightarrow> i64 \<Rightarrow> placement_observation
    \<Rightarrow> placement_score" where
  "score blake3 p cell now ob =
     (let e = eligibility p now ob in
      if e \<noteq> Eligible then
        \<lparr>sc_node = po_node ob, sc_session = po_session ob, sc_score = 0, sc_eligibility = e\<rparr>
      else
        let memory = ratio (po_free_memory_bytes ob) (po_memory_capacity_bytes ob);
            disk = ratio (po_free_disk_bytes ob) (po_disk_capacity_bytes ob);
            cells = ratio (ucast (saturating_sub (po_max_active_cells ob) (po_active_cells ob)))
                      (ucast (po_max_active_cells ob));
            jobs = ratio (ucast (saturating_sub (po_job_capacity ob) (po_running_jobs ob)))
                      (ucast (po_job_capacity ob));
            backlog = unat (saturating_add (saturating_add (po_publication_backlog ob)
                        (po_hydration_backlog ob)) (po_primitive_backlog ob));
            sticky = (if po_current_owner ob then 1 else 0) * 50;
            hash_bonus = placement_hash blake3 cell (po_node ob) (po_session ob) mod 100
        in \<lparr>sc_node = po_node ob, sc_session = po_session ob,
            sc_score = (memory * 400 + disk * 250 + cells * 200 + jobs * 100 + sticky * SCORE_SCALE
              + hash_bonus) - min backlog 100 * SCORE_SCALE,
            sc_eligibility = e\<rparr>)"

definition score_order :: "placement_score \<Rightarrow> placement_score \<Rightarrow> ordering" where
  "score_order l r =
     then_with (ocmp (sc_score r) (sc_score l))
     (then_with (ocmp (sc_eligibility r) (sc_eligibility l))
     (then_with (ocmp (node_bytes (sc_node l)) (node_bytes (sc_node r)))
     (ocmp (session_bytes (sc_session l)) (session_bytes (sc_session r)))))"

definition rank :: "(bytes \<Rightarrow> bytes) \<Rightarrow> placement_planner \<Rightarrow> cell_id \<Rightarrow> i64 \<Rightarrow> placement_observation list
    \<Rightarrow> placement_score list result" where
  "rank blake3 p cell now observations =
     (if now < 0 then Inl (Control ''placement time is invalid'')
      else Inr (sort_by score_order (map (score blake3 p cell now) observations)))"

definition choose_node :: "(bytes \<Rightarrow> bytes) \<Rightarrow> placement_planner \<Rightarrow> cell_id \<Rightarrow> i64 \<Rightarrow> placement_observation list
    \<Rightarrow> placement_score option result" where
  "choose_node blake3 p cell now observations =
     bind_r (rank blake3 p cell now observations)
       (\<lambda>scores. Inr (find (\<lambda>s. sc_eligibility s = Eligible) scores))"

subsection \<open>Balance\<close>

definition denser :: "placement_observation \<Rightarrow> placement_observation \<Rightarrow> ordering" where
  "denser l r =
     then_with (ocmp (unat (po_active_cells l) * unat (po_max_active_cells r))
                     (unat (po_active_cells r) * unat (po_max_active_cells l)))
     (then_with (ocmp (node_bytes (po_node r)) (node_bytes (po_node l)))
     (ocmp (session_bytes (po_session r)) (session_bytes (po_session l))))"

definition room :: "placement_observation \<Rightarrow> u128 \<Rightarrow> u128" where
  "room ob target =
     (let deadband = target * BALANCE_DEADBAND_PERCENT div 100
      in target - deadband - unat (po_active_cells ob))"

definition div_ceil :: "u128 \<Rightarrow> u128 \<Rightarrow> u128" where
  "div_ceil a b = (if a mod b > 0 then a div b + 1 else a div b)"

definition balance_target :: "u128 \<Rightarrow> u128 \<Rightarrow> placement_observation \<Rightarrow> u128" where
  "balance_target owned weight ob = div_ceil (owned * unat (po_max_active_cells ob)) weight"

text \<open>The loop over the snapshot: the sets of seen nodes and sessions, and both sums.\<close>

fun balance_scan :: "placement_planner \<Rightarrow> i64 \<Rightarrow> i64 \<Rightarrow> node_id list \<Rightarrow> session_id list \<Rightarrow> u128 \<Rightarrow> u128
    \<Rightarrow> placement_observation list \<Rightarrow> (u128 \<times> u128) option result" where
  "balance_scan p now since nodes sessions owned weight [] = Inr (Some (owned, weight))"
| "balance_scan p now since nodes sessions owned weight (ob # obs) =
     (if po_node ob \<in> set nodes \<or> po_session ob \<in> set sessions
      then Inl (Control ''fleet balance snapshot duplicates a node'')
      else if \<not> sampled_after p now ob since then Inr None
      else balance_scan p now since (po_node ob # nodes) (po_session ob # sessions)
             (owned + unat (po_active_cells ob)) (weight + unat (po_max_active_cells ob)) obs)"

definition balance_receivers :: "placement_planner \<Rightarrow> i64 \<Rightarrow> u128 \<Rightarrow> u128 \<Rightarrow> placement_observation
    \<Rightarrow> placement_observation list \<Rightarrow> placement_observation list" where
  "balance_receivers p now owned weight donor observations =
     sort_by denser (filter (\<lambda>ob. po_session ob \<noteq> po_session donor
       \<and> room ob (balance_target owned weight ob) > 0
       \<and> po_pressure ob < Pp_Shedding
       \<and> eligibility p now ob = Eligible) observations)"

definition transfer_count :: "u128 \<Rightarrow> u128 \<Rightarrow> nat" where
  "transfer_count surplus total_room =
     (let m = min surplus total_room;
          count = (if m < 2 ^ 64 then m else MAX_TRANSFERS_PER_TICK)
      in min count MAX_TRANSFERS_PER_TICK)"

definition fleet_balance_of :: "placement_planner \<Rightarrow> i64 \<Rightarrow> placement_observation list \<Rightarrow> i64
    \<Rightarrow> fleet_balance option result" where
  "fleet_balance_of p now observations since =
     (if now < 0 \<or> length observations > 10000
      then Inl (Control ''fleet balance snapshot is invalid'')
      else bind_r (balance_scan p now since [] [] 0 0 observations) (\<lambda>scan.
        case scan of None \<Rightarrow> Inr None
        | Some (owned, weight) \<Rightarrow>
            if weight = 0 then Inr None
            else case max_by denser observations of None \<Rightarrow> Inr None
              | Some donor \<Rightarrow>
                  let surplus = unat (po_active_cells donor) - balance_target owned weight donor;
                      receivers = balance_receivers p now owned weight donor observations;
                      total_room = sum_list (map (\<lambda>ob. room ob (balance_target owned weight ob)) receivers);
                      count = transfer_count surplus total_room
                  in if count = 0 then Inr None
                     else Inr (Some \<lparr>fb_donor = po_session donor, fb_surplus = count,
                                     fb_receivers = map po_session receivers\<rparr>)))"

subsection \<open>Transfers\<close>

fun has_duplicate :: "'a list \<Rightarrow> 'a list \<Rightarrow> bool" where
  "has_duplicate seen [] = False"
| "has_duplicate seen (x # xs) = (x \<in> set seen \<or> has_duplicate (x # seen) xs)"

fun duplicates_node :: "node_id list \<Rightarrow> session_id list \<Rightarrow> placement_observation list \<Rightarrow> bool" where
  "duplicates_node nodes sessions [] = False"
| "duplicates_node nodes sessions (ob # obs) =
     (po_node ob \<in> set nodes \<or> po_session ob \<in> set sessions
      \<or> duplicates_node (po_node ob # nodes) (po_session ob # sessions) obs)"

definition source_of :: "placement_observation list \<Rightarrow> session_id \<Rightarrow> placement_observation option" where
  "source_of observations session = find (\<lambda>ob. po_session ob = session) observations"

definition demand_priority :: "placement_observation list \<Rightarrow> cell_transfer_demand \<Rightarrow> nat" where
  "demand_priority observations d =
     (case source_of observations (td_source d) of None \<Rightarrow> 0
      | Some ob \<Rightarrow> (if po_draining ob then 1 else 0) * 2
                + (if po_pressure ob \<ge> Pp_Shedding then 1 else 0))"

definition demand_recency :: "placement_observation list \<Rightarrow> cell_transfer_demand \<Rightarrow> i64" where
  "demand_recency observations d =
     (case source_of observations (td_source d) of None \<Rightarrow> 0
      | Some ob \<Rightarrow> if \<not> po_draining ob \<and> po_pressure ob \<ge> Pp_Shedding then td_last_used_ms d else 0)"

definition demand_order :: "placement_observation list \<Rightarrow> cell_transfer_demand \<Rightarrow> cell_transfer_demand
    \<Rightarrow> ordering" where
  "demand_order observations l r =
     then_with (ocmp (demand_priority observations r) (demand_priority observations l))
     (then_with (ocmp (demand_recency observations r) (demand_recency observations l))
     (ocmp (cell_bytes (td_cell l)) (cell_bytes (td_cell r))))"

definition demand_refused :: "placement_planner \<Rightarrow> i64 \<Rightarrow> placement_observation \<Rightarrow> cell_transfer_demand
    \<Rightarrow> bool" where
  "demand_refused p now source d \<longleftrightarrow>
     (td_maintenance d \<and> \<not> po_draining source)
     \<or> (\<not> td_settled d \<and> \<not> td_maintenance d)
     \<or> td_generation d = 0 \<or> td_memory_bytes d = 0 \<or> td_disk_bytes d = 0 \<or> td_job_credits d = 0
     \<or> td_resident_since_ms d < 0 \<or> td_resident_since_ms d > now
     \<or> td_last_used_ms d < 0 \<or> td_last_used_ms d > now
     \<or> (case td_last_moved_at_ms d of None \<Rightarrow> False | Some at \<Rightarrow> at < 0 \<or> at > now)
     \<or> \<not> po_authenticated source
     \<or> eligibility p now source = Stale"

definition urgent :: "placement_observation \<Rightarrow> bool" where
  "urgent source \<longleftrightarrow> po_draining source \<or> po_pressure source \<ge> Pp_Shedding"

definition unsettled :: "i64 \<Rightarrow> cell_transfer_demand \<Rightarrow> bool" where
  "unsettled now d \<longleftrightarrow> td_stable_observations d < 2
     \<or> now - td_resident_since_ms d < MIN_RESIDENCE_MS
     \<or> (case td_last_moved_at_ms d of None \<Rightarrow> False | Some at \<Rightarrow> now - at < MIN_RESIDENCE_MS)"

definition receiver_room :: "u128 \<Rightarrow> u128 \<Rightarrow> placement_observation \<Rightarrow> u128" where
  "receiver_room owned weight ob =
     (let target = (if weight = 0 then 0 else div_ceil (owned * unat (po_max_active_cells ob)) weight)
      in room ob target)"

text \<open>The variables of the loop over the sorted demands.\<close>

record plan_state =
  pn_projected :: "placement_observation list"
  pn_intents :: "cell_transfer_intent list"
  pn_bytes :: u64
  pn_donations :: nat

text \<open>What the loop reads: both sums, the balance, and the snapshot.\<close>

record plan_context =
  px_observations :: "placement_observation list"
  px_balance :: "fleet_balance option"
  px_owned :: u128
  px_weight :: u128

definition accepting :: "plan_context \<Rightarrow> session_id \<Rightarrow> bool" where
  "accepting x session = (case px_balance x of None \<Rightarrow> False | Some b \<Rightarrow> session \<in> set (fb_receivers b))"

definition donates :: "plan_context \<Rightarrow> plan_state \<Rightarrow> cell_transfer_demand \<Rightarrow> bool" where
  "donates x st d = (case px_balance x of None \<Rightarrow> False
     | Some b \<Rightarrow> fb_donor b = td_source d \<and> pn_donations st < fb_surplus b)"

definition node_takes :: "plan_context \<Rightarrow> plan_state \<Rightarrow> cell_transfer_demand \<Rightarrow> placement_observation
    \<Rightarrow> u128 \<Rightarrow> placement_score \<Rightarrow> placement_observation \<Rightarrow> bool" where
  "node_takes x st d source source_score sc ob \<longleftrightarrow>
     po_free_memory_bytes ob \<ge> td_memory_bytes d
     \<and> po_free_disk_bytes ob \<ge> td_disk_bytes d
     \<and> saturating_sub (po_max_active_cells ob) (po_active_cells ob) \<ge> 1
     \<and> saturating_sub (po_job_capacity ob) (po_running_jobs ob) \<ge> td_job_credits d
     \<and> (urgent source
        \<or> donates x st d \<and> accepting x (sc_session sc)
          \<and> receiver_room (px_owned x) (px_weight x) ob > 0
        \<or> sc_score sc \<ge> source_score + MIN_TRANSFER_GAIN)"

definition destination_ok :: "plan_context \<Rightarrow> plan_state \<Rightarrow> cell_transfer_demand \<Rightarrow> placement_observation
    \<Rightarrow> u128 \<Rightarrow> placement_score \<Rightarrow> bool" where
  "destination_ok x st d source source_score sc \<longleftrightarrow>
     sc_session sc \<noteq> td_source d \<and> sc_eligibility sc = Eligible
     \<and> (case source_of (pn_projected st) (sc_session sc) of None \<Rightarrow> False
        | Some ob \<Rightarrow> node_takes x st d source source_score sc ob)"

fun update_first :: "('a \<Rightarrow> bool) \<Rightarrow> ('a \<Rightarrow> 'a) \<Rightarrow> 'a list \<Rightarrow> 'a list" where
  "update_first q f [] = []"
| "update_first q f (x # xs) = (if q x then f x # xs else x # update_first q f xs)"

definition charge :: "cell_transfer_demand \<Rightarrow> placement_observation \<Rightarrow> placement_observation" where
  "charge d ob = ob\<lparr>po_free_memory_bytes := po_free_memory_bytes ob - td_memory_bytes d,
     po_free_disk_bytes := po_free_disk_bytes ob - td_disk_bytes d,
     po_active_cells := po_active_cells ob + 1,
     po_running_jobs := po_running_jobs ob + td_job_credits d\<rparr>"

text \<open>One iteration; \<open>continue\<close> leaves the variables unchanged.\<close>

definition plan_demand :: "(bytes \<Rightarrow> bytes) \<Rightarrow> placement_planner \<Rightarrow> i64 \<Rightarrow> plan_context \<Rightarrow> plan_state
    \<Rightarrow> cell_transfer_demand \<Rightarrow> plan_state result" where
  "plan_demand blake3 p now x st d =
     (case source_of (px_observations x) (td_source d) of None \<Rightarrow> Inr st
      | Some source \<Rightarrow>
        if demand_refused p now source d then Inr st
        else if \<not> urgent source \<and> unsettled now d then Inr st
        else case checked_add (pn_bytes st) (td_disk_bytes d) of None \<Rightarrow> Inr st
          | Some next_bytes \<Rightarrow>
            if next_bytes > MAX_TRANSFER_BYTES_PER_TICK then Inr st
            else
              let source_score = sc_score (score blake3 p (td_cell d) now (source\<lparr>po_current_owner := True\<rparr>))
              in bind_r (rank blake3 p (td_cell d) now (pn_projected st)) (\<lambda>scores.
                case find (destination_ok x st d source source_score) scores of None \<Rightarrow> Inr st
                | Some destination \<Rightarrow>
                  (case source_of (pn_projected st) (sc_session destination) of None \<Rightarrow> Inr st
                   | Some receiver \<Rightarrow>
                     let donation = (\<not> urgent source \<and> donates x st d
                           \<and> accepting x (sc_session destination)
                           \<and> receiver_room (px_owned x) (px_weight x) receiver > 0)
                     in Inr \<lparr>pn_projected = update_first (\<lambda>ob. po_session ob = sc_session destination)
                               (charge d) (pn_projected st),
                             pn_intents = pn_intents st @ [\<lparr>ti_cell = td_cell d, ti_source = td_source d,
                               ti_generation = td_generation d, ti_destination = sc_session destination,
                               ti_observed_at_ms = po_observed_at_ms source,
                               ti_memory_bytes = td_memory_bytes d, ti_disk_bytes = td_disk_bytes d,
                               ti_job_credits = td_job_credits d\<rparr>],
                             pn_bytes = next_bytes,
                             pn_donations = (if donation then pn_donations st + 1 else pn_donations st)\<rparr>)))"

fun plan_loop :: "(bytes \<Rightarrow> bytes) \<Rightarrow> placement_planner \<Rightarrow> i64 \<Rightarrow> plan_context \<Rightarrow> cell_transfer_demand list
    \<Rightarrow> plan_state \<Rightarrow> plan_state result" where
  "plan_loop blake3 p now x [] st = Inr st"
| "plan_loop blake3 p now x (d # ds) st =
     (if length (pn_intents st) = MAX_TRANSFERS_PER_TICK then Inr st
      else bind_r (plan_demand blake3 p now x st d) (plan_loop blake3 p now x ds))"

definition plan_transfers :: "(bytes \<Rightarrow> bytes) \<Rightarrow> placement_planner \<Rightarrow> i64 \<Rightarrow> placement_observation list
    \<Rightarrow> cell_transfer_demand list \<Rightarrow> fleet_balance option \<Rightarrow> cell_transfer_intent list result" where
  "plan_transfers blake3 p now observations demands balance =
     (if now < 0 \<or> length observations > 10000 \<or> length demands > 10000
      then Inl (Control ''transfer snapshot is invalid'')
      else if duplicates_node [] [] observations
      then Inl (Control ''transfer snapshot duplicates a node'')
      else if has_duplicate [] (map td_cell demands)
      then Inl (Control ''transfer snapshot duplicates a Cell'')
      else
        let projected = map (\<lambda>ob. ob\<lparr>po_current_owner := False\<rparr>) observations;
            x = \<lparr>px_observations = observations, px_balance = balance,
                 px_owned = sum_list (map (\<lambda>ob. unat (po_active_cells ob)) observations),
                 px_weight = sum_list (map (\<lambda>ob. unat (po_max_active_cells ob)) observations)\<rparr>;
            candidates = sort_by (demand_order observations) demands
        in bind_r (plan_loop blake3 p now x candidates
             \<lparr>pn_projected = projected, pn_intents = [], pn_bytes = 0, pn_donations = 0\<rparr>)
             (\<lambda>st. Inr (pn_intents st)))"

end
