(* ===== verification/Placement_Plan.thy ===== *)
theory Placement_Plan
  imports Placement "HOL-Library.Code_Target_Nat"
begin

text \<open>
  Correctness of the placement planner of \<open>Placement\<close>: the comparators meet the contract
  \<open>sort_order\<close>, one snapshot elects one donor whatever its order, and a plan of transfers stays
  within the receivers' capacity, its byte budget and its length.
\<close>

subsection \<open>Duplicates and lookups\<close>

lemma has_duplicate_iff: "has_duplicate seen xs \<longleftrightarrow> \<not> (distinct xs \<and> set seen \<inter> set xs = {})"
  by (induction xs arbitrary: seen) auto

lemma duplicates_node_iff:
  "duplicates_node nodes sessions obs \<longleftrightarrow>
     has_duplicate nodes (map po_node obs) \<or> has_duplicate sessions (map po_session obs)"
  by (induction obs arbitrary: nodes sessions) (auto simp: has_duplicate_iff)

lemma source_of_Some: "source_of obs s = Some ob \<Longrightarrow> ob \<in> set obs \<and> po_session ob = s"
  by (auto simp: source_of_def find_Some_iff)

lemma source_of_unique:
  assumes "distinct (map po_session obs)" and "ob \<in> set obs"
  shows "source_of obs (po_session ob) = Some ob"
proof -
  obtain i where i: "i < length obs" "ob = obs ! i"
    using assms(2) by (metis in_set_conv_nth)
  have "po_session (obs ! j) \<noteq> po_session ob" if "j < i" for j
    using assms(1) i that nth_eq_iff_index_eq [of "map po_session obs" j i] by auto
  then show ?thesis
    using i by (auto simp: source_of_def find_Some_iff)
qed

lemma score_fields [simp]:
  "sc_node (score blake3 p c now ob) = po_node ob"
  "sc_session (score blake3 p c now ob) = po_session ob"
  "sc_eligibility (score blake3 p c now ob) = eligibility p now ob"
  by (simp_all add: score_def Let_def)

lemma set_rank: "rank blake3 p c now obs = Inr ss \<Longrightarrow> set ss = score blake3 p c now ` set obs"
  by (auto simp: rank_def split: if_splits)

lemma eligibility_Eligible: "eligibility p now ob = Eligible \<longleftrightarrow>
    fresh p now ob \<and> \<not> po_draining ob \<and> po_pressure ob = Pp_Normal
    \<and> po_memory_capacity_bytes ob \<noteq> 0 \<and> po_free_memory_bytes ob \<noteq> 0
    \<and> po_disk_capacity_bytes ob \<noteq> 0 \<and> po_free_disk_bytes ob \<noteq> 0
    \<and> po_active_cells ob < po_max_active_cells ob \<and> po_running_jobs ob < po_job_capacity ob"
  by (cases "po_pressure ob")
    (auto simp: eligibility_def less_eq_placement_pressure_def not_le)

subsection \<open>Ranking\<close>

interpretation scores: sort_order score_order "\<lambda>_. True"
  unfolding score_order_def by (intro sort_order_then_with sort_order_key sort_order_key_desc)

lemma score_order_Equal: "score_order a b = Equal \<Longrightarrow> a = b"
  by (cases a; cases b) (auto simp: score_order_def node_id.expand session_id.expand)

lemma rank_permutation: "mset obs' = mset obs \<Longrightarrow> rank blake3 p c now obs' = rank blake3 p c now obs"
  using scores.sort_by_order_independent [of "map (score blake3 p c now) obs'"
      "map (score blake3 p c now) obs" id] score_order_Equal
  by (auto simp: rank_def)

lemma find_sorted:
  assumes "sorted_wrt R xs" and "find Q xs = Some y"
  shows "y \<in> set xs \<and> Q y \<and> (\<forall>z \<in> set xs. Q z \<longrightarrow> z = y \<or> R y z)"
  using assms by (induction xs) (auto split: if_splits)

lemma choose_node_best:
  assumes "choose_node blake3 p c now obs = Inr (Some best)"
  shows "sc_eligibility best = Eligible \<and> best \<in> score blake3 p c now ` set obs
    \<and> (\<forall>ob \<in> set obs. eligibility p now ob = Eligible \<longrightarrow>
         sc_score (score blake3 p c now ob) \<le> sc_score best)"
proof -
  let ?ss = "sort_by score_order (map (score blake3 p c now) obs)"
  have f: "find (\<lambda>s. sc_eligibility s = Eligible) ?ss = Some best"
    using assms by (auto simp: choose_node_def rank_def split: if_splits)
  have best: "best \<in> score blake3 p c now ` set obs" "sc_eligibility best = Eligible"
    "\<forall>z \<in> score blake3 p c now ` set obs. sc_eligibility z = Eligible \<longrightarrow>
       z = best \<or> score_order best z \<noteq> Greater"
    using find_sorted [OF scores.sorted_sort_by f] by auto
  then show ?thesis
    by (force simp: score_order_def not_less)
qed

subsection \<open>Loads and charges\<close>

definition load :: "(cell_transfer_intent \<Rightarrow> nat) \<Rightarrow> session_id \<Rightarrow> cell_transfer_intent list \<Rightarrow> nat" where
  "load f s is = sum_list (map f (filter (\<lambda>i. ti_destination i = s) is))"

lemma load_snoc [simp]:
  "load f s [] = 0"
  "load f s (is @ [i]) = load f s is + (if ti_destination i = s then f i else 0)"
  by (simp_all add: load_def)

text \<open>The fields of an observation that a plan never changes.\<close>

definition same_frame :: "placement_observation \<Rightarrow> placement_observation \<Rightarrow> bool" where
  "same_frame q ob \<longleftrightarrow> po_node q = po_node ob \<and> po_session q = po_session ob
     \<and> po_observed_at_ms q = po_observed_at_ms ob \<and> po_authenticated q = po_authenticated ob
     \<and> po_draining q = po_draining ob \<and> po_pressure q = po_pressure ob
     \<and> po_memory_capacity_bytes q = po_memory_capacity_bytes ob
     \<and> po_disk_capacity_bytes q = po_disk_capacity_bytes ob
     \<and> po_max_active_cells q = po_max_active_cells ob \<and> po_job_capacity q = po_job_capacity ob"

text \<open>The projection \<open>q\<close> of the observation \<open>ob\<close> after the intents \<open>is\<close>.\<close>

definition charged :: "placement_planner \<Rightarrow> i64 \<Rightarrow> cell_transfer_intent list \<Rightarrow> placement_observation
    \<Rightarrow> placement_observation \<Rightarrow> bool" where
  "charged p now is ob q \<longleftrightarrow> same_frame q ob
     \<and> unat (po_free_memory_bytes q) + load (unat \<circ> ti_memory_bytes) (po_session ob) is
         = unat (po_free_memory_bytes ob)
     \<and> unat (po_free_disk_bytes q) + load (unat \<circ> ti_disk_bytes) (po_session ob) is
         = unat (po_free_disk_bytes ob)
     \<and> unat (po_active_cells q) = unat (po_active_cells ob) + load (\<lambda>_. 1) (po_session ob) is
     \<and> unat (po_running_jobs q) = unat (po_running_jobs ob)
         + load (unat \<circ> ti_job_credits) (po_session ob) is
     \<and> (load (\<lambda>_. 1) (po_session ob) is \<noteq> 0 \<longrightarrow> eligibility p now ob = Eligible
         \<and> po_active_cells q \<le> po_max_active_cells ob \<and> po_running_jobs q \<le> po_job_capacity ob)"

lemma charged_session: "charged p now is ob q \<Longrightarrow> po_session q = po_session ob"
  by (simp add: charged_def same_frame_def)

lemma charged_eligible:
  assumes "charged p now is ob q" and "eligibility p now q = Eligible"
  shows "eligibility p now ob = Eligible"
  using assms by (auto simp: charged_def same_frame_def eligibility_Eligible fresh_def
      word_less_nat_alt word_unat_eq_iff)

text \<open>Charging a demand to a node that takes it is exact: nothing wraps.\<close>

lemma unat_add_within:
  fixes a b c :: "'a::len word"
  assumes "b \<le> saturating_sub c a"  and "a \<le> c"
  shows "unat (a + b) = unat a + unat b \<and> a + b \<le> c"
proof -
  have le: "unat a + unat b \<le> unat c"
    using assms by (simp add: word_le_nat_alt unat_saturating_sub)
  then have "unat (a + b) = unat a + unat b"
    using unat_bound [of c] by (simp add: unat_word_ariths del: unsigned_less)
  then show ?thesis
    using le by (simp add: word_le_nat_alt)
qed

definition intent_of :: "placement_observation \<Rightarrow> cell_transfer_demand \<Rightarrow> session_id
    \<Rightarrow> cell_transfer_intent" where
  "intent_of source d destination = \<lparr>ti_cell = td_cell d, ti_source = td_source d,
     ti_generation = td_generation d, ti_destination = destination,
     ti_observed_at_ms = po_observed_at_ms source, ti_memory_bytes = td_memory_bytes d,
     ti_disk_bytes = td_disk_bytes d, ti_job_credits = td_job_credits d\<rparr>"

lemma intent_of_fields [simp]:
  "ti_cell (intent_of s d t) = td_cell d" "ti_source (intent_of s d t) = td_source d"
  "ti_generation (intent_of s d t) = td_generation d" "ti_destination (intent_of s d t) = t"
  "ti_observed_at_ms (intent_of s d t) = po_observed_at_ms s"
  "ti_memory_bytes (intent_of s d t) = td_memory_bytes d"
  "ti_disk_bytes (intent_of s d t) = td_disk_bytes d"
  "ti_job_credits (intent_of s d t) = td_job_credits d"
  by (simp_all add: intent_of_def)

lemma charge_charged:
  assumes "charged p now is ob q" and "eligibility p now q = Eligible"
    and "node_takes x st d source n sc q"
  shows "charged p now (is @ [intent_of source d (po_session ob)]) ob (charge d q)"
proof -
  have el: "eligibility p now ob = Eligible"
    using charged_eligible [OF assms(1,2)] .
  have takes: "td_memory_bytes d \<le> po_free_memory_bytes q" "td_disk_bytes d \<le> po_free_disk_bytes q"
    "td_job_credits d \<le> saturating_sub (po_job_capacity q) (po_running_jobs q)"
    using assms(3) by (simp_all add: node_takes_def)
  have lt: "po_active_cells q < po_max_active_cells q" "po_running_jobs q < po_job_capacity q"
    using assms(2) by (simp_all add: eligibility_Eligible)
  have "unat (po_active_cells q + 1) = Suc (unat (po_active_cells q))"
    using unat_Suc_if_less [OF lt(1)] .
  moreover from this have "po_active_cells q + 1 \<le> po_max_active_cells q"
    using lt(1) by (simp add: word_le_nat_alt word_less_nat_alt)
  moreover have "unat (po_running_jobs q + td_job_credits d)
        = unat (po_running_jobs q) + unat (td_job_credits d)"
      "po_running_jobs q + td_job_credits d \<le> po_job_capacity q"
    using unat_add_within [OF takes(3)] lt(2) by simp_all
  moreover have "unat (po_free_memory_bytes q - td_memory_bytes d)
        = unat (po_free_memory_bytes q) - unat (td_memory_bytes d)"
      "unat (po_free_disk_bytes q - td_disk_bytes d)
        = unat (po_free_disk_bytes q) - unat (td_disk_bytes d)"
    using takes(1,2) by (simp_all add: unat_sub)
  moreover have "unat (td_memory_bytes d) \<le> unat (po_free_memory_bytes q)"
      "unat (td_disk_bytes d) \<le> unat (po_free_disk_bytes q)"
    using takes(1,2) by (simp_all add: word_le_nat_alt)
  ultimately show ?thesis
    using assms(1) el by (simp add: charged_def charge_def same_frame_def)
qed

lemma charged_other:
  "charged p now is ob q \<Longrightarrow> t \<noteq> po_session ob \<Longrightarrow> charged p now (is @ [intent_of source d t]) ob q"
  by (simp add: charged_def)

subsection \<open>One iteration and the loop\<close>

text \<open>What an iteration that proposes a transfer has checked.\<close>

definition proposes :: "(bytes \<Rightarrow> bytes) \<Rightarrow> placement_planner \<Rightarrow> i64 \<Rightarrow> plan_context \<Rightarrow> plan_state
    \<Rightarrow> cell_transfer_demand \<Rightarrow> placement_observation \<Rightarrow> placement_observation \<Rightarrow> plan_state \<Rightarrow> bool" where
  "proposes blake3 p now x st d source q st' \<longleftrightarrow>
     source_of (px_observations x) (td_source d) = Some source
     \<and> \<not> demand_refused p now source d \<and> (urgent source \<or> \<not> unsettled now d)
     \<and> q \<in> set (pn_projected st) \<and> eligibility p now q = Eligible \<and> po_session q \<noteq> td_source d
     \<and> node_takes x st d source
         (sc_score (score blake3 p (td_cell d) now (source\<lparr>po_current_owner := True\<rparr>)))
         (score blake3 p (td_cell d) now q) q
     \<and> unat (pn_bytes st') = unat (pn_bytes st) + unat (td_disk_bytes d)
     \<and> pn_bytes st' \<le> MAX_TRANSFER_BYTES_PER_TICK
     \<and> pn_intents st' = pn_intents st @ [intent_of source d (po_session q)]
     \<and> pn_projected st' = update_first (\<lambda>ob. po_session ob = po_session q) (charge d) (pn_projected st)
     \<and> pn_donations st' = (if \<not> urgent source \<and> donates x st d \<and> accepting x (po_session q)
           \<and> receiver_room (px_owned x) (px_weight x) q > 0
         then pn_donations st + 1 else pn_donations st)"

lemma plan_demand_cases:
  assumes "plan_demand blake3 p now x st d = Inr st'" and "distinct (map po_session (pn_projected st))"
  obtains "st' = st" | source q where "proposes blake3 p now x st d source q st'"
proof (cases "st' = st")
  case True
  then show ?thesis using that(1) by blast
next
  case False
  obtain source where source: "source_of (px_observations x) (td_source d) = Some source"
    using assms(1) False by (auto simp: plan_demand_def split: option.splits)
  let ?n = "sc_score (score blake3 p (td_cell d) now (source\<lparr>po_current_owner := True\<rparr>))"
  have guards: "\<not> demand_refused p now source d" "urgent source \<or> \<not> unsettled now d"
    using assms(1) False source by (auto simp: plan_demand_def split: if_splits)
  obtain nb where nb: "checked_add (pn_bytes st) (td_disk_bytes d) = Some nb"
      "\<not> nb > MAX_TRANSFER_BYTES_PER_TICK"
    using assms(1) False source guards by (auto simp: plan_demand_def split: option.splits if_splits)
  obtain ss where ss: "rank blake3 p (td_cell d) now (pn_projected st) = Inr ss"
    using assms(1) False source guards nb
    by (cases "rank blake3 p (td_cell d) now (pn_projected st)")
      (auto simp: plan_demand_def Let_def split: if_splits)
  obtain dest where dest: "find (destination_ok x st d source ?n) ss = Some dest"
    using assms(1) False source guards nb ss
    by (auto simp: plan_demand_def Let_def split: option.splits if_splits)
  then have d_ok: "destination_ok x st d source ?n dest" and "dest \<in> set ss"
    by (auto simp: find_Some_iff)
  then obtain q where q: "q \<in> set (pn_projected st)" "dest = score blake3 p (td_cell d) now q"
    using set_rank [OF ss] by auto
  have sq: "source_of (pn_projected st) (po_session q) = Some q"
    using source_of_unique [OF assms(2) q(1)] .
  have "unat nb = unat (pn_bytes st) + unat (td_disk_bytes d)" "nb \<le> MAX_TRANSFER_BYTES_PER_TICK"
    using nb by (simp_all add: checked_add_Some)
  moreover have "po_session q \<noteq> td_source d" "eligibility p now q = Eligible"
      "node_takes x st d source ?n (score blake3 p (td_cell d) now q) q"
    using d_ok q(2) sq by (simp_all add: destination_ok_def)
  moreover have "st' = \<lparr>pn_projected = update_first (\<lambda>ob. po_session ob = po_session q) (charge d) (pn_projected st),
      pn_intents = pn_intents st @ [intent_of source d (po_session q)], pn_bytes = nb,
      pn_donations = (if \<not> urgent source \<and> donates x st d \<and> accepting x (po_session q)
           \<and> receiver_room (px_owned x) (px_weight x) q > 0
         then pn_donations st + 1 else pn_donations st)\<rparr>"
    using assms(1) source guards nb ss dest q(2) sq
    by (auto simp: plan_demand_def Let_def intent_of_def)
  ultimately have "proposes blake3 p now x st d source q st'"
    using source guards q(1) unfolding proposes_def by simp
  then show ?thesis using that(2) by blast
qed

lemma list_all2_update_first:
  assumes "list_all2 R xs ys" and "distinct (map k ys)"
    and "\<And>x y. R x y \<Longrightarrow> k y \<noteq> s \<Longrightarrow> R' x y"
    and "\<And>x y. R x y \<Longrightarrow> y \<in> set ys \<Longrightarrow> k y = s \<Longrightarrow> R' x (f y)"
  shows "list_all2 R' xs (update_first (\<lambda>y. k y = s) f ys)"
  using assms(1,2,4)
proof (induction rule: list_all2_induct)
  case (Cons x xs y ys)
  have "list_all2 R' xs ys" if "k y = s"
    using Cons.hyps(2)
  proof (rule list.rel_mono_strong)
    show "R' a b" if "b \<in> set ys" "R a b" for a b
      using that Cons.prems(1) \<open>k y = s\<close> by (intro assms(3)) (auto simp: image_iff)
  qed
  then show ?case
    using Cons assms(3) by auto
qed simp

lemma charged_sessions: "list_all2 (charged p now is) obs qs \<Longrightarrow> map po_session qs = map po_session obs"
  by (induction rule: list_all2_induct) (auto dest: charged_session)

text \<open>An intent that is grounded in a demand and two observations of the snapshot.\<close>

definition grounded :: "placement_planner \<Rightarrow> i64 \<Rightarrow> placement_observation list \<Rightarrow> cell_transfer_demand
    \<Rightarrow> placement_observation \<Rightarrow> placement_observation \<Rightarrow> cell_transfer_intent \<Rightarrow> bool" where
  "grounded p now obs d source dest i \<longleftrightarrow>
     source_of obs (td_source d) = Some source \<and> dest \<in> set obs \<and> po_session dest \<noteq> po_session source
     \<and> i = intent_of source d (po_session dest) \<and> \<not> demand_refused p now source d
     \<and> (urgent source \<or> \<not> unsettled now d) \<and> eligibility p now dest = Eligible"

definition plan_inv :: "placement_planner \<Rightarrow> i64 \<Rightarrow> placement_observation list \<Rightarrow> cell_transfer_demand list
    \<Rightarrow> plan_state \<Rightarrow> bool" where
  "plan_inv p now obs ds st \<longleftrightarrow> list_all2 (charged p now (pn_intents st)) obs (pn_projected st)
     \<and> unat (pn_bytes st) = sum_list (map (unat \<circ> ti_disk_bytes) (pn_intents st))
     \<and> pn_bytes st \<le> MAX_TRANSFER_BYTES_PER_TICK
     \<and> length (pn_intents st) \<le> MAX_TRANSFERS_PER_TICK
     \<and> distinct (map ti_cell (pn_intents st))
     \<and> (\<forall>i \<in> set (pn_intents st). \<exists>d \<in> set ds. \<exists>source dest. grounded p now obs d source dest i)"

lemma proposes_inv:
  assumes inv: "plan_inv p now obs ds st" and x: "px_observations x = obs"
    and len: "length (pn_intents st) \<noteq> MAX_TRANSFERS_PER_TICK"
    and dist: "distinct (map po_session obs)" and d: "d \<in> set ds"
    and new: "td_cell d \<notin> ti_cell ` set (pn_intents st)"
    and pr: "proposes blake3 p now x st d source q st'"
  shows "plan_inv p now obs ds st'"
proof -
  have ch: "list_all2 (charged p now (pn_intents st)) obs (pn_projected st)"
    using inv by (simp add: plan_inv_def)
  have dist': "distinct (map po_session (pn_projected st))"
    using charged_sessions [OF ch] dist by simp
  have q: "q \<in> set (pn_projected st)" "eligibility p now q = Eligible"
    using pr by (simp_all add: proposes_def)
  obtain dest where dest: "dest \<in> set obs" "charged p now (pn_intents st) dest q"
    using ch q(1) by (metis list_all2_conv_all_nth in_set_conv_nth)
  have "list_all2 (charged p now (pn_intents st')) obs (pn_projected st')"
  proof -
    have "charged p now (pn_intents st') ob (charge d q')"
      if "charged p now (pn_intents st) ob q'" "q' \<in> set (pn_projected st)" "po_session q' = po_session q"
      for ob q'
    proof -
      have "q' = q"
        using dist' q(1) that(2,3) by (auto simp: distinct_map dest: inj_onD)
      then show ?thesis
        using charge_charged [OF that(1)] q(2) pr charged_session [OF that(1)]
        by (auto simp: proposes_def)
    qed
    moreover have "charged p now (pn_intents st') ob q'"
      if "charged p now (pn_intents st) ob q'" "po_session q' \<noteq> po_session q" for ob q'
      using that charged_other [OF that(1)] charged_session [OF that(1)] pr by (simp add: proposes_def)
    ultimately show ?thesis
      using list_all2_update_first [OF ch dist', where s = "po_session q"] pr
      by (simp add: proposes_def)
  qed
  moreover have "grounded p now obs d source dest (intent_of source d (po_session q))"
    using pr x dest charged_session [OF dest(2)] charged_eligible [OF dest(2) q(2)]
    by (auto simp: grounded_def proposes_def dest: source_of_Some)
  ultimately show ?thesis
    using inv len d new pr by (auto simp: plan_inv_def proposes_def)
qed

lemma plan_loop_inv:
  assumes "plan_loop blake3 p now x cs st = Inr st'" and "plan_inv p now obs ds st"
    and "px_observations x = obs" and "distinct (map po_session obs)" and "set cs \<subseteq> set ds"
    and "distinct (map td_cell cs)" and "td_cell ` set cs \<inter> ti_cell ` set (pn_intents st) = {}"
  shows "plan_inv p now obs ds st'"
  using assms
proof (induction cs arbitrary: st)
  case (Cons d cs)
  show ?case
  proof (cases "length (pn_intents st) = MAX_TRANSFERS_PER_TICK")
    case True
    then show ?thesis using Cons.prems by simp
  next
    case False
    then obtain st1 where st1: "plan_demand blake3 p now x st d = Inr st1"
        "plan_loop blake3 p now x cs st1 = Inr st'"
      using Cons.prems(1) by (auto simp: rust_simps)
    have dist: "distinct (map po_session (pn_projected st))"
      using Cons.prems(2,4) charged_sessions by (metis plan_inv_def)
    have "plan_inv p now obs ds st1 \<and> td_cell ` set cs \<inter> ti_cell ` set (pn_intents st1) = {}"
      using st1(1) dist
    proof (cases rule: plan_demand_cases)
      case 1
      then show ?thesis using Cons.prems by auto
    next
      case (2 source q)
      then have "plan_inv p now obs ds st1"
        using proposes_inv [OF Cons.prems(2,3) False Cons.prems(4) _ _ 2] Cons.prems(5,7) by auto
      moreover have "pn_intents st1 = pn_intents st @ [intent_of source d (po_session q)]"
        using 2 by (simp add: proposes_def)
      ultimately show ?thesis
        using Cons.prems(6,7) by auto
    qed
    then show ?thesis
      using Cons.IH [OF st1(2)] Cons.prems by auto
  qed
qed simp

text \<open>The loop that an accepted plan ran, from the projected snapshot.\<close>

definition plan_start :: "placement_observation list \<Rightarrow> plan_state" where
  "plan_start obs = \<lparr>pn_projected = map (\<lambda>ob. ob\<lparr>po_current_owner := False\<rparr>) obs, pn_intents = [],
     pn_bytes = 0, pn_donations = 0\<rparr>"

definition plan_input :: "placement_observation list \<Rightarrow> fleet_balance option \<Rightarrow> plan_context" where
  "plan_input obs balance = \<lparr>px_observations = obs, px_balance = balance,
     px_owned = sum_list (map (\<lambda>ob. unat (po_active_cells ob)) obs),
     px_weight = sum_list (map (\<lambda>ob. unat (po_max_active_cells ob)) obs)\<rparr>"

lemma plan_transfers_run:
  assumes "plan_transfers blake3 p now obs ds balance = Inr intents"
  obtains st where "plan_loop blake3 p now (plan_input obs balance) (sort_by (demand_order obs) ds) (plan_start obs) = Inr st"
    "intents = pn_intents st" "distinct (map po_session obs)" "distinct (map td_cell ds)"
  using assms by (auto simp: plan_transfers_def Let_def rust_simps duplicates_node_iff has_duplicate_iff
      plan_input_def plan_start_def split: if_splits)

lemma plan_start_inv: "plan_inv p now obs ds (plan_start obs)"
  by (auto simp: plan_start_def plan_inv_def list_all2_conv_all_nth charged_def same_frame_def)

text \<open>
  C29: A plan of transfers is safe to attempt. Whatever the snapshot, the demands and the balance, a
  returned plan has at most two transfers of distinct Cells and at most 8 GiB of projected restore
  bytes; every transfer is that of an admissible demand from an observed source, to another node that
  the snapshot shows eligible; and all transfers planned to one node together fit its free memory and
  disk, its Cell slots and its job slots, so that no projection wraps around.
\<close>

theorem plan_transfers_safe:
  assumes "plan_transfers blake3 p now obs ds balance = Inr intents"
  shows "length intents \<le> 2 \<and> distinct (map ti_cell intents)
    \<and> sum_list (map (unat \<circ> ti_disk_bytes) intents) \<le> 8 * 1024 * 1024 * 1024
    \<and> (\<forall>i \<in> set intents. \<exists>d \<in> set ds. \<exists>source dest. grounded p now obs d source dest i)
    \<and> (\<forall>ob \<in> set obs.
         load (unat \<circ> ti_memory_bytes) (po_session ob) intents \<le> unat (po_free_memory_bytes ob)
         \<and> load (unat \<circ> ti_disk_bytes) (po_session ob) intents \<le> unat (po_free_disk_bytes ob)
         \<and> (load (\<lambda>_. 1) (po_session ob) intents \<noteq> 0 \<longrightarrow>
              unat (po_active_cells ob) + load (\<lambda>_. 1) (po_session ob) intents
                \<le> unat (po_max_active_cells ob)
              \<and> unat (po_running_jobs ob) + load (unat \<circ> ti_job_credits) (po_session ob) intents
                \<le> unat (po_job_capacity ob)))"
proof -
  obtain st where st: "plan_loop blake3 p now (plan_input obs balance) (sort_by (demand_order obs) ds) (plan_start obs) = Inr st"
      "intents = pn_intents st"
    and dist: "distinct (map po_session obs)" "distinct (map td_cell ds)"
    using plan_transfers_run [OF assms] .
  have inv: "plan_inv p now obs ds st"
    using plan_loop_inv [OF st(1) plan_start_inv] dist by (auto simp: plan_input_def plan_start_def)
  have "charged p now intents ob (pn_projected st ! n)" if "n < length obs" "ob = obs ! n" for ob n
    using inv that st(2) by (auto simp: plan_inv_def list_all2_conv_all_nth)
  then have node: "\<exists>q. charged p now intents ob q" if "ob \<in> set obs" for ob
    using that by (metis in_set_conv_nth)
  have "pn_bytes st \<le> MAX_TRANSFER_BYTES_PER_TICK"
    using inv by (simp add: plan_inv_def)
  then have "sum_list (map (unat \<circ> ti_disk_bytes) intents) \<le> 8 * 1024 * 1024 * 1024"
    using inv st(2) by (simp add: plan_inv_def word_le_nat_alt MAX_TRANSFER_BYTES_PER_TICK_def)
  then show ?thesis
    using inv st(2) node
    by (auto simp: plan_inv_def MAX_TRANSFERS_PER_TICK_def charged_def word_le_nat_alt dest!: node)
qed

definition sample_node :: "u8 \<Rightarrow> bool \<Rightarrow> u32 \<Rightarrow> placement_observation" where
  "sample_node n draining active = \<lparr>po_node = NodeId (replicate 16 n), po_session = SessionId (replicate 16 n),
     po_observed_at_ms = 1000, po_memory_capacity_bytes = 1000, po_free_memory_bytes = 500,
     po_disk_capacity_bytes = 1000, po_free_disk_bytes = 500, po_active_cells = active,
     po_max_active_cells = 10, po_running_jobs = 0, po_job_capacity = 4, po_publication_backlog = 0,
     po_hydration_backlog = 0, po_primitive_backlog = 0, po_pressure = Pp_Normal,
     po_draining = draining, po_authenticated = True, po_current_owner = False\<rparr>"

definition sample_demand :: "u8 \<Rightarrow> u8 \<Rightarrow> cell_transfer_demand" where
  "sample_demand c n = \<lparr>td_cell = CellId (replicate 32 c), td_source = SessionId (replicate 16 n),
     td_generation = 1, td_memory_bytes = 300, td_disk_bytes = 100, td_job_credits = 1,
     td_resident_since_ms = 0, td_last_used_ms = 10, td_last_moved_at_ms = None,
     td_stable_observations = 0, td_settled = True, td_maintenance = False\<rparr>"

theorem plan_transfers_safe_witness:
  "\<exists>intents. plan_transfers (\<lambda>_. replicate 32 0) planner_default 1000
      [sample_node 1 True 2, sample_node 2 False 0] [sample_demand 7 1, sample_demand 8 1] None
        = Inr intents
    \<and> map ti_cell intents = [td_cell (sample_demand 7 1)]
    \<and> load (unat \<circ> ti_memory_bytes) (po_session (sample_node 2 False 0)) intents \<le> 500"
proof -
  let ?obs = "[sample_node 1 True 2, sample_node 2 False 0]"
  let ?is = "[intent_of (sample_node 1 True 2) (sample_demand 7 1) (SessionId (replicate 16 2))]"
  have eval: "plan_transfers (\<lambda>_. replicate 32 0) planner_default 1000 ?obs
      [sample_demand 7 1, sample_demand 8 1] None = Inr ?is"
    by code_simp
  have "\<forall>ob \<in> set ?obs. load (unat \<circ> ti_memory_bytes) (po_session ob) ?is \<le> unat (po_free_memory_bytes ob)"
    using plan_transfers_safe [OF eval] by blast
  moreover have "unat (po_free_memory_bytes (sample_node 2 False 0)) = 500"
    by (simp add: sample_node_def)
  ultimately have "load (unat \<circ> ti_memory_bytes) (po_session (sample_node 2 False 0)) ?is \<le> 500"
    by auto
  then show ?thesis
    using eval by (intro exI [of _ ?is] conjI) simp_all
qed

end
