(* ===== verification/Placement_Balance.thy ===== *)
theory Placement_Balance
  imports Placement_Plan
begin

text \<open>
  The weighted ownership balance of \<open>Placement\<close>: one complete snapshot elects one donor
  whatever the order of its members, and a batch of donations within the receivers' room reduces the
  Cells held above target.
\<close>

subsection \<open>The density order\<close>

definition weighted :: "placement_observation \<Rightarrow> bool" where
  "weighted ob \<longleftrightarrow> po_max_active_cells ob \<noteq> 0"

lemma density_trans:
  fixes a b c :: nat
  assumes "a * y \<le> b * x" and "b * z \<le> c * y" and "0 < y"
  shows "a * z \<le> c * x"
proof -
  have "(a * z) * y \<le> (b * x) * z"
    using mult_le_mono1 [OF assms(1), of z] by (simp add: ac_simps)
  also have "\<dots> \<le> (c * x) * y"
    using mult_le_mono1 [OF assms(2), of x] by (simp add: ac_simps)
  finally show ?thesis
    using assms(3) by simp
qed

lemma weighted_pos: "weighted ob \<longleftrightarrow> 0 < unat (po_max_active_cells ob)"
  by (simp add: weighted_def word_unat_eq_iff)

lemma density_order:
  "sort_order (\<lambda>l r. ocmp (unat (po_active_cells l) * unat (po_max_active_cells r))
     (unat (po_active_cells r) * unat (po_max_active_cells l))) weighted"
proof
  fix x y z
  assume ok: "weighted x" "weighted y" "weighted z"
    and "ocmp (unat (po_active_cells x) * unat (po_max_active_cells y))
           (unat (po_active_cells y) * unat (po_max_active_cells x)) \<noteq> Greater"
    and "ocmp (unat (po_active_cells y) * unat (po_max_active_cells z))
           (unat (po_active_cells z) * unat (po_max_active_cells y)) \<noteq> Greater"
  then show "ocmp (unat (po_active_cells x) * unat (po_max_active_cells z))
           (unat (po_active_cells z) * unat (po_max_active_cells x)) \<noteq> Greater"
    using density_trans ok(2) by (simp add: not_less weighted_pos)
qed simp

interpretation density: sort_order denser weighted
  unfolding denser_def by (intro sort_order_then_with sort_order_key_desc density_order)

lemma denser_Equal: "denser a b = Equal \<Longrightarrow> po_node a = po_node b \<and> po_session a = po_session b"
  by (auto simp: denser_def node_id.expand session_id.expand)

subsection \<open>The scan\<close>

definition owned_of :: "placement_observation list \<Rightarrow> nat" where
  "owned_of obs = sum_list (map (\<lambda>ob. unat (po_active_cells ob)) obs)"

definition weight_of :: "placement_observation list \<Rightarrow> nat" where
  "weight_of obs = sum_list (map (\<lambda>ob. unat (po_max_active_cells ob)) obs)"

lemma balance_scan_Some:
  "balance_scan p now since nodes sessions owned weight obs = Inr (Some (a, b)) \<longleftrightarrow>
     distinct (map po_node obs) \<and> distinct (map po_session obs)
     \<and> set nodes \<inter> po_node ` set obs = {} \<and> set sessions \<inter> po_session ` set obs = {}
     \<and> (\<forall>ob \<in> set obs. sampled_after p now ob since)
     \<and> a = owned + owned_of obs \<and> b = weight + weight_of obs"
  by (induction obs arbitrary: nodes sessions owned weight)
    (auto simp: owned_of_def weight_of_def add.assoc)

lemma sums_permute:
  assumes "mset obs' = mset obs"
  shows "owned_of obs' = owned_of obs" "weight_of obs' = weight_of obs"
  using assms by (simp_all add: owned_of_def weight_of_def flip: sum_mset_sum_list)

text \<open>The parts of an elected balance.\<close>

lemma fleet_balance_Some:
  "fleet_balance_of p now obs since = Inr (Some b) \<longleftrightarrow>
     (\<exists>donor. 0 \<le> now \<and> length obs \<le> 10000
       \<and> distinct (map po_node obs) \<and> distinct (map po_session obs)
       \<and> (\<forall>ob \<in> set obs. sampled_after p now ob since) \<and> weight_of obs \<noteq> 0
       \<and> max_by denser obs = Some donor
       \<and> (let t = balance_target (owned_of obs) (weight_of obs);
              rs = balance_receivers p now (owned_of obs) (weight_of obs) donor obs;
              n = transfer_count (unat (po_active_cells donor) - t donor)
                    (sum_list (map (\<lambda>ob. room ob (t ob)) rs))
          in n \<noteq> 0 \<and> b = \<lparr>fb_donor = po_session donor, fb_surplus = n, fb_receivers = map po_session rs\<rparr>))"
proof (cases "0 \<le> now \<and> length obs \<le> 10000")
  case True
  show ?thesis
  proof (cases "balance_scan p now since [] [] 0 0 obs = Inr (Some (owned_of obs, weight_of obs))")
    case scan: True
    then have "distinct (map po_node obs)" "distinct (map po_session obs)"
        "\<forall>ob \<in> set obs. sampled_after p now ob since"
      by (simp_all add: balance_scan_Some)
    then show ?thesis
      using True scan
      by (cases "max_by denser obs") (auto simp: fleet_balance_of_def Let_def)
  next
    case False
    then have "\<not> (distinct (map po_node obs) \<and> distinct (map po_session obs)
        \<and> (\<forall>ob \<in> set obs. sampled_after p now ob since))"
      by (simp add: balance_scan_Some)
    moreover have "fleet_balance_of p now obs since \<noteq> Inr (Some b)"
      using False True
      by (cases "balance_scan p now since [] [] 0 0 obs")
        (auto simp: fleet_balance_of_def balance_scan_Some split: option.splits)
    ultimately show ?thesis by blast
  qed
qed (auto simp: fleet_balance_of_def)

lemma transfer_count_eq: "transfer_count s r = min 2 (min s r)"
  by (auto simp: transfer_count_def Let_def MAX_TRANSFERS_PER_TICK_def)

text \<open>The members that may receive, and the room they have together.\<close>

definition may_receive :: "placement_planner \<Rightarrow> i64 \<Rightarrow> placement_observation list \<Rightarrow> session_id
    \<Rightarrow> placement_observation \<Rightarrow> bool" where
  "may_receive p now obs donor ob \<longleftrightarrow> po_session ob \<noteq> donor \<and> eligibility p now ob = Eligible
     \<and> room ob (balance_target (owned_of obs) (weight_of obs) ob) > 0"

definition total_room :: "placement_planner \<Rightarrow> i64 \<Rightarrow> placement_observation list \<Rightarrow> session_id \<Rightarrow> nat" where
  "total_room p now obs donor = sum_list (map (\<lambda>ob. room ob (balance_target (owned_of obs) (weight_of obs) ob))
     (filter (may_receive p now obs donor) obs))"

lemma balance_receivers_mset:
  "mset (balance_receivers p now (owned_of obs) (weight_of obs) donor obs)
     = mset (filter (may_receive p now obs (po_session donor)) obs)"
proof -
  have "filter (\<lambda>ob. po_session ob \<noteq> po_session donor \<and> room ob (balance_target (owned_of obs) (weight_of obs) ob) > 0
      \<and> po_pressure ob < Pp_Shedding \<and> eligibility p now ob = Eligible) obs
      = filter (may_receive p now obs (po_session donor)) obs"
    by (intro filter_cong) (auto simp: may_receive_def eligibility_Eligible less_placement_pressure_def)
  then show ?thesis
    by (simp add: balance_receivers_def)
qed

lemma sum_list_permute: "mset xs = mset ys \<Longrightarrow> sum_list (map f xs) = (sum_list (map f ys) :: nat)"
  by (simp flip: sum_mset_sum_list)

lemma balance_receivers_room:
  "sum_list (map (\<lambda>ob. room ob (balance_target (owned_of obs) (weight_of obs) ob))
     (balance_receivers p now (owned_of obs) (weight_of obs) donor obs)) = total_room p now obs (po_session donor)"
  unfolding total_room_def by (rule sum_list_permute [OF balance_receivers_mset])

lemma fleet_balance_parts:
  assumes "fleet_balance_of p now obs since = Inr (Some b)"
  obtains donor where "max_by denser obs = Some donor" "distinct (map po_node obs)"
    "distinct (map po_session obs)" "weight_of obs \<noteq> 0" "fb_donor b = po_session donor"
    "fb_receivers b = map po_session (balance_receivers p now (owned_of obs) (weight_of obs) donor obs)"
    "fb_surplus b \<noteq> 0"
    "fb_surplus b = min 2 (min (unat (po_active_cells donor) - balance_target (owned_of obs) (weight_of obs) donor)
       (total_room p now obs (po_session donor)))"
proof -
  obtain donor where d: "max_by denser obs = Some donor" "distinct (map po_node obs)"
      "distinct (map po_session obs)" "weight_of obs \<noteq> 0"
    and b: "fb_surplus b \<noteq> 0"
      "b = \<lparr>fb_donor = po_session donor,
         fb_surplus = transfer_count (unat (po_active_cells donor)
             - balance_target (owned_of obs) (weight_of obs) donor)
           (sum_list (map (\<lambda>ob. room ob (balance_target (owned_of obs) (weight_of obs) ob))
              (balance_receivers p now (owned_of obs) (weight_of obs) donor obs))),
         fb_receivers = map po_session (balance_receivers p now (owned_of obs) (weight_of obs) donor obs)\<rparr>"
    using assms by (auto simp: fleet_balance_Some Let_def)
  have parts: "fb_donor b = po_session donor"
      "fb_receivers b = map po_session (balance_receivers p now (owned_of obs) (weight_of obs) donor obs)"
      "fb_surplus b = min 2 (min (unat (po_active_cells donor) - balance_target (owned_of obs) (weight_of obs) donor)
         (total_room p now obs (po_session donor)))"
    by (subst b(2), simp only: fleet_balance.simps transfer_count_eq balance_receivers_room)+
  show ?thesis
    by (rule that [OF d parts(1,2) b(1) parts(3)])
qed

lemma max_by_permute:
  assumes "mset obs' = mset obs" and "\<forall>ob \<in> set obs. weighted ob" and "distinct (map po_node obs)"
    and "max_by denser obs = Some donor"
  shows "max_by denser obs' = Some donor"
proof -
  have set: "set obs' = set obs"
    using assms(1) by (metis set_mset_mset)
  then obtain d where d: "max_by denser obs' = Some d"
    using assms(4) by (cases "max_by denser obs'") (auto dest: max_by_in)
  have "donor \<in> set obs" "d \<in> set obs"
    using max_by_in assms(4) d set by metis+
  moreover have "denser d donor \<noteq> Greater" "denser donor d \<noteq> Greater"
    using density.max_by_upper [OF assms(4) assms(2)] density.max_by_upper [OF d] assms(2) set
      calculation by auto
  ultimately have "po_node d = po_node donor"
    using density.swap [of d donor] density.swap [of donor d] assms(2) denser_Equal
    by (metis ordering.exhaust)
  then have "d = donor"
    using assms(3) \<open>donor \<in> set obs\<close> \<open>d \<in> set obs\<close> by (auto simp: distinct_map dest: inj_onD)
  then show ?thesis using d by simp
qed

lemma max_by_densest:
  assumes "max_by denser obs = Some donor" and "\<forall>ob \<in> set obs. weighted ob" and "ob \<in> set obs"
  shows "unat (po_active_cells ob) * unat (po_max_active_cells donor)
    \<le> unat (po_active_cells donor) * unat (po_max_active_cells ob)"
  using density.max_by_upper [OF assms] by (auto simp: denser_def not_less)

lemma receivers_permute:
  assumes "mset obs' = mset obs" and "\<forall>ob \<in> set obs. weighted ob"
  shows "map po_session (balance_receivers p now ow wt donor obs')
      = map po_session (balance_receivers p now ow wt donor obs)"
    and "mset (balance_receivers p now ow wt donor obs') = mset (balance_receivers p now ow wt donor obs)"
  using assms denser_Equal
  by (auto simp: balance_receivers_def intro!: density.sort_by_order_independent dest: mset_eq_setD)

lemma receiver_facts:
  assumes "ob \<in> set (balance_receivers p now ow wt donor obs)"
  shows "ob \<in> set obs" "po_session ob \<noteq> po_session donor" "eligibility p now ob = Eligible"
    "unat (po_active_cells ob) < balance_target ow wt ob"
  using assms by (auto simp: balance_receivers_def room_def Let_def)

lemma distinct_map_permute: "mset xs = mset ys \<Longrightarrow> distinct (map f xs) \<longleftrightarrow> distinct (map f ys)"
  by (metis mset_eq_imp_distinct_iff mset_map)

lemma fleet_balance_permute:
  assumes "fleet_balance_of p now obs since = Inr (Some b)" and "\<forall>ob \<in> set obs. weighted ob"
    and "mset obs' = mset obs"
  shows "fleet_balance_of p now obs' since = Inr (Some b)"
proof -
  have same: "set obs' = set obs" "length obs' = length obs"
      "distinct (map po_node obs') \<longleftrightarrow> distinct (map po_node obs)"
      "distinct (map po_session obs') \<longleftrightarrow> distinct (map po_session obs)"
    using mset_eq_setD [OF assms(3)] mset_eq_length [OF assms(3)] distinct_map_permute [OF assms(3)]
    by simp_all
  note sums = sums_permute [OF assms(3)]
  obtain donor where d: "max_by denser obs = Some donor" "distinct (map po_node obs)"
    using assms(1) by (auto simp: fleet_balance_Some)
  have "max_by denser obs' = Some donor"
    using max_by_permute [OF assms(3,2)] d by simp
  moreover have "sum_list (map f (balance_receivers p now ow wt donor obs'))
      = sum_list (map f (balance_receivers p now ow wt donor obs))" for f :: "_ \<Rightarrow> nat" and ow wt
    using receivers_permute(2) [OF assms(3,2)] by (metis mset_map sum_mset_sum_list)
  ultimately show ?thesis
    using assms(1) d same receivers_permute(1) [OF assms(3,2)]
    by (auto simp: fleet_balance_Some Let_def sums)
qed

lemma sample_balance:
  "fleet_balance_of planner_default 1000 [sample_node 1 False 6, sample_node 2 False 0] 0
    = Inr (Some \<lparr>fb_donor = SessionId (replicate 16 1), fb_surplus = 2,
        fb_receivers = [SessionId (replicate 16 2)]\<rparr>)"
  by code_simp

text \<open>
  C30: One snapshot elects one donor. A balance elected from a snapshot whose members all have a
  nonzero Cell capacity names the densest member, the one with the most Cells per unit of capacity.
  Its receivers are exactly the other eligible members with room below their own weighted target, and
  the Cells it releases are exactly the least of two, of what the donor holds above its target and of
  the receivers' total room, and never zero. Every order of the snapshot elects the same balance, so
  all nodes that see one fleet agree on it.
\<close>

theorem fleet_balance_one_donor:
  assumes "fleet_balance_of p now obs since = Inr (Some b)" and "\<forall>ob \<in> set obs. weighted ob"
  shows "(\<exists>donor \<in> set obs. fb_donor b = po_session donor
      \<and> (\<forall>ob \<in> set obs. unat (po_active_cells ob) * unat (po_max_active_cells donor)
           \<le> unat (po_active_cells donor) * unat (po_max_active_cells ob))
      \<and> fb_surplus b = min 2 (min (unat (po_active_cells donor) - balance_target (owned_of obs) (weight_of obs) donor)
           (total_room p now obs (fb_donor b)))
      \<and> fb_surplus b \<noteq> 0
      \<and> set (fb_receivers b) = po_session ` {ob \<in> set obs. may_receive p now obs (fb_donor b) ob})
    \<and> (\<forall>obs'. mset obs' = mset obs \<longrightarrow> fleet_balance_of p now obs' since = Inr (Some b))"
proof -
  obtain donor where donor: "max_by denser obs = Some donor"
    and b: "fb_donor b = po_session donor" "fb_surplus b \<noteq> 0"
      "fb_receivers b = map po_session (balance_receivers p now (owned_of obs) (weight_of obs) donor obs)"
      "fb_surplus b = min 2 (min (unat (po_active_cells donor) - balance_target (owned_of obs) (weight_of obs) donor)
         (total_room p now obs (po_session donor)))"
    using fleet_balance_parts [OF assms(1)] by metis
  have "set (balance_receivers p now (owned_of obs) (weight_of obs) donor obs)
      = {ob \<in> set obs. may_receive p now obs (fb_donor b) ob}"
    using mset_eq_setD [OF balance_receivers_mset] b(1) by simp
  then have "set (fb_receivers b) = po_session ` {ob \<in> set obs. may_receive p now obs (fb_donor b) ob}"
    using b(3) by simp
  then show ?thesis
    using b max_by_in [OF donor] max_by_densest [OF donor assms(2)] fleet_balance_permute [OF assms]
    by (intro conjI bexI [of _ donor]) simp_all
qed

theorem fleet_balance_one_donor_witness:
  "\<exists>b. fleet_balance_of planner_default 1000 [sample_node 1 False 6, sample_node 2 False 0] 0 = Inr (Some b)
     \<and> fb_donor b = SessionId (replicate 16 1) \<and> fb_surplus b = 2
     \<and> fleet_balance_of planner_default 1000 [sample_node 2 False 0, sample_node 1 False 6] 0 = Inr (Some b)"
proof -
  let ?b = "\<lparr>fb_donor = SessionId (replicate 16 1), fb_surplus = 2, fb_receivers = [SessionId (replicate 16 2)]\<rparr>"
  note eval = sample_balance
  have "\<forall>ob \<in> set [sample_node 1 False 6, sample_node 2 False 0]. weighted ob"
    by (simp add: weighted_def sample_node_def)
  from fleet_balance_one_donor [OF eval this]
  have "\<forall>obs'. mset obs' = mset [sample_node 1 False 6, sample_node 2 False 0] \<longrightarrow>
      fleet_balance_of planner_default 1000 obs' 0 = Inr (Some ?b)"
    by blast
  then show ?thesis
    using eval by (intro exI [of _ ?b]) (auto simp: add_mset_commute)
qed

subsection \<open>A batch of donations\<close>

text \<open>Cells above target, and the snapshot after a batch of donations to the sessions \<open>rs\<close>.\<close>

definition excess :: "placement_observation list \<Rightarrow> nat" where
  "excess obs = sum_list (map (\<lambda>ob. unat (po_active_cells ob)
     - balance_target (owned_of obs) (weight_of obs) ob) obs)"

definition donate :: "session_id \<Rightarrow> session_id list \<Rightarrow> placement_observation list \<Rightarrow> placement_observation list" where
  "donate donor rs = map (\<lambda>ob. ob\<lparr>po_active_cells :=
     (if po_session ob = donor then po_active_cells ob - of_nat (length rs)
      else po_active_cells ob + of_nat (count_list rs (po_session ob)))\<rparr>)"

lemma sum_count_list:
  assumes "distinct ss" and "set rs \<subseteq> set ss"
  shows "sum_list (map (count_list rs) ss) = length rs"
  using assms by (simp add: sum_list_distinct_conv_sum_set sum_count_set)

lemma balance_target_cong [simp]:
  "balance_target ow wt (ob\<lparr>po_active_cells := a\<rparr>) = balance_target ow wt ob"
  by (simp add: balance_target_def)

lemma target_within_capacity:
  assumes "owned \<le> weight" and "weight \<noteq> 0"
  shows "balance_target owned weight ob \<le> unat (po_max_active_cells ob)"
proof -
  let ?m = "unat (po_max_active_cells ob)"
  have le: "owned * ?m \<le> ?m * weight"
    using assms(1) by (simp add: mult.commute)
  then have div: "owned * ?m div weight \<le> ?m"
    using div_le_mono [OF le, of weight] assms(2) by simp
  show ?thesis
  proof (cases "owned * ?m mod weight > 0")
    case True
    have "owned * ?m div weight * weight + owned * ?m mod weight \<le> ?m * weight"
      using le by simp
    then have "owned * ?m div weight * weight < ?m * weight"
      using True by linarith
    then show ?thesis
      using True by (simp add: balance_target_def div_ceil_def)
  qed (simp add: balance_target_def div_ceil_def div)
qed

lemma owned_le_weight: "\<forall>ob \<in> set obs. po_active_cells ob \<le> po_max_active_cells ob \<Longrightarrow> owned_of obs \<le> weight_of obs"
  by (induction obs) (auto simp: owned_of_def weight_of_def word_le_nat_alt intro: add_mono)

lemma sum_list_shift:
  assumes "\<And>x. x \<in> set xs \<Longrightarrow> f x + a x = g x + (b x :: nat)"
  shows "sum_list (map f xs) + sum_list (map a xs) = sum_list (map g xs) + sum_list (map b xs)"
  using assms by (induction xs) (auto simp: algebra_simps)

lemma sum_list_single:
  "distinct (map k xs) \<Longrightarrow> x \<in> set xs \<Longrightarrow> sum_list (map (\<lambda>y. if k y = k x then n else (0 :: nat)) xs) = n"
proof (induction xs)
  case (Cons y ys)
  have "sum_list (map (\<lambda>z. if k z = k y then n else 0) ys) = 0"
    using Cons.prems(1) by (auto intro!: sum_list_0 simp: image_iff map_eq_conv)
  then show ?case
    using Cons by auto
qed simp

text \<open>A batch that no member's counter wraps around.\<close>

definition batch_fits :: "placement_observation \<Rightarrow> session_id list \<Rightarrow> placement_observation list \<Rightarrow> bool" where
  "batch_fits donor rs obs \<longleftrightarrow> donor \<in> set obs \<and> distinct (map po_session obs)
     \<and> set rs \<subseteq> po_session ` set obs \<and> po_session donor \<notin> set rs
     \<and> length rs \<le> unat (po_active_cells donor)
     \<and> (\<forall>ob \<in> set obs. unat (po_active_cells ob) + count_list rs (po_session ob) < 2 ^ 32)"

lemma donate_active:
  assumes "batch_fits donor rs obs" and "ob \<in> set obs"
  shows "unat (if po_session ob = po_session donor then po_active_cells ob - of_nat (length rs)
      else po_active_cells ob + of_nat (count_list rs (po_session ob)))
        + (if po_session ob = po_session donor then length rs else 0)
      = unat (po_active_cells ob) + count_list rs (po_session ob)"
proof (cases "po_session ob = po_session donor")
  case True
  then have ob: "ob = donor"
    using assms by (auto simp: batch_fits_def distinct_map dest: inj_onD)
  have n: "length rs \<le> unat (po_active_cells donor)"
    using assms(1) by (simp add: batch_fits_def)
  then have "length rs < 2 ^ 32"
    using unat_bound [of "po_active_cells donor"] by (simp del: unsigned_less)
  then have u: "unat (of_nat (length rs) :: u32) = length rs"
    by (simp add: unat_of_nat)
  then have "unat (po_active_cells donor - of_nat (length rs)) = unat (po_active_cells donor) - length rs"
    using n by (subst unat_sub) (simp_all add: word_le_nat_alt)
  then show ?thesis
    using assms(1) n ob by (simp add: batch_fits_def count_list_0_iff)
next
  case False
  have "unat (po_active_cells ob) + count_list rs (po_session ob) < 2 ^ 32"
    using assms by (simp add: batch_fits_def)
  then show ?thesis
    using False by (simp add: unat_word_ariths unat_of_nat)
qed

lemma donate_owned:
  assumes "batch_fits donor rs obs"
  shows "owned_of (donate (po_session donor) rs obs) = owned_of obs"
    and "weight_of (donate (po_session donor) rs obs) = weight_of obs"
proof -
  let ?D = "donate (po_session donor) rs obs"
  have "owned_of ?D + sum_list (map (\<lambda>ob. if po_session ob = po_session donor then length rs else 0) obs)
      = owned_of obs + sum_list (map (\<lambda>ob. count_list rs (po_session ob)) obs)"
    unfolding owned_of_def donate_def map_map comp_def
    using donate_active [OF assms] by (intro sum_list_shift) simp
  moreover have "sum_list (map (\<lambda>ob. if po_session ob = po_session donor then length rs else 0) obs) = length rs"
    using assms by (intro sum_list_single) (simp_all add: batch_fits_def)
  moreover have "sum_list (map (\<lambda>ob. count_list rs (po_session ob)) obs) = length rs"
    using sum_count_list [of "map po_session obs" rs] assms by (simp add: batch_fits_def comp_def)
  ultimately show "owned_of ?D = owned_of obs"
    by simp
qed (simp add: weight_of_def donate_def comp_def)

lemma donate_excess:
  assumes fits: "batch_fits donor rs obs"
    and d: "length rs + balance_target (owned_of obs) (weight_of obs) donor \<le> unat (po_active_cells donor)"
    and r: "\<And>ob. ob \<in> set obs \<Longrightarrow> po_session ob \<in> set rs \<Longrightarrow>
      unat (po_active_cells ob) + count_list rs (po_session ob) \<le> balance_target (owned_of obs) (weight_of obs) ob"
  shows "excess (donate (po_session donor) rs obs) + length rs = excess obs"
proof -
  let ?t = "balance_target (owned_of obs) (weight_of obs)"
  let ?a = "\<lambda>ob. if po_session ob = po_session donor then po_active_cells ob - of_nat (length rs)
      else po_active_cells ob + of_nat (count_list rs (po_session ob))"
  have "unat (?a ob) - ?t ob + (if po_session ob = po_session donor then length rs else 0)
      = unat (po_active_cells ob) - ?t ob + 0" if ob: "ob \<in> set obs" for ob
  proof (cases "po_session ob = po_session donor")
    case True
    then have "ob = donor"
      using fits ob by (auto simp: batch_fits_def distinct_map dest: inj_onD)
    moreover have "count_list rs (po_session donor) = 0"
      using fits by (simp add: batch_fits_def count_list_0_iff)
    ultimately show ?thesis
      using donate_active [OF fits ob] d by simp
  next
    case False
    then show ?thesis
      using donate_active [OF fits ob] r [OF ob] by (cases "po_session ob \<in> set rs") (auto simp: count_list_0_iff)
  qed
  then have "sum_list (map (\<lambda>ob. unat (?a ob) - ?t ob) obs)
      + sum_list (map (\<lambda>ob. if po_session ob = po_session donor then length rs else 0) obs)
      = sum_list (map (\<lambda>ob. unat (po_active_cells ob) - ?t ob) obs) + sum_list (map (\<lambda>_. 0) obs)"
    by (rule sum_list_shift)
  moreover have "sum_list (map (\<lambda>ob. if po_session ob = po_session donor then length rs else 0) obs) = length rs"
    using fits by (intro sum_list_single) (simp_all add: batch_fits_def)
  ultimately show ?thesis
    unfolding excess_def donate_owned [OF fits] by (simp add: donate_def comp_def)
qed

lemma room_le: "n \<le> room ob t \<Longrightarrow> n \<noteq> 0 \<Longrightarrow> unat (po_active_cells ob) + n \<le> t"
  by (simp add: room_def Let_def)

text \<open>
  Let the donor of an elected balance release up to its surplus to receivers of the balance, each
  within its room: the fleet owns as many Cells as before, and the Cells held above target drop by
  the number of Cells moved.
\<close>

lemma donation_batch:
  assumes "fleet_balance_of p now obs since = Inr (Some b)"
    and "\<forall>ob \<in> set obs. weighted ob \<and> po_active_cells ob \<le> po_max_active_cells ob"
    and "set rs \<subseteq> set (fb_receivers b)" and "length rs \<le> fb_surplus b"
    and "\<forall>ob \<in> set obs. count_list rs (po_session ob)
      \<le> room ob (balance_target (owned_of obs) (weight_of obs) ob)"
  shows "owned_of (donate (fb_donor b) rs obs) = owned_of obs
    \<and> excess (donate (fb_donor b) rs obs) + length rs = excess obs"
proof -
  let ?t = "balance_target (owned_of obs) (weight_of obs)"
  obtain donor where donor: "max_by denser obs = Some donor" "distinct (map po_session obs)"
      "weight_of obs \<noteq> 0"
    and b: "fb_donor b = po_session donor"
      "fb_receivers b = map po_session (balance_receivers p now (owned_of obs) (weight_of obs) donor obs)"
      "fb_surplus b \<noteq> 0" "fb_surplus b \<le> unat (po_active_cells donor) - ?t donor"
    using fleet_balance_parts [OF assms(1)] by (metis min.bounded_iff order_refl)
  have d: "length rs + ?t donor \<le> unat (po_active_cells donor)"
    using assms(4) b(3,4) by linarith
  have cap: "?t ob \<le> unat (po_max_active_cells ob)" for ob
    using target_within_capacity [OF owned_le_weight donor(3)] assms(2) by blast
  have r: "unat (po_active_cells ob) + count_list rs (po_session ob) \<le> ?t ob"
    if "ob \<in> set obs" "po_session ob \<in> set rs" for ob
    using room_le [of "count_list rs (po_session ob)" ob "?t ob"] assms(5) that
    by (simp add: count_list_0_iff)
  have "unat (po_active_cells ob) + count_list rs (po_session ob) < 2 ^ 32" if "ob \<in> set obs" for ob
  proof -
    have "unat (po_active_cells ob) + count_list rs (po_session ob) \<le> unat (po_max_active_cells ob)"
      using r [OF that] cap [of ob] assms(2) that
      by (cases "po_session ob \<in> set rs") (auto simp: word_le_nat_alt count_list_0_iff intro: order_trans)
    then show ?thesis
      using unat_bound [of "po_max_active_cells ob"] by (simp del: unsigned_less)
  qed
  moreover have "s \<in> po_session ` set obs \<and> s \<noteq> po_session donor" if s: "s \<in> set rs" for s
  proof -
    obtain ob where ob: "ob \<in> set (balance_receivers p now (owned_of obs) (weight_of obs) donor obs)"
        "s = po_session ob"
      using s assms(3) b(2) by auto
    show ?thesis
      using receiver_facts(1,2) [OF ob(1)] ob(2) by simp
  qed
  ultimately have fits: "batch_fits donor rs obs"
    using donor d max_by_in [OF donor(1)] by (auto simp: batch_fits_def)
  show ?thesis
    using donate_owned(1) [OF fits] donate_excess [OF fits d r] b(1) by simp
qed

end
