(* ===== verification/Placement_Rounds.thy ===== *)
theory Placement_Rounds
  imports Placement_Balance
begin

text \<open>
  Rounds of balancing: the ownership balance of a snapshot (\<open>Placement_Balance\<close>) is given to the
  planner of the same snapshot (\<open>Placement_Plan\<close>). When neither urgency nor a gain of headroom
  justifies a move, every transfer it plans is a donation of the elected donor that leaves its
  receiver within its share, and such rounds come to an end.
\<close>

subsection \<open>A charge never raises a score\<close>

lemma ratio_mono: "a \<le> b \<Longrightarrow> ratio a c \<le> ratio b c"
proof -
  assume "a \<le> b"
  then have "unat (min a c) \<le> unat (min b c)"
    by (simp add: word_le_nat_alt min_def)
  then show ?thesis
    by (simp add: ratio_def div_le_mono)
qed

lemma ucast_le: "a \<le> b \<Longrightarrow> (ucast (a :: u32) :: u64) \<le> ucast b"
proof -
  have "unat (ucast w :: u64) = unat w" for w :: u32
    using unat_bound [of w] by (simp add: unsigned_ucast_eq take_bit_nat_eq_self_iff)
  then show "a \<le> b \<Longrightarrow> (ucast a :: u64) \<le> ucast b"
    by (simp add: word_le_nat_alt)
qed

lemma saturating_sub_le: "a \<le> b \<Longrightarrow> saturating_sub c b \<le> saturating_sub c (a :: 'a::len word)"
  by (simp add: word_le_nat_alt unat_saturating_sub)

lemma ratio_slots_mono:
  "a \<le> b \<Longrightarrow> ratio (ucast (saturating_sub c b)) d \<le> ratio (ucast (saturating_sub c (a :: u32))) d"
  by (intro ratio_mono ucast_le saturating_sub_le)

lemma score_mono:
  assumes "same_frame q ob" and "eligibility p now ob = Eligible"
    and "po_free_memory_bytes q \<le> po_free_memory_bytes ob" "po_free_disk_bytes q \<le> po_free_disk_bytes ob"
    and "po_active_cells ob \<le> po_active_cells q" "po_running_jobs ob \<le> po_running_jobs q"
    and "po_publication_backlog q = po_publication_backlog ob" "po_hydration_backlog q = po_hydration_backlog ob"
    and "po_primitive_backlog q = po_primitive_backlog ob" "po_current_owner q = po_current_owner ob"
  shows "sc_score (score blake3 p c now q) \<le> sc_score (score blake3 p c now ob)"
proof (cases "eligibility p now q = Eligible")
  case True
  note ratios = ratio_mono [OF assms(3), of "po_memory_capacity_bytes ob"]
    ratio_mono [OF assms(4), of "po_disk_capacity_bytes ob"]
    ratio_slots_mono [OF assms(5), of "po_max_active_cells ob" "ucast (po_max_active_cells ob)"]
    ratio_slots_mono [OF assms(6), of "po_job_capacity ob" "ucast (po_job_capacity ob)"]
  show ?thesis
    using True assms(1,2,7-10) ratios
    by (simp add: score_def Let_def same_frame_def diff_le_mono add_mono mult_le_mono1)
qed (simp add: score_def)

lemma charge_lowers_score:
  assumes "eligibility p now q = Eligible" and "node_takes x st d source n sc q"
  shows "sc_score (score blake3 p c now (charge d q)) \<le> sc_score (score blake3 p c now q)"
proof -
  have takes: "td_memory_bytes d \<le> po_free_memory_bytes q" "td_disk_bytes d \<le> po_free_disk_bytes q"
    "td_job_credits d \<le> saturating_sub (po_job_capacity q) (po_running_jobs q)"
    using assms(2) by (simp_all add: node_takes_def)
  have lt: "po_active_cells q < po_max_active_cells q" "po_running_jobs q < po_job_capacity q"
    using assms(1) by (simp_all add: eligibility_Eligible)
  show ?thesis
  proof (rule score_mono [OF _ assms(1)])
    show "po_free_memory_bytes (charge d q) \<le> po_free_memory_bytes q"
      "po_free_disk_bytes (charge d q) \<le> po_free_disk_bytes q"
      using takes(1,2) by (simp_all add: charge_def word_le_nat_alt unat_sub)
    show "po_active_cells q \<le> po_active_cells (charge d q)"
      using unat_Suc_if_less [OF lt(1)] by (simp add: charge_def word_le_nat_alt)
    show "po_running_jobs q \<le> po_running_jobs (charge d q)"
      using unat_add_within [OF takes(3) less_imp_le [OF lt(2)]] by (simp add: charge_def word_le_nat_alt)
  qed (simp_all add: charge_def same_frame_def)
qed

subsection \<open>Plans that only balance\<close>

text \<open>
  No source of a demand is urgent, and no eligible member would score enough above the source for
  a move to pay by itself.
\<close>

definition only_balancing :: "(bytes \<Rightarrow> bytes) \<Rightarrow> placement_planner \<Rightarrow> i64 \<Rightarrow> placement_observation list
    \<Rightarrow> cell_transfer_demand list \<Rightarrow> bool" where
  "only_balancing blake3 p now obs ds \<longleftrightarrow> (\<forall>d \<in> set ds. \<forall>source. source_of obs (td_source d) = Some source \<longrightarrow>
     \<not> urgent source \<and> (\<forall>ob \<in> set obs. sc_score (score blake3 p (td_cell d) now (ob\<lparr>po_current_owner := False\<rparr>))
       < sc_score (score blake3 p (td_cell d) now (source\<lparr>po_current_owner := True\<rparr>)) + MIN_TRANSFER_GAIN))"

definition arrivals :: "session_id \<Rightarrow> cell_transfer_intent list \<Rightarrow> nat" where
  "arrivals s is = load (\<lambda>_. 1) s is"

definition donation_inv :: "(bytes \<Rightarrow> bytes) \<Rightarrow> placement_planner \<Rightarrow> i64 \<Rightarrow> placement_observation list
    \<Rightarrow> fleet_balance \<Rightarrow> plan_state \<Rightarrow> bool" where
  "donation_inv blake3 p now obs b st \<longleftrightarrow>
     list_all2 (\<lambda>ob q. \<forall>c. sc_score (score blake3 p c now q) \<le> sc_score (score blake3 p c now (ob\<lparr>po_current_owner := False\<rparr>)))
       obs (pn_projected st)
     \<and> pn_donations st = length (pn_intents st) \<and> length (pn_intents st) \<le> fb_surplus b
     \<and> (\<forall>i \<in> set (pn_intents st). ti_source i = fb_donor b \<and> ti_destination i \<in> set (fb_receivers b))
     \<and> (\<forall>ob \<in> set obs. arrivals (po_session ob) (pn_intents st)
          \<le> room ob (balance_target (owned_of obs) (weight_of obs) ob))"

lemma receiver_room_input:
  assumes "weight_of obs \<noteq> 0"
  shows "receiver_room (px_owned (plan_input obs balance)) (px_weight (plan_input obs balance)) q
    = room q (balance_target (owned_of obs) (weight_of obs) q)"
  using assms unfolding receiver_room_def plan_input_def owned_of_def weight_of_def balance_target_def Let_def
  by (simp only: plan_context.simps if_False)

lemma room_charged:
  assumes "charged p now is ob q"
  shows "room q (balance_target ow wt q) = room ob (balance_target ow wt ob) - arrivals (po_session ob) is"
  using assms by (simp add: charged_def same_frame_def room_def balance_target_def arrivals_def Let_def)

lemma proposes_donation:
  assumes inv: "plan_inv p now obs ds st" and don: "donation_inv blake3 p now obs b st"
    and only: "only_balancing blake3 p now obs ds" and d: "d \<in> set ds"
    and w: "weight_of obs \<noteq> 0"
    and pr: "proposes blake3 p now (plan_input obs (Some b)) st d source q st'"
  obtains ob where "ob \<in> set obs" "charged p now (pn_intents st) ob q" "td_source d = fb_donor b"
    "po_session q \<in> set (fb_receivers b)" "pn_donations st < fb_surplus b" "pn_donations st' = pn_donations st + 1"
    "arrivals (po_session ob) (pn_intents st) < room ob (balance_target (owned_of obs) (weight_of obs) ob)"
proof -
  have q: "q \<in> set (pn_projected st)" and src: "source_of obs (td_source d) = Some source"
    using pr by (simp_all add: proposes_def plan_input_def)
  have both: "list_all2 (charged p now (pn_intents st)) obs (pn_projected st)"
      "list_all2 (\<lambda>ob q. \<forall>c. sc_score (score blake3 p c now q) \<le> sc_score (score blake3 p c now (ob\<lparr>po_current_owner := False\<rparr>)))
         obs (pn_projected st)"
    using inv don by (simp_all add: plan_inv_def donation_inv_def)
  obtain n where n: "n < length obs" "q = pn_projected st ! n"
    using q both(1) by (metis in_set_conv_nth list_all2_lengthD)
  let ?ob = "obs ! n"
  have ob: "?ob \<in> set obs" "charged p now (pn_intents st) ?ob q"
      "sc_score (score blake3 p (td_cell d) now q) \<le> sc_score (score blake3 p (td_cell d) now (?ob\<lparr>po_current_owner := False\<rparr>))"
    using both n by (auto simp: list_all2_conv_all_nth)
  have "\<not> urgent source" "sc_score (score blake3 p (td_cell d) now q)
      < sc_score (score blake3 p (td_cell d) now (source\<lparr>po_current_owner := True\<rparr>)) + MIN_TRANSFER_GAIN"
    using only d src ob(1,3) unfolding only_balancing_def by (blast intro: le_less_trans)+
  then have gate: "donates (plan_input obs (Some b)) st d" "accepting (plan_input obs (Some b)) (po_session q)"
      "receiver_room (px_owned (plan_input obs (Some b))) (px_weight (plan_input obs (Some b))) q > 0" "\<not> urgent source"
    using pr by (auto simp: proposes_def node_takes_def)
  then have "pn_donations st' = pn_donations st + 1"
    using pr by (simp add: proposes_def)
  then show ?thesis
    using that [OF ob(1,2)] gate room_charged [OF ob(2)]
    by (simp add: receiver_room_input [OF w]) (simp add: donates_def accepting_def plan_input_def)
qed

lemma donation_step:
  assumes inv: "plan_inv p now obs ds st" and don: "donation_inv blake3 p now obs b st"
    and only: "only_balancing blake3 p now obs ds" and d: "d \<in> set ds"
    and w: "weight_of obs \<noteq> 0" and dist: "distinct (map po_session obs)"
    and pr: "proposes blake3 p now (plan_input obs (Some b)) st d source q st'"
  shows "donation_inv blake3 p now obs b st'"
proof -
  obtain ob where ob: "ob \<in> set obs" "charged p now (pn_intents st) ob q" "td_source d = fb_donor b"
      "po_session q \<in> set (fb_receivers b)" "pn_donations st < fb_surplus b" "pn_donations st' = pn_donations st + 1"
      "arrivals (po_session ob) (pn_intents st) < room ob (balance_target (owned_of obs) (weight_of obs) ob)"
    using proposes_donation [OF inv don only d w pr] .
  have p: "pn_intents st' = pn_intents st @ [intent_of source d (po_session q)]" "q \<in> set (pn_projected st)"
      "pn_projected st' = update_first (\<lambda>y. po_session y = po_session q) (charge d) (pn_projected st)"
    using pr by (simp_all add: proposes_def)
  let ?R = "\<lambda>ob q. \<forall>c. sc_score (score blake3 p c now q) \<le> sc_score (score blake3 p c now (ob\<lparr>po_current_owner := False\<rparr>))"
  have dist': "distinct (map po_session (pn_projected st))"
    using inv dist charged_sessions by (metis plan_inv_def)
  have "list_all2 ?R obs (pn_projected st')"
    unfolding p(3)
  proof (rule list_all2_update_first [where R = ?R, OF _ dist'])
    show "list_all2 ?R obs (pn_projected st)"
      using don by (simp add: donation_inv_def)
    show "?R x (charge d y)" if "?R x y" "y \<in> set (pn_projected st)" "po_session y = po_session q" for x y
    proof -
      have "y = q"
        using dist' p(2) that(2,3) by (auto simp: distinct_map dest: inj_onD)
      then show ?thesis
        using that(1) charge_lowers_score pr by (blast intro: order_trans dest: proposes_def [THEN iffD1])
    qed
  qed
  moreover have "arrivals (po_session o') (pn_intents st') \<le> room o' (balance_target (owned_of obs) (weight_of obs) o')"
    if "o' \<in> set obs" for o'
  proof (cases "po_session o' = po_session q")
    case True
    then have "o' = ob"
      using dist ob(1) that charged_session [OF ob(2)] by (auto simp: distinct_map dest: inj_onD)
    then show ?thesis
      using ob(7) True by (simp add: arrivals_def p(1))
  next
    case False
    then show ?thesis
      using don that by (simp add: donation_inv_def arrivals_def p(1))
  qed
  ultimately show ?thesis
    using don ob(3-6) p(1) by (simp add: donation_inv_def)
qed

lemma donation_loop:
  assumes "plan_loop blake3 p now (plan_input obs (Some b)) cs st = Inr st'" and "plan_inv p now obs ds st"
    and "donation_inv blake3 p now obs b st" and "only_balancing blake3 p now obs ds" and "weight_of obs \<noteq> 0"
    and "distinct (map po_session obs)" and "set cs \<subseteq> set ds"
    and "distinct (map td_cell cs)" and "td_cell ` set cs \<inter> ti_cell ` set (pn_intents st) = {}"
  shows "donation_inv blake3 p now obs b st'"
  using assms
proof (induction cs arbitrary: st)
  case (Cons d cs)
  show ?case
  proof (cases "length (pn_intents st) = MAX_TRANSFERS_PER_TICK")
    case True
    then show ?thesis using Cons.prems by simp
  next
    case False
    then obtain st1 where st1: "plan_demand blake3 p now (plan_input obs (Some b)) st d = Inr st1"
        "plan_loop blake3 p now (plan_input obs (Some b)) cs st1 = Inr st'"
      using Cons.prems(1) by (auto simp: rust_simps)
    have dist: "distinct (map po_session (pn_projected st))"
      using Cons.prems(2,6) charged_sessions by (metis plan_inv_def)
    have "plan_inv p now obs ds st1 \<and> donation_inv blake3 p now obs b st1
        \<and> td_cell ` set cs \<inter> ti_cell ` set (pn_intents st1) = {}"
      using st1(1) dist
    proof (cases rule: plan_demand_cases)
      case 1
      then show ?thesis using Cons.prems by auto
    next
      case (2 source q)
      have "plan_inv p now obs ds st1"
        using proposes_inv [OF Cons.prems(2) _ False Cons.prems(6) _ _ 2] Cons.prems(7,9) by (auto simp: plan_input_def)
      moreover have "donation_inv blake3 p now obs b st1"
        using donation_step [OF Cons.prems(2-4) _ Cons.prems(5,6) 2] Cons.prems(7) by auto
      moreover have "pn_intents st1 = pn_intents st @ [intent_of source d (po_session q)]"
        using 2 by (simp add: proposes_def)
      ultimately show ?thesis
        using Cons.prems(8,9) by auto
    qed
    then show ?thesis
      using Cons.IH [OF st1(2)] Cons.prems by auto
  qed
qed simp

lemma planned_donations:
  assumes "plan_transfers blake3 p now obs ds (Some b) = Inr intents" and "only_balancing blake3 p now obs ds"
    and "weight_of obs \<noteq> 0"
  shows "length intents \<le> fb_surplus b"
    and "\<forall>i \<in> set intents. ti_source i = fb_donor b \<and> ti_destination i \<in> set (fb_receivers b)"
    and "\<forall>ob \<in> set obs. arrivals (po_session ob) intents \<le> room ob (balance_target (owned_of obs) (weight_of obs) ob)"
proof -
  obtain st where st: "plan_loop blake3 p now (plan_input obs (Some b)) (sort_by (demand_order obs) ds) (plan_start obs) = Inr st"
      "intents = pn_intents st" "distinct (map po_session obs)" "distinct (map td_cell ds)"
    using plan_transfers_run [OF assms(1)] .
  have "donation_inv blake3 p now obs b (plan_start obs)"
    by (simp add: donation_inv_def plan_start_def arrivals_def list_all2_conv_all_nth)
  then have "donation_inv blake3 p now obs b st"
    using donation_loop [OF st(1) plan_start_inv _ assms(2,3) st(3)] st(4) by (simp add: plan_start_def)
  then show "length intents \<le> fb_surplus b"
    "\<forall>i \<in> set intents. ti_source i = fb_donor b \<and> ti_destination i \<in> set (fb_receivers b)"
    "\<forall>ob \<in> set obs. arrivals (po_session ob) intents \<le> room ob (balance_target (owned_of obs) (weight_of obs) ob)"
    using st(2) by (simp_all add: donation_inv_def)
qed

subsection \<open>Rounds\<close>

text \<open>The Cells each member owns once the planned transfers have completed.\<close>

definition departures :: "session_id \<Rightarrow> cell_transfer_intent list \<Rightarrow> nat" where
  "departures s is = length (filter (\<lambda>i. ti_source i = s) is)"

definition moved :: "cell_transfer_intent list \<Rightarrow> placement_observation list \<Rightarrow> placement_observation list" where
  "moved is = map (\<lambda>ob. ob\<lparr>po_active_cells := po_active_cells ob - of_nat (departures (po_session ob) is)
     + of_nat (arrivals (po_session ob) is)\<rparr>)"

definition ownership :: "placement_observation \<Rightarrow> session_id \<times> u32 \<times> u32" where
  "ownership ob = (po_session ob, po_active_cells ob, po_max_active_cells ob)"

lemma arrivals_count: "arrivals s is = count_list (map ti_destination is) s"
  by (induction "is") (auto simp: arrivals_def load_def)

lemma moved_donate:
  assumes "\<forall>i \<in> set is. ti_source i = donor \<and> ti_destination i \<noteq> donor"
  shows "moved is obs = donate donor (map ti_destination is) obs"
proof -
  have "departures s is = (if s = donor then length is else 0)" for s
    using assms by (induction "is") (auto simp: departures_def)
  moreover have "count_list (map ti_destination is) donor = 0"
    using assms by (auto simp: count_list_0_iff)
  ultimately show ?thesis
    by (auto simp: moved_def donate_def arrivals_count)
qed

text \<open>
  One round: the planner elects a balance, plans at least one transfer with it, and the next
  snapshot shows the ownership the plan leads to. Its other fields are whatever is measured then.
\<close>

inductive balance_round :: "(bytes \<Rightarrow> bytes) \<Rightarrow> placement_observation list \<Rightarrow> placement_observation list \<Rightarrow> bool"
  for blake3 where
  round: "fleet_balance_of p now obs since = Inr (Some b) \<Longrightarrow> plan_transfers blake3 p now obs ds (Some b) = Inr intents
    \<Longrightarrow> intents \<noteq> [] \<Longrightarrow> only_balancing blake3 p now obs ds
    \<Longrightarrow> \<forall>ob \<in> set obs. weighted ob \<and> po_active_cells ob \<le> po_max_active_cells ob
    \<Longrightarrow> map ownership obs' = map ownership (moved intents obs) \<Longrightarrow> balance_round blake3 obs obs'"

lemma ownership_sums:
  assumes "map ownership xs = map ownership ys"
  shows "owned_of xs = owned_of ys" "weight_of xs = weight_of ys" "excess xs = excess ys"
proof -
  have f: "map (\<lambda>ob. g (ownership ob)) xs = map (\<lambda>ob. g (ownership ob)) ys" for g :: "_ \<Rightarrow> nat"
    using arg_cong [OF assms, of "map g"] by (simp add: comp_def)
  show o: "owned_of xs = owned_of ys" and w: "weight_of xs = weight_of ys"
    using f [of "\<lambda>(_, a, _). unat a"] f [of "\<lambda>(_, _, m). unat m"]
    by (simp_all add: owned_of_def weight_of_def ownership_def)
  show "excess xs = excess ys"
    using f [of "\<lambda>(_, a, m). unat a - div_ceil (owned_of ys * unat m) (weight_of ys)"]
    by (simp add: excess_def o w ownership_def balance_target_def)
qed

lemma balance_round_excess:
  assumes "balance_round blake3 obs obs'"
  shows "owned_of obs' = owned_of obs \<and> excess obs' < excess obs"
  using assms
proof cases
  case (round p now since b ds intents)
  obtain donor where donor: "weight_of obs \<noteq> 0" "fb_donor b = po_session donor"
      "fb_receivers b = map po_session (balance_receivers p now (owned_of obs) (weight_of obs) donor obs)"
    using fleet_balance_parts [OF round(1)] by metis
  note plan = planned_donations [OF round(2,4) donor(1)]
  have "s \<noteq> fb_donor b" if "s \<in> set (fb_receivers b)" for s
    using that donor(2,3) receiver_facts(2) by auto
  then have m: "moved intents obs = donate (fb_donor b) (map ti_destination intents) obs"
    using plan(2) by (intro moved_donate) blast
  have "owned_of (moved intents obs) = owned_of obs \<and> excess (moved intents obs) + length intents = excess obs"
    using donation_batch [OF round(1,5), of "map ti_destination intents"] plan
    unfolding m by (auto simp: arrivals_count)
  moreover have "length intents > 0"
    using round(3) by simp
  ultimately show ?thesis
    using ownership_sums [OF round(6)] by linarith
qed

text \<open>
  C31: Balancing comes to an end. Consider rounds in which only the balance justifies a move: no source
  of a demand is draining or shedding, and no eligible member scores the required gain above the source.
  In such a round the planner, given the balance of the same snapshot, plans donations only, and once
  they have completed the fleet owns as many Cells as before and fewer Cells above target. Hence no
  run of rounds is longer than the number of Cells above target at its start, whatever else is measured
  in between, and there is no infinite run.
\<close>

theorem balancing_terminates:
  assumes "(balance_round blake3 ^^ n) obs obs'"
  shows "owned_of obs' = owned_of obs \<and> excess obs' + n \<le> excess obs
    \<and> \<not> (\<exists>f. f 0 = obs \<and> (\<forall>i. balance_round blake3 (f i) (f (Suc i))))"
proof -
  have run: "owned_of t = owned_of s \<and> excess t + m \<le> excess s" if "(balance_round blake3 ^^ m) s t" for s t m
    using that
  proof (induction m arbitrary: t)
    case (Suc m)
    then obtain u where u: "(balance_round blake3 ^^ m) s u" "balance_round blake3 u t"
      by auto
    then show ?case
      using Suc.IH [OF u(1)] balance_round_excess [OF u(2)] by simp
  qed simp
  have "\<not> (\<forall>i. balance_round blake3 (f i) (f (Suc i)))" if "f 0 = obs" for f
  proof
    assume "\<forall>i. balance_round blake3 (f i) (f (Suc i))"
    then have "(balance_round blake3 ^^ m) (f 0) (f m)" for m
      by (induction m) auto
    from run [OF this [of "Suc (excess obs)"]] show False
      using that by simp
  qed
  then show ?thesis
    using run [OF assms] by blast
qed

text \<open>Three Cells on one of two equal nodes: one round moves one of them.\<close>

definition sample_member :: "u8 \<Rightarrow> u32 \<Rightarrow> placement_observation" where
  "sample_member n active = (sample_node n False active)\<lparr>po_observed_at_ms := 100000\<rparr>"

definition sample_settled :: cell_transfer_demand where
  "sample_settled = (sample_demand 7 1)\<lparr>td_stable_observations := 2\<rparr>"

lemma sample_round: "balance_round (\<lambda>_. replicate 32 0) [sample_member 1 3, sample_member 2 0] [sample_member 1 2, sample_member 2 1]"
proof (rule balance_round.round)
  let ?b = "\<lparr>fb_donor = SessionId (replicate 16 1), fb_surplus = 1, fb_receivers = [SessionId (replicate 16 2)]\<rparr>"
  let ?i = "intent_of (sample_member 1 3) sample_settled (SessionId (replicate 16 2))"
  show "fleet_balance_of planner_default 100000 [sample_member 1 3, sample_member 2 0] 0 = Inr (Some ?b)"
    by code_simp
  show "plan_transfers (\<lambda>_. replicate 32 0) planner_default 100000 [sample_member 1 3, sample_member 2 0] [sample_settled] (Some ?b)
      = Inr [?i]"
    by code_simp
  have "source_of [sample_member 1 3, sample_member 2 0] (td_source sample_settled) = Some (sample_member 1 3)"
      "\<not> urgent (sample_member 1 3)"
    by code_simp+
  moreover have "\<forall>ob \<in> set [sample_member 1 3, sample_member 2 0].
      sc_score (score (\<lambda>_. replicate 32 0) planner_default (td_cell sample_settled) 100000 (ob\<lparr>po_current_owner := False\<rparr>))
      < sc_score (score (\<lambda>_. replicate 32 0) planner_default (td_cell sample_settled) 100000
          ((sample_member 1 3)\<lparr>po_current_owner := True\<rparr>)) + MIN_TRANSFER_GAIN"
    by code_simp
  ultimately show "only_balancing (\<lambda>_. replicate 32 0) planner_default 100000 [sample_member 1 3, sample_member 2 0] [sample_settled]"
    by (simp add: only_balancing_def)
  show "\<forall>ob \<in> set [sample_member 1 3, sample_member 2 0]. weighted ob \<and> po_active_cells ob \<le> po_max_active_cells ob"
    by code_simp
  show "map ownership [sample_member 1 2, sample_member 2 1] = map ownership (moved [?i] [sample_member 1 3, sample_member 2 0])"
    by code_simp
qed simp

theorem balancing_terminates_witness:
  "owned_of [sample_member 1 2, sample_member 2 1] = owned_of [sample_member 1 3, sample_member 2 0]
   \<and> excess [sample_member 1 2, sample_member 2 1] + 1 \<le> excess [sample_member 1 3, sample_member 2 0]"
proof -
  have "(balance_round (\<lambda>_. replicate 32 0) ^^ 1) [sample_member 1 3, sample_member 2 0] [sample_member 1 2, sample_member 2 1]"
    using sample_round by (simp only: relpowp_1)
  then show ?thesis
    using balancing_terminates by blast
qed

end
