(* ===== verification/Peer_Endpoint.thy ===== *)
theory Peer_Endpoint
  imports Control_Codec Node_Capacity
begin

text \<open>
  Peer endpoints, \<^verbatim>\<open>valid_endpoint\<close> and \<^verbatim>\<open>valid_host\<close> of
  \<^verbatim>\<open>crates/cellule-runtime/src/node/advertisement/mod.rs\<close>, with the standard library's parsers of
  IPv4 and IPv6 addresses and of ports. A parser of the standard library consumes a prefix of its
  input and restores it on failure: it is a function to the rest of the input.
\<close>

subsection \<open>Addresses of the standard library\<close>

definition digit_value :: "nat \<Rightarrow> u8 \<Rightarrow> nat option" where
  "digit_value radix b =
     (let v = (if 48 \<le> b \<and> b \<le> 57 then Some (unat b - 48)
               else if 97 \<le> b \<and> b \<le> 102 then Some (unat b - 87)
               else if 65 \<le> b \<and> b \<le> 70 then Some (unat b - 55)
               else None)
      in case v of None \<Rightarrow> None | Some n \<Rightarrow> if n < radix then Some n else None)"

text \<open>A number of at most \<open>max_digits\<close> digits below \<open>limit\<close>; leading zeros on request.\<close>

definition read_number :: "nat \<Rightarrow> nat \<Rightarrow> bool \<Rightarrow> nat \<Rightarrow> rstring \<Rightarrow> rstring option" where
  "read_number radix max_digits zero_prefix limit s =
     (let ds = takeWhile (\<lambda>b. digit_value radix b \<noteq> None) s;
          n = foldl (\<lambda>acc b. acc * radix + the (digit_value radix b)) 0 ds
      in if ds = [] \<or> length ds > max_digits \<or> n \<ge> limit
            \<or> \<not> zero_prefix \<and> hd ds = 48 \<and> length ds > 1
         then None else Some (drop (length ds) s))"

definition read_separator :: "u8 \<Rightarrow> nat \<Rightarrow> (rstring \<Rightarrow> rstring option) \<Rightarrow> rstring \<Rightarrow> rstring option" where
  "read_separator sep index inner s =
     (if index > 0 then (case s of [] \<Rightarrow> None | b # rest \<Rightarrow> if b = sep then inner rest else None)
      else inner s)"

fun read_octets :: "nat \<Rightarrow> nat \<Rightarrow> rstring \<Rightarrow> rstring option" where
  "read_octets i 0 s = Some s"
| "read_octets i (Suc k) s =
     (case read_separator 46 i (read_number 10 3 False 256) s of None \<Rightarrow> None
      | Some rest \<Rightarrow> read_octets (Suc i) k rest)"

definition read_ipv4_addr :: "rstring \<Rightarrow> rstring option" where
  "read_ipv4_addr s = read_octets 0 4 s"

text \<open>Up to \<open>k\<close> further groups, with the number read and whether an IPv4 address ended them.\<close>

fun read_groups :: "nat \<Rightarrow> nat \<Rightarrow> rstring \<Rightarrow> nat \<times> bool \<times> rstring" where
  "read_groups i 0 s = (i, False, s)"
| "read_groups i (Suc k) s =
     (case (if k > 0 then read_separator 58 i read_ipv4_addr s else None) of
        Some rest \<Rightarrow> (i + 2, True, rest)
      | None \<Rightarrow> (case read_separator 58 i (read_number 16 4 True 65536) s of
            Some rest \<Rightarrow> read_groups (Suc i) k rest
          | None \<Rightarrow> (i, False, s)))"

definition read_ipv6_addr :: "rstring \<Rightarrow> rstring option" where
  "read_ipv6_addr s =
     (case read_groups 0 8 s of (head_size, head_ipv4, rest) \<Rightarrow>
        if head_size = 8 then Some rest
        else if head_ipv4 then None
        else if take 2 rest = [58, 58] then
          (case read_groups 0 (8 - (head_size + 1)) (drop 2 rest) of (_, _, rest') \<Rightarrow> Some rest')
        else None)"

definition parse_ipv4 :: "rstring \<Rightarrow> bool" where
  "parse_ipv4 s \<longleftrightarrow> length s \<le> 15 \<and> read_ipv4_addr s = Some []"

definition parse_ipv6 :: "rstring \<Rightarrow> bool" where
  "parse_ipv6 s \<longleftrightarrow> read_ipv6_addr s = Some []"

definition parse_u16 :: "rstring \<Rightarrow> nat option" where
  "parse_u16 s =
     (case parse_digits (if take 1 s = [43] then tl s else s) of
        None \<Rightarrow> None
      | Some n \<Rightarrow> if n < 2 ^ 16 then Some n else None)"

subsection \<open>Splitting text\<close>

fun split_once :: "u8 \<Rightarrow> rstring \<Rightarrow> (rstring \<times> rstring) option" where
  "split_once c [] = None"
| "split_once c (b # s) = (if b = c then Some ([], s)
     else map_option (\<lambda>(l, r). (b # l, r)) (split_once c s))"

fun rsplit_once :: "u8 \<Rightarrow> rstring \<Rightarrow> (rstring \<times> rstring) option" where
  "rsplit_once c [] = None"
| "rsplit_once c (b # s) = (case rsplit_once c s of Some (l, r) \<Rightarrow> Some (b # l, r)
     | None \<Rightarrow> if b = c then Some ([], s) else None)"

fun split_on :: "u8 \<Rightarrow> rstring \<Rightarrow> rstring list" where
  "split_on c [] = [[]]"
| "split_on c (b # s) = (if b = c then [] # split_on c s
     else (case split_on c s of [] \<Rightarrow> [[b]] | w # ws \<Rightarrow> (b # w) # ws))"

definition strip_prefix :: "rstring \<Rightarrow> rstring \<Rightarrow> rstring option" where
  "strip_prefix p s = (if take (length p) s = p then Some (drop (length p) s) else None)"

definition strip_slash :: "rstring \<Rightarrow> rstring" where
  "strip_slash s = (if s \<noteq> [] \<and> last s = 47 then butlast s else s)"

subsection \<open>Hosts and endpoints\<close>

definition MAX_ENDPOINT_BYTES :: nat where
  "MAX_ENDPOINT_BYTES = 512"

definition is_ascii_alphanumeric :: "u8 \<Rightarrow> bool" where
  "is_ascii_alphanumeric b \<longleftrightarrow> 48 \<le> b \<and> b \<le> 57 \<or> 65 \<le> b \<and> b \<le> 90 \<or> 97 \<le> b \<and> b \<le> 122"

definition is_ascii_control :: "u8 \<Rightarrow> bool" where
  "is_ascii_control b \<longleftrightarrow> b < 32 \<or> b = 127"

definition valid_label :: "rstring \<Rightarrow> bool" where
  "valid_label l \<longleftrightarrow> l \<noteq> [] \<and> length l \<le> 63
     \<and> list_all (\<lambda>b. is_ascii_alphanumeric b \<or> b = 45) l
     \<and> is_ascii_alphanumeric (hd l) \<and> is_ascii_alphanumeric (last l)"

definition valid_host :: "rstring \<Rightarrow> bool" where
  "valid_host host \<longleftrightarrow> parse_ipv4 host
     \<or> host \<noteq> [] \<and> length host \<le> 253 \<and> list_all valid_label (split_on 46 host)"

definition valid_port :: "rstring \<Rightarrow> bool" where
  "valid_port port = (case parse_u16 port of None \<Rightarrow> False | Some n \<Rightarrow> n \<noteq> 0 \<and> digits n = port)"

text \<open>The host, unless it is a bracketed address, and the port of an authority.\<close>

definition host_port :: "rstring \<Rightarrow> (rstring option \<times> rstring option) option" where
  "host_port authority =
     (case strip_prefix [91] authority of
        Some bracketed \<Rightarrow> (case split_once 93 bracketed of None \<Rightarrow> None
          | Some (host, suffix) \<Rightarrow>
              if \<not> parse_ipv6 host then None
              else if suffix = [] then Some (None, None)
              else (case strip_prefix [58] suffix of None \<Rightarrow> None
                    | Some port \<Rightarrow> Some (None, Some port)))
      | None \<Rightarrow> (case rsplit_once 58 authority of
            Some (host, port) \<Rightarrow> Some (Some host, Some port)
          | None \<Rightarrow> Some (Some authority, None)))"

definition valid_endpoint :: "rstring \<Rightarrow> bool" where
  "valid_endpoint endpoint =
     (if length endpoint > MAX_ENDPOINT_BYTES \<or> \<not> is_ascii endpoint
         \<or> list_ex (\<lambda>b. is_ascii_control b \<or> b = 32) endpoint
         \<or> list_ex (\<lambda>b. b = 64 \<or> b = 63 \<or> b = 35) endpoint
      then False
      else case strip_prefix (ascii ''https://'') endpoint of None \<Rightarrow> False
        | Some rest \<Rightarrow>
          let authority = strip_slash rest in
          if authority = [] \<or> 47 \<in> set authority then False
          else case host_port authority of None \<Rightarrow> False
            | Some (host, port) \<Rightarrow>
                (case host of None \<Rightarrow> True | Some h \<Rightarrow> valid_host h)
                \<and> (case port of None \<Rightarrow> True | Some p \<Rightarrow> valid_port p))"

subsection \<open>What a parser consumes\<close>

definition consumes :: "(u8 \<Rightarrow> bool) \<Rightarrow> (rstring \<Rightarrow> rstring option) \<Rightarrow> bool" where
  "consumes P f \<longleftrightarrow> (\<forall>s r. f s = Some r \<longrightarrow> (\<exists>c. s = c @ r \<and> c \<noteq> [] \<and> list_all P c))"

definition addr_char :: "u8 \<Rightarrow> bool" where
  "addr_char b \<longleftrightarrow> digit_value 16 b \<noteq> None \<or> b = 46 \<or> b = 58"

definition quad_char :: "u8 \<Rightarrow> bool" where
  "quad_char b \<longleftrightarrow> is_digit b \<or> b = 46"

lemma consumesD: "consumes P f \<Longrightarrow> f s = Some r \<Longrightarrow> \<exists>c. s = c @ r \<and> c \<noteq> [] \<and> list_all P c"
  by (simp add: consumes_def)

lemma consumes_number:
  assumes "\<And>b. digit_value radix b \<noteq> None \<Longrightarrow> P b"
  shows "consumes P (read_number radix m z l)"
  unfolding consumes_def
proof (intro allI impI)
  fix s r
  let ?ds = "takeWhile (\<lambda>b. digit_value radix b \<noteq> None) s"
  assume "read_number radix m z l s = Some r"
  then have "?ds \<noteq> []" "r = drop (length ?ds) s"
    by (auto simp: read_number_def Let_def split: if_splits)
  moreover have "s = ?ds @ drop (length ?ds) s"
    by (metis append_take_drop_id takeWhile_eq_take)
  moreover have "list_all P ?ds"
    using assms by (auto simp: list_all_iff dest: set_takeWhileD)
  ultimately show "\<exists>c. s = c @ r \<and> c \<noteq> [] \<and> list_all P c"
    by metis
qed

lemma consumes_separator:
  assumes "consumes P f" and "P sep"
  shows "consumes P (read_separator sep i f)"
  unfolding consumes_def
proof (intro allI impI)
  fix s r
  assume r: "read_separator sep i f s = Some r"
  show "\<exists>c. s = c @ r \<and> c \<noteq> [] \<and> list_all P c"
  proof (cases "i > 0")
    case True
    then obtain rest where "s = sep # rest" "f rest = Some r"
      using r by (auto simp: read_separator_def split: list.splits if_splits)
    then obtain c where "s = (sep # c) @ r" "list_all P (sep # c)"
      using consumesD [OF assms(1), of rest r] assms(2) by auto
    then show ?thesis
      by blast
  next
    case False
    then show ?thesis
      using r consumesD [OF assms(1)] by (simp add: read_separator_def)
  qed
qed

lemma read_octets_consumes: "read_octets i k s = Some r \<Longrightarrow> \<exists>c. s = c @ r \<and> (k > 0 \<longrightarrow> c \<noteq> []) \<and> list_all quad_char c"
proof (induction i k s rule: read_octets.induct)
  case (2 i k s)
  have "consumes quad_char (read_separator 46 i (read_number 10 3 False 256))"
    by (intro consumes_separator consumes_number)
      (auto simp: quad_char_def digit_value_def is_digit_def word_le_nat_alt Let_def split: if_splits)
  moreover obtain rest where rest: "read_separator 46 i (read_number 10 3 False 256) s = Some rest"
      "read_octets (Suc i) k rest = Some r"
    using 2(2) by (auto split: option.splits)
  ultimately obtain c where c: "s = c @ rest" "c \<noteq> []" "list_all quad_char c"
    using consumesD by blast
  obtain c' where "rest = c' @ r" "list_all quad_char c'"
    using 2(1) [OF rest] by blast
  then have "s = (c @ c') @ r" "list_all quad_char (c @ c')"
    using c by simp_all
  then show ?case
    using c(2) by blast
qed auto

lemma quad_addr: "quad_char b \<Longrightarrow> addr_char b"
  by (auto simp: quad_char_def addr_char_def digit_value_def is_digit_def word_le_nat_alt Let_def)

lemma consumes_ipv4: "consumes addr_char read_ipv4_addr"
proof -
  have "\<exists>c. s = c @ r \<and> c \<noteq> [] \<and> list_all addr_char c" if "read_octets 0 4 s = Some r" for s r
    using read_octets_consumes [OF that] by (auto simp: list_all_iff quad_addr)
  then show ?thesis
    by (simp add: consumes_def read_ipv4_addr_def)
qed

lemma read_groups_consumes: "read_groups i k s = (n, v4, r) \<Longrightarrow> \<exists>c. s = c @ r \<and> list_all addr_char c"
proof (induction i k s rule: read_groups.induct)
  case (2 i k s)
  have v4: "consumes addr_char (read_separator 58 i read_ipv4_addr)"
    by (intro consumes_separator consumes_ipv4) (simp add: addr_char_def)
  have num: "consumes addr_char (read_separator 58 i (read_number 16 4 True 65536))"
    by (intro consumes_separator consumes_number) (simp_all add: addr_char_def)
  show ?case
  proof (cases "if k > 0 then read_separator 58 i read_ipv4_addr s else None")
    case (Some rest)
    then show ?thesis
      using 2(2) consumesD [OF v4] by (force split: if_splits)
  next
    case none: None
    show ?thesis
    proof (cases "read_separator 58 i (read_number 16 4 True 65536) s")
      case None
      then show ?thesis
        using 2(2) none by (auto intro: exI [of _ "[]"])
    next
      case (Some rest)
      then have "read_groups (Suc i) k rest = (n, v4, r)"
        using 2(2) none by simp
      then obtain c' where c': "rest = c' @ r" "list_all addr_char c'"
        using 2(1) [OF none Some] by blast
      obtain c where "s = c @ rest" "list_all addr_char c"
        using consumesD [OF num Some] by blast
      then have "s = (c @ c') @ r" "list_all addr_char (c @ c')"
        using c' by simp_all
      then show ?thesis
        by blast
    qed
  qed
qed auto

lemma parse_ipv6_chars: "parse_ipv6 s \<Longrightarrow> list_all addr_char s"
proof -
  assume s: "parse_ipv6 s"
  obtain n v4 r where g: "read_groups 0 8 s = (n, v4, r)"
    by (cases "read_groups 0 8 s") auto
  obtain c where c: "s = c @ r" "list_all addr_char c"
    using read_groups_consumes [OF g] by blast
  show ?thesis
  proof (cases "n = 8")
    case True
    then show ?thesis
      using s g c by (simp add: parse_ipv6_def read_ipv6_addr_def)
  next
    case False
    obtain n' v4' r' where g': "read_groups 0 (8 - (n + 1)) (drop 2 r) = (n', v4', r')"
      by (cases "read_groups 0 (8 - (n + 1)) (drop 2 r)") auto
    have r: "take 2 r = [58, 58]" "r' = []"
      using s g g' False by (auto simp: parse_ipv6_def read_ipv6_addr_def split: if_splits)
    then have "list_all addr_char (drop 2 r)"
      using read_groups_consumes [OF g'] by auto
    moreover have "list_all addr_char (take 2 r)"
      using r(1) by (simp add: addr_char_def)
    ultimately have "list_all addr_char r"
      by (metis append_take_drop_id list_all_append)
    then show ?thesis
      using c by simp
  qed
qed

lemma parse_ipv4_chars: "parse_ipv4 s \<Longrightarrow> s \<noteq> [] \<and> list_all quad_char s"
  using read_octets_consumes [of 0 4 s "[]"] by (auto simp: parse_ipv4_def read_ipv4_addr_def)

subsection \<open>The grammar of endpoints\<close>

lemma split_once_Some: "split_once c s = Some (l, r) \<longleftrightarrow> s = l @ c # r \<and> c \<notin> set l"
proof (induction s arbitrary: l)
  case (Cons b s)
  then show ?case
    by (cases l) auto
qed simp

lemma rsplit_once_None: "rsplit_once c s = None \<longleftrightarrow> c \<notin> set s"
  by (induction s) (auto split: option.splits)

lemma rsplit_once_Some: "rsplit_once c s = Some (l, r) \<longleftrightarrow> s = l @ c # r \<and> c \<notin> set r"
proof (induction s arbitrary: l)
  case (Cons b s)
  show ?case
  proof (cases "rsplit_once c s")
    case None
    then have "c \<notin> set s"
      by (simp add: rsplit_once_None)
    then show ?thesis
      using None by (cases l) auto
  next
    case (Some lr)
    then have "c \<in> set s"
      using rsplit_once_None [of c s] by auto
    then show ?thesis
      using Some Cons.IH by (cases l) (auto split: prod.splits)
  qed
qed simp

lemma strip_prefix_Some: "strip_prefix p s = Some r \<longleftrightarrow> s = p @ r"
  using append_eq_conv_conj [of p r s] by (auto simp: strip_prefix_def)

lemma split_on_chars: "b \<in> set s \<Longrightarrow> b = c \<or> (\<exists>w \<in> set (split_on c s). b \<in> set w)"
  by (induction s) (auto split: list.splits)

definition host_char :: "u8 \<Rightarrow> bool" where
  "host_char b \<longleftrightarrow> is_ascii_alphanumeric b \<or> b = 45 \<or> b = 46"

lemma valid_host_chars: "valid_host h \<Longrightarrow> h \<noteq> [] \<and> list_all host_char h"
proof -
  have "list_all host_char h" if "list_all valid_label (split_on 46 h)"
    using that split_on_chars [of _ h 46] by (fastforce simp: list_all_iff valid_label_def host_char_def)
  moreover have "host_char b" if "quad_char b" for b
    using that by (auto simp: quad_char_def host_char_def is_digit_def is_ascii_alphanumeric_def)
  ultimately show "valid_host h \<Longrightarrow> h \<noteq> [] \<and> list_all host_char h"
    using parse_ipv4_chars [of h] by (auto simp: valid_host_def list_all_iff)
qed

lemma valid_port_iff: "valid_port p \<longleftrightarrow> (\<exists>n. 0 < n \<and> n < 65536 \<and> p = digits n)"
proof
  assume "valid_port p"
  then show "\<exists>n. 0 < n \<and> n < 65536 \<and> p = digits n"
    by (auto simp: valid_port_def parse_u16_def split: option.splits if_splits)
next
  assume "\<exists>n. 0 < n \<and> n < 65536 \<and> p = digits n"
  then obtain n where "0 < n" "n < 65536" "p = digits n" by blast
  then show "valid_port p"
    using digits_no_sign [of n] by (simp add: valid_port_def parse_u16_def parse_digits_round)
qed

text \<open>The characters of an authority, and what they exclude.\<close>

definition authority_char :: "u8 \<Rightarrow> bool" where
  "authority_char b \<longleftrightarrow> host_char b \<or> b = 58 \<or> b = 91 \<or> b = 93"

lemma authority_char_plain:
  "authority_char b \<Longrightarrow> b < 128 \<and> \<not> is_ascii_control b \<and> b \<notin> {32, 35, 47, 63, 64}"
  by (auto simp: authority_char_def host_char_def is_ascii_alphanumeric_def is_ascii_control_def
      word_le_nat_alt word_less_nat_alt)

lemma addr_char_authority: "addr_char b \<Longrightarrow> authority_char b \<and> b \<noteq> 91 \<and> b \<noteq> 93"
  by (auto simp: addr_char_def authority_char_def host_char_def digit_value_def Let_def
      is_ascii_alphanumeric_def word_le_nat_alt split: if_splits)

lemma digits_authority: "list_all authority_char (digits n) \<and> 58 \<notin> set (digits n)"
  using digits_shape [of n]
  by (auto simp: list_all_iff authority_char_def host_char_def is_ascii_alphanumeric_def is_digit_def)

definition host_text :: "rstring \<Rightarrow> bool" where
  "host_text h \<longleftrightarrow> valid_host h \<or> (\<exists>a. h = 91 # a @ [93] \<and> parse_ipv6 a)"

definition port_text :: "rstring \<Rightarrow> bool" where
  "port_text p \<longleftrightarrow> p = [] \<or> (\<exists>n. 0 < n \<and> n < 65536 \<and> p = 58 # digits n)"

lemma host_text_chars: "host_text h \<Longrightarrow> h \<noteq> [] \<and> list_all authority_char h"
proof -
  have "list_all authority_char a" if "parse_ipv6 a" for a
    using parse_ipv6_chars [OF that] addr_char_authority by (simp add: list_all_iff)
  moreover have "authority_char 91" "authority_char 93"
    by (simp_all add: authority_char_def)
  moreover have "list_all authority_char h" if "list_all host_char h"
    using that by (simp add: list_all_iff authority_char_def)
  ultimately show "host_text h \<Longrightarrow> h \<noteq> [] \<and> list_all authority_char h"
    using valid_host_chars [of h] by (auto simp: host_text_def)
qed

lemma port_text_chars: "port_text p \<Longrightarrow> list_all authority_char p"
  using digits_authority by (auto simp: port_text_def authority_char_def)

text \<open>Reading an authority back: a host text and a port text, and nothing else.\<close>

lemma host_port_text:
  "(\<exists>host port. host_port a = Some (host, port)
      \<and> (case host of None \<Rightarrow> True | Some h \<Rightarrow> valid_host h)
      \<and> (case port of None \<Rightarrow> True | Some p \<Rightarrow> valid_port p))
   \<longleftrightarrow> (\<exists>h p. a = h @ p \<and> host_text h \<and> port_text p)" (is "?L \<longleftrightarrow> ?R")
proof
  assume ?L
  then obtain host port where hp: "host_port a = Some (host, port)"
    "case host of None \<Rightarrow> True | Some h \<Rightarrow> valid_host h"
    "case port of None \<Rightarrow> True | Some p \<Rightarrow> valid_port p" by blast
  show ?R
  proof (cases "strip_prefix [91] a")
    case (Some bracketed)
    then obtain l r where lr: "split_once 93 bracketed = Some (l, r)" "parse_ipv6 l"
      and "r = [] \<or> (\<exists>p. strip_prefix [58] r = Some p \<and> valid_port p)"
      using hp by (auto simp: host_port_def split: option.splits if_splits)
    then have r: "r = [] \<or> (\<exists>p. r = 58 # p \<and> valid_port p)"
      by (simp add: strip_prefix_Some)
    have "a = (91 # l @ [93]) @ r"
      using Some lr(1) by (simp add: strip_prefix_Some split_once_Some)
    moreover have "host_text (91 # l @ [93])"
      using lr(2) by (simp add: host_text_def)
    moreover have "port_text r"
      using r by (auto simp: port_text_def valid_port_iff)
    ultimately show ?thesis
      by blast
  next
    case None
    then consider l p where "rsplit_once 58 a = Some (l, p)" "valid_host l" "valid_port p"
      | "rsplit_once 58 a = None" "valid_host a"
      using hp by (auto simp: host_port_def split: option.splits)
    then show ?thesis
    proof cases
      case 1
      then have "a = l @ 58 # p" "host_text l" "port_text (58 # p)"
        by (auto simp: rsplit_once_Some host_text_def port_text_def valid_port_iff)
      then show ?thesis
        by blast
    next
      case 2
      then have "a = a @ []" "host_text a" "port_text []"
        by (simp_all add: host_text_def port_text_def)
      then show ?thesis
        by blast
    qed
  qed
next
  assume ?R
  then obtain h p where a: "a = h @ p" and h: "host_text h" and p: "port_text p" by blast
  show ?L
  proof (cases "valid_host h")
    case True
    then have hc: "h \<noteq> []" "list_all host_char h"
      using valid_host_chars by blast+
    then have no: "58 \<notin> set h" "hd h \<noteq> 91"
      by (auto simp: list_all_iff host_char_def is_ascii_alphanumeric_def dest!: hd_in_set)
    then have "strip_prefix [91] a = None"
      using a hc(1) by (cases h) (auto simp: strip_prefix_def)
    then have pick: "host_port a = (case rsplit_once 58 a of
        Some (host, port) \<Rightarrow> Some (Some host, Some port) | None \<Rightarrow> Some (Some a, None))"
      by (simp add: host_port_def)
    consider "p = []" | n where "0 < n" "n < 65536" "p = 58 # digits n"
      using p by (auto simp: port_text_def)
    then show ?thesis
    proof cases
      case 1
      then have "rsplit_once 58 a = None"
        using a no(1) by (simp add: rsplit_once_None)
      then show ?thesis
        using pick 1 a True by simp
    next
      case 2
      then have "rsplit_once 58 a = Some (h, digits n)"
        using a digits_authority by (simp add: rsplit_once_Some)
      then show ?thesis
        using pick True 2 by (auto simp: valid_port_iff)
    qed
  next
    case False
    then obtain v6 where v6: "h = 91 # v6 @ [93]" "parse_ipv6 v6"
      using h by (auto simp: host_text_def)
    then have "split_once 93 (v6 @ 93 # p) = Some (v6, p)"
      using parse_ipv6_chars addr_char_authority by (fastforce simp: split_once_Some list_all_iff)
    then show ?thesis
      using a v6 p by (auto simp: host_port_def strip_prefix_def port_text_def valid_port_iff)
  qed
qed

lemma strip_slash_iff:
  "last a \<noteq> 47 \<Longrightarrow> a \<noteq> [] \<Longrightarrow> strip_slash s = a \<longleftrightarrow> s = a \<or> s = a @ [47]"
  by (auto simp: strip_slash_def split: if_splits) (metis append_butlast_last_id)

lemma strip_slash_text: "s = strip_slash s \<or> s = strip_slash s @ [47]"
  by (auto simp: strip_slash_def) (metis append_butlast_last_id)

lemma host_port_case:
  "(case host_port a of None \<Rightarrow> False
      | Some (host, port) \<Rightarrow> (case host of None \<Rightarrow> True | Some h \<Rightarrow> valid_host h)
          \<and> (case port of None \<Rightarrow> True | Some p \<Rightarrow> valid_port p))
   \<longleftrightarrow> (\<exists>h p. a = h @ p \<and> host_text h \<and> port_text p)"
  unfolding host_port_text [symmetric] by (auto split: option.splits)

text \<open>
  C32: The grammar of peer endpoints. An endpoint is accepted exactly when it is at most 512 bytes
  of the form \<open>https://\<close>, a host, an optional port and an optional final slash: the host is a
  dotted name, an IPv4 address or a bracketed IPv6 address, the port a decimal number from 1 to 65535
  without sign or leading zero. No user name, path, query or fragment is ever accepted.
\<close>

theorem endpoint_grammar_exact:
  "valid_endpoint e \<longleftrightarrow> length e \<le> 512
     \<and> (\<exists>host port slash. e = ascii ''https://'' @ host @ port @ slash
          \<and> host_text host \<and> port_text port \<and> (slash = [] \<or> slash = [47]))"
proof
  let ?h = "ascii ''https://''"
  assume v: "valid_endpoint e"
  then obtain rest where rest: "e = ?h @ rest"
    by (auto simp: valid_endpoint_def strip_prefix_Some split: if_splits option.splits)
  have "length e \<le> 512" "\<exists>h p. strip_slash rest = h @ p \<and> host_text h \<and> port_text p"
    using v rest strip_prefix_Some [of ?h e rest]
    by (auto simp: valid_endpoint_def Let_def host_port_case MAX_ENDPOINT_BYTES_def split: if_splits)
  then show "length e \<le> 512 \<and> (\<exists>host port slash. e = ?h @ host @ port @ slash
      \<and> host_text host \<and> port_text port \<and> (slash = [] \<or> slash = [47]))"
    using rest strip_slash_text [of rest] by (metis append.assoc append_Nil2)
next
  let ?h = "ascii ''https://''"
  assume "length e \<le> 512 \<and> (\<exists>host port slash. e = ?h @ host @ port @ slash
      \<and> host_text host \<and> port_text port \<and> (slash = [] \<or> slash = [47]))"
  then obtain host port slash where len: "length e \<le> 512" and e: "e = ?h @ host @ port @ slash"
    and h: "host_text host" and p: "port_text port" and slash: "slash = [] \<or> slash = [47]" by blast
  let ?a = "host @ port"
  have a: "list_all authority_char ?a" "?a \<noteq> []"
    using host_text_chars [OF h] port_text_chars [OF p] by simp_all
  then have plain: "b < 128 \<and> \<not> is_ascii_control b \<and> b \<notin> {32, 35, 47, 63, 64}" if "b \<in> set ?a" for b
    using that authority_char_plain by (metis list_all_iff)
  then have "strip_slash (?a @ slash) = ?a"
    using a(2) slash strip_slash_iff [of ?a "?a @ slash"] last_in_set [OF a(2)] by blast
  moreover have "list_all (\<lambda>b. b < 128 \<and> \<not> is_ascii_control b \<and> b \<notin> {32, 35, 63, 64}) (?h @ [47])"
    by code_simp
  then have "list_all (\<lambda>b. b < 128 \<and> \<not> is_ascii_control b \<and> b \<notin> {32, 35, 63, 64}) e"
    using plain slash unfolding e by (auto simp: list_all_iff)
  moreover have "47 \<notin> set ?a"
    using plain by blast
  ultimately show "valid_endpoint e"
    using len a(2) h p e strip_prefix_Some [of ?h e "?a @ slash"]
    by (auto simp: valid_endpoint_def Let_def host_port_case MAX_ENDPOINT_BYTES_def is_ascii_def
        list_all_iff list_ex_iff)
qed

end
