(* ===== verification/Node_Log_State.thy ===== *)
theory Node_Log_State
  imports Cell_Identity
begin

text \<open>
  The lifecycle of a node-session durability log, \<^verbatim>\<open>crates/cellule-runtime/src/node/log_state.rs\<close>:
  the recovery claim with its lease and generation, the status record with its validation, every
  operation that produces a successor status, and the two permission tests of the follower.
  A history of a log is a sequence of successful operations (\<open>log_step\<close>), each applied by the
  store's compare-and-swap to the status it was computed from.
\<close>

subsection \<open>Recovery claims\<close>

definition RECOVERY_CLAIM_LIFETIME_MS :: i64 where
  "RECOVERY_CLAIM_LIFETIME_MS = 30000"

definition MAX_NODE_LOG_MEMBERS :: nat where
  "MAX_NODE_LOG_MEMBERS = 2"

datatype node_log_phase = Log_Open | Log_Recovering | Log_Sealed | Log_Retired

record node_recovery_claim =
  cl_claimant :: session_id
  cl_generation :: u64
  cl_expires_at_ms :: i64

definition claim_validate :: "node_recovery_claim \<Rightarrow> unit result" where
  "claim_validate c = reject_if
     (all_zero (session_bytes (cl_claimant c)) \<or> cl_generation c = 0 \<or> cl_expires_at_ms c < 0)
     (Node ''node recovery claim is invalid'')"

definition claim_from_parts :: "session_id \<Rightarrow> u64 \<Rightarrow> i64 \<Rightarrow> node_recovery_claim result" where
  "claim_from_parts claimant generation expires =
     (let c = \<lparr>cl_claimant = claimant, cl_generation = generation, cl_expires_at_ms = expires\<rparr>
      in bind_r (claim_validate c) (\<lambda>_. Inr c))"

definition claim_new :: "session_id \<Rightarrow> u64 \<Rightarrow> i64 \<Rightarrow> node_recovery_claim result" where
  "claim_new claimant generation now =
     bind_r (ok_or (Node ''node recovery claim time overflow'')
       (i64_checked_add now RECOVERY_CLAIM_LIFETIME_MS)) (\<lambda>expires.
     let c = \<lparr>cl_claimant = claimant, cl_generation = generation, cl_expires_at_ms = expires\<rparr>
     in bind_r (claim_validate c) (\<lambda>_. Inr c))"

definition claim_renew ::
  "node_recovery_claim \<Rightarrow> session_id \<Rightarrow> i64 \<Rightarrow> node_recovery_claim result" where
  "claim_renew c claimant now =
     (if cl_claimant c \<noteq> claimant \<or> now \<ge> cl_expires_at_ms c then Inl Fenced else
      bind_r (claim_new claimant (cl_generation c) now) (\<lambda>renewed.
      if cl_expires_at_ms renewed \<le> cl_expires_at_ms c
      then Inl (Node ''node recovery claim expiry did not advance'') else Inr renewed))"

definition claim_take_over ::
  "node_recovery_claim \<Rightarrow> session_id \<Rightarrow> i64 \<Rightarrow> node_recovery_claim result" where
  "claim_take_over c claimant now =
     (if now < cl_expires_at_ms c then Inl (Node ''node recovery is already claimed'') else
      bind_r (ok_or (Node ''node recovery claim generation overflow'')
        (checked_add (cl_generation c) 1)) (\<lambda>generation.
      claim_new claimant generation now))"

subsection \<open>Log status\<close>

record node_log_status =
  nl_phase :: node_log_phase
  nl_epoch :: u64
  nl_members :: "node_id list"
  nl_active :: bool
  nl_tiered_through :: u64
  nl_recovery :: "node_recovery_claim option"
  nl_recovery_manifest :: "digest option"

definition ensemble_invalid :: "node_id \<Rightarrow> node_log_status \<Rightarrow> bool" where
  "ensemble_invalid leader s \<longleftrightarrow> nl_epoch s = 0 \<or> nl_members s = []
     \<or> length (nl_members s) > MAX_NODE_LOG_MEMBERS
     \<or> leader \<in> set (nl_members s)
     \<or> list_ex (\<lambda>m. all_zero (node_bytes m)) (nl_members s)
     \<or> \<not> successively (<) (map node_bytes (nl_members s))"

definition log_validate :: "node_id \<Rightarrow> node_log_status \<Rightarrow> unit result" where
  "log_validate leader s =
     (if ensemble_invalid leader s then Inl (Node ''node log ensemble is invalid'') else
      case (nl_phase s, nl_recovery s, nl_recovery_manifest s) of
        (Log_Open, None, None) \<Rightarrow> Inr ()
      | (Log_Recovering, Some claim, None) \<Rightarrow> claim_validate claim
      | (Log_Sealed, None, manifest) \<Rightarrow>
          reject_if (case manifest of None \<Rightarrow> False | Some d \<Rightarrow> all_zero (digest_bytes d))
            (Node ''node recovery manifest digest is zero'')
      | (Log_Retired, None, manifest) \<Rightarrow>
          reject_if (case manifest of None \<Rightarrow> False | Some d \<Rightarrow> all_zero (digest_bytes d))
            (Node ''node recovery manifest digest is zero'')
      | _ \<Rightarrow> Inl (Node ''node log state is invalid''))"

definition log_from_parts ::
  "node_id \<Rightarrow> node_log_phase \<Rightarrow> u64 \<Rightarrow> node_id list \<Rightarrow> bool \<Rightarrow> u64 \<Rightarrow> node_recovery_claim option
     \<Rightarrow> digest option \<Rightarrow> node_log_status result" where
  "log_from_parts leader phase epoch members active tiered claim manifest =
     (let s = \<lparr>nl_phase = phase, nl_epoch = epoch, nl_members = members, nl_active = active,
               nl_tiered_through = tiered, nl_recovery = claim, nl_recovery_manifest = manifest\<rparr>
      in bind_r (log_validate leader s) (\<lambda>_. Inr s))"

definition log_open :: "node_id \<Rightarrow> u64 \<Rightarrow> node_id list \<Rightarrow> node_log_status result" where
  "log_open leader epoch members = log_from_parts leader Log_Open epoch members False 0 None None"

definition log_activate :: "node_log_status \<Rightarrow> node_id \<Rightarrow> node_log_status result" where
  "log_activate s leader =
     (if nl_phase s \<noteq> Log_Open \<or> nl_active s then Inl (Node ''node log cannot be activated'') else
      log_from_parts leader (nl_phase s) (nl_epoch s) (nl_members s) True (nl_tiered_through s)
        None None)"

definition advance_tiered :: "node_log_status \<Rightarrow> node_id \<Rightarrow> u64 \<Rightarrow> node_log_status result" where
  "advance_tiered s leader through =
     (if nl_phase s \<noteq> Log_Open \<or> through < nl_tiered_through s
      then Inl (Node ''node log object coverage regressed'') else
      log_from_parts leader (nl_phase s) (nl_epoch s) (nl_members s) (nl_active s) through None None)"

definition begin_recovery ::
  "node_log_status \<Rightarrow> node_id \<Rightarrow> session_id \<Rightarrow> i64 \<Rightarrow> node_log_status result" where
  "begin_recovery s leader claimant now =
     (case (nl_phase s, nl_recovery s) of
        (Log_Open, None) \<Rightarrow> bind_r (claim_new claimant 1 now) (\<lambda>claim.
          log_from_parts leader Log_Recovering (nl_epoch s) (nl_members s) (nl_active s)
            (nl_tiered_through s) (Some claim) None)
      | (Log_Recovering, Some current) \<Rightarrow>
          if cl_claimant current = claimant then
            if now < cl_expires_at_ms current then Inr s else
            bind_r (claim_take_over current claimant now) (\<lambda>claim.
            log_from_parts leader Log_Recovering (nl_epoch s) (nl_members s) (nl_active s)
              (nl_tiered_through s) (Some claim) None)
          else
            bind_r (claim_take_over current claimant now) (\<lambda>claim.
            log_from_parts leader Log_Recovering (nl_epoch s) (nl_members s) (nl_active s)
              (nl_tiered_through s) (Some claim) None)
      | _ \<Rightarrow> Inl (Node ''node log cannot enter recovery''))"

definition renew_recovery ::
  "node_log_status \<Rightarrow> node_id \<Rightarrow> session_id \<Rightarrow> u64 \<Rightarrow> i64 \<Rightarrow> node_log_status result" where
  "renew_recovery s leader claimant generation now =
     bind_r (ok_or Fenced (case nl_recovery s of None \<Rightarrow> None
       | Some claim \<Rightarrow> if cl_generation claim = generation then Some claim else None)) (\<lambda>current.
     bind_r (claim_renew current claimant now) (\<lambda>claim.
     log_from_parts leader Log_Recovering (nl_epoch s) (nl_members s) (nl_active s)
       (nl_tiered_through s) (Some claim) None))"

definition seal_recovery ::
  "node_log_status \<Rightarrow> node_id \<Rightarrow> session_id \<Rightarrow> u64 \<Rightarrow> digest option \<Rightarrow> node_log_status result" where
  "seal_recovery s leader claimant generation manifest =
     bind_r (ok_or Fenced (nl_recovery s)) (\<lambda>current.
     if nl_phase s \<noteq> Log_Recovering \<or> cl_claimant current \<noteq> claimant
        \<or> cl_generation current \<noteq> generation then Inl Fenced else
     log_from_parts leader Log_Sealed (nl_epoch s) (nl_members s) (nl_active s)
       (nl_tiered_through s) None manifest)"

definition retire_recovered :: "node_log_status \<Rightarrow> node_id \<Rightarrow> node_log_status result" where
  "retire_recovered s leader =
     bind_r (log_validate leader s) (\<lambda>_.
     if nl_phase s \<notin> {Log_Sealed, Log_Retired} then Inl Fenced else
     log_from_parts leader Log_Retired (nl_epoch s) (nl_members s) (nl_active s)
       (nl_tiered_through s) None (nl_recovery_manifest s))"

definition permits_append ::
  "node_log_status \<Rightarrow> node_id \<Rightarrow> node_id \<Rightarrow> u64 \<Rightarrow> unit result" where
  "permits_append s leader member epoch =
     bind_r (log_validate leader s) (\<lambda>_. reject_if
       (nl_phase s \<noteq> Log_Open \<or> nl_epoch s \<noteq> epoch \<or> member \<notin> set (nl_members s))
       (PeerAuthorization ''node-log append is outside the enrolled ensemble''))"

definition permits_recovery_read ::
  "node_log_status \<Rightarrow> node_id \<Rightarrow> session_id \<Rightarrow> node_id \<Rightarrow> u64 \<Rightarrow> i64 \<Rightarrow> unit result" where
  "permits_recovery_read s leader claimant member epoch now =
     bind_r (log_validate leader s) (\<lambda>_.
     bind_r (ok_or (PeerAuthorization ''node-log recovery is not claimed'') (nl_recovery s)) (\<lambda>claim.
     reject_if
       (nl_phase s \<noteq> Log_Recovering \<or> nl_epoch s \<noteq> epoch \<or> cl_claimant claim \<noteq> claimant
        \<or> cl_expires_at_ms claim \<le> now \<or> member \<notin> set (nl_members s))
       (PeerAuthorization ''node-log recovery claim or member differs'')))"

subsection \<open>Histories\<close>

datatype log_op =
    Do_activate
  | Do_advance_tiered u64
  | Do_begin_recovery session_id i64
  | Do_renew_recovery session_id u64 i64
  | Do_seal_recovery session_id u64 "digest option"
  | Do_retire_recovered

fun log_apply :: "node_id \<Rightarrow> node_log_status \<Rightarrow> log_op \<Rightarrow> node_log_status result" where
  "log_apply leader s Do_activate = log_activate s leader"
| "log_apply leader s (Do_advance_tiered n) = advance_tiered s leader n"
| "log_apply leader s (Do_begin_recovery w now) = begin_recovery s leader w now"
| "log_apply leader s (Do_renew_recovery w g now) = renew_recovery s leader w g now"
| "log_apply leader s (Do_seal_recovery w g m) = seal_recovery s leader w g m"
| "log_apply leader s Do_retire_recovered = retire_recovered s leader"

inductive log_step :: "node_id \<Rightarrow> node_log_status \<Rightarrow> node_log_status \<Rightarrow> bool" where
  apply_op: "log_apply leader s op = Inr t \<Longrightarrow> log_step leader s t"

inductive_cases log_stepE: "log_step leader s t"

definition log_valid :: "node_id \<Rightarrow> node_log_status \<Rightarrow> bool" where
  "log_valid leader s \<longleftrightarrow> log_validate leader s = Inr ()"

fun phase_rank :: "node_log_phase \<Rightarrow> nat" where
  "phase_rank Log_Open = 0"
| "phase_rank Log_Recovering = 1"
| "phase_rank Log_Sealed = 2"
| "phase_rank Log_Retired = 3"

text \<open>
  The order of a log's life. The ensemble and epoch are fixed; the phase only moves forward; object
  coverage never regresses and is frozen once recovery starts; the recovery manifest is frozen
  once sealed; a claim is superseded only by one of a higher generation or by its own renewal.
\<close>

definition claim_le :: "node_recovery_claim \<Rightarrow> node_recovery_claim \<Rightarrow> bool" where
  "claim_le c d \<longleftrightarrow> cl_generation c < cl_generation d
     \<or> cl_generation c = cl_generation d \<and> cl_claimant c = cl_claimant d
       \<and> cl_expires_at_ms c \<le> cl_expires_at_ms d"

definition claims_le :: "node_log_status \<Rightarrow> node_log_status \<Rightarrow> bool" where
  "claims_le s t = (case (nl_recovery s, nl_recovery t) of
       (Some c, Some d) \<Rightarrow> claim_le c d
     | (Some c, None) \<Rightarrow> 2 \<le> phase_rank (nl_phase t)
     | (None, Some d) \<Rightarrow> nl_phase s = Log_Open
     | (None, None) \<Rightarrow> True)"

definition life_le :: "node_log_status \<Rightarrow> node_log_status \<Rightarrow> bool" where
  "life_le s t \<longleftrightarrow> nl_epoch t = nl_epoch s \<and> nl_members t = nl_members s
     \<and> phase_rank (nl_phase s) \<le> phase_rank (nl_phase t)
     \<and> nl_tiered_through s \<le> nl_tiered_through t \<and> (nl_active s \<longrightarrow> nl_active t)
     \<and> (nl_phase s \<noteq> Log_Open \<longrightarrow> nl_tiered_through t = nl_tiered_through s)
     \<and> (2 \<le> phase_rank (nl_phase s) \<longrightarrow> nl_recovery_manifest t = nl_recovery_manifest s)"

definition log_le :: "node_id \<Rightarrow> node_log_status \<Rightarrow> node_log_status \<Rightarrow> bool" where
  "log_le leader s t \<longleftrightarrow> (log_valid leader s \<longrightarrow> log_valid leader t \<and> life_le s t \<and> claims_le s t)"

lemma log_from_parts_Inr:
  "log_from_parts leader ph e ms a n cl m = Inr t \<longleftrightarrow>
     t = \<lparr>nl_phase = ph, nl_epoch = e, nl_members = ms, nl_active = a, nl_tiered_through = n,
          nl_recovery = cl, nl_recovery_manifest = m\<rparr> \<and> log_valid leader t"
  by (auto simp: log_from_parts_def log_valid_def bind_r_Inr Let_def)

lemma claim_new_Inr:
  "claim_new w g now = Inr c \<longleftrightarrow> cl_claimant c = w \<and> cl_generation c = g
     \<and> cl_expires_at_ms c = now + RECOVERY_CLAIM_LIFETIME_MS \<and> is_i64 (cl_expires_at_ms c)
     \<and> claim_validate c = Inr ()"
  by (cases c) (auto simp: claim_new_def rust_simps Let_def i64_checked_add_def split: if_splits)

lemma claim_renew_Inr:
  "claim_renew c w now = Inr d \<longleftrightarrow> w = cl_claimant c \<and> now < cl_expires_at_ms c
     \<and> claim_new w (cl_generation c) now = Inr d \<and> cl_expires_at_ms c < cl_expires_at_ms d"
  by (cases "claim_new w (cl_generation c) now") (auto simp: claim_renew_def)

lemma claim_take_over_Inr:
  "claim_take_over c w now = Inr d \<longleftrightarrow> cl_expires_at_ms c \<le> now
     \<and> unat (cl_generation d) = Suc (unat (cl_generation c))
     \<and> claim_new w (cl_generation d) now = Inr d"
  by (auto simp: claim_take_over_def rust_simps claim_new_Inr split: if_splits)

lemma log_valid_phase:
  "log_valid leader s \<Longrightarrow> (nl_phase s = Log_Recovering \<longleftrightarrow> nl_recovery s \<noteq> None)
     \<and> (phase_rank (nl_phase s) < 2 \<longrightarrow> nl_recovery_manifest s = None)"
  by (auto simp: log_valid_def log_validate_def split: if_splits option.splits node_log_phase.splits)

lemma claim_le_take_over: "claim_take_over c w now = Inr d \<Longrightarrow> claim_le c d"
  by (simp add: claim_take_over_Inr claim_le_def word_less_nat_alt)

lemma claim_le_renew: "claim_renew c w now = Inr d \<Longrightarrow> claim_le c d"
  by (auto simp: claim_renew_Inr claim_new_Inr claim_le_def)

lemmas log_ops = log_activate_def advance_tiered_def begin_recovery_def renew_recovery_def
  seal_recovery_def retire_recovered_def

lemma op_log_le:
  assumes "log_apply leader s op = Inr t" and "log_valid leader s"
  shows "log_valid leader t \<and> life_le s t \<and> claims_le s t"
  using assms log_valid_phase [OF assms(2)]
  by (cases op) (auto simp: log_ops log_from_parts_Inr bind_r_Inr ok_or_Inr life_le_def claims_le_def
      claim_le_def [where c = c and d = c for c] not_less
      dest: claim_le_take_over claim_le_renew
      split: if_splits option.splits node_log_phase.splits)

interpretation log_life: ratchet "log_step leader" "log_le leader" for leader
proof
  show "log_le leader s s" for s
    by (auto simp: log_le_def life_le_def claims_le_def claim_le_def split: option.splits)
  show "log_le leader s u" if "log_le leader s t" "log_le leader t u" for s t u
    using that by (cases "nl_phase s"; cases "nl_phase t"; cases "nl_recovery s"; cases "nl_recovery t";
        cases "nl_recovery u") (auto simp: log_le_def life_le_def claims_le_def claim_le_def)
  show "log_le leader s t" if "log_step leader s t" for s t
    using that op_log_le by (auto simp: log_le_def elim: log_stepE)
qed

subsection \<open>Properties\<close>

definition sample_log :: node_log_status where
  "sample_log = \<lparr>nl_phase = Log_Recovering, nl_epoch = 1,
     nl_members = [NodeId (replicate 16 2), NodeId (replicate 16 3)], nl_active = True,
     nl_tiered_through = 4, nl_recovery = Some \<lparr>cl_claimant = SessionId (replicate 16 8),
       cl_generation = 1, cl_expires_at_ms = 100\<rparr>, nl_recovery_manifest = None\<rparr>"

definition sample_log_taken :: node_log_status where
  "sample_log_taken = sample_log\<lparr>nl_recovery := Some \<lparr>cl_claimant = SessionId (replicate 16 9),
     cl_generation = 2, cl_expires_at_ms = 30200\<rparr>\<rparr>"

lemma sample_log_step:
  "log_validate (NodeId (replicate 16 1)) sample_log = Inr ()"
  "log_step (NodeId (replicate 16 1)) sample_log sample_log_taken"
proof -
  show "log_validate (NodeId (replicate 16 1)) sample_log = Inr ()"
    by code_simp
  show "log_step (NodeId (replicate 16 1)) sample_log sample_log_taken"
    by (rule apply_op [of _ _ "Do_begin_recovery (SessionId (replicate 16 9)) 200"]) code_simp
qed

text \<open>
  C18: The life of a node log only moves forward. Along every history of a valid status, the status
  stays valid; its epoch and follower ensemble are fixed; its phase follows open, recovering,
  sealed, retired; object coverage never regresses and is frozen once recovery has begun; the
  recovery manifest is frozen once the log is sealed.
\<close>

theorem node_log_life_forward:
  assumes "(log_step leader)\<^sup>*\<^sup>* s t" and "log_validate leader s = Inr ()"
  shows "log_validate leader t = Inr () \<and> nl_epoch t = nl_epoch s \<and> nl_members t = nl_members s
    \<and> phase_rank (nl_phase s) \<le> phase_rank (nl_phase t)
    \<and> nl_tiered_through s \<le> nl_tiered_through t
    \<and> (nl_phase s = Log_Open \<or> nl_tiered_through t = nl_tiered_through s)
    \<and> (phase_rank (nl_phase s) < 2 \<or> nl_recovery_manifest t = nl_recovery_manifest s)"
  using log_life.run_le [OF assms(1)] assms(2)
  by (auto simp: log_le_def life_le_def log_valid_def not_less)

theorem node_log_life_forward_witness:
  "log_validate (NodeId (replicate 16 1)) sample_log_taken = Inr ()
   \<and> nl_tiered_through sample_log \<le> nl_tiered_through sample_log_taken"
  using node_log_life_forward [OF r_into_rtranclp [where r = "log_step l" for l,
      OF sample_log_step(2)] sample_log_step(1)] by blast

text \<open>
  C19: No append after recovery begins. Once a valid log has left the open phase, no status on any
  later history permits an append, whatever leader, member and epoch the request names.
\<close>

theorem no_append_after_recovery:
  assumes "(log_step leader)\<^sup>*\<^sup>* s t" and "log_validate leader s = Inr ()" and "nl_phase s \<noteq> Log_Open"
  shows "permits_append t l m e \<noteq> Inr ()"
proof -
  have "0 < phase_rank (nl_phase s)"
    using assms(3) by (cases "nl_phase s") auto
  then have "nl_phase t \<noteq> Log_Open"
    using log_life.run_le [OF assms(1)] assms(2)
    by (auto simp: log_le_def life_le_def log_valid_def)
  then show ?thesis
    by (auto simp: permits_append_def rust_simps)
qed

theorem no_append_after_recovery_witness:
  "permits_append sample_log_taken (NodeId (replicate 16 1)) (NodeId (replicate 16 2)) 1 \<noteq> Inr ()"
  using no_append_after_recovery [OF r_into_rtranclp [where r = "log_step l" for l,
      OF sample_log_step(2)] sample_log_step(1)]
  by (simp add: sample_log_def)

text \<open>
  C20: A stale recovery claim is fenced. Once a session has held a recovery claim on a valid log,
  then at every later point either the log's claim still is that session's of the same
  generation, or both renewing and sealing with the old generation fail with \<open>Fenced\<close>.
\<close>

theorem stale_claim_is_fenced:
  assumes "(log_step leader)\<^sup>*\<^sup>* s t" and "log_validate leader s = Inr ()" and "nl_recovery s = Some c"
  shows "(\<exists>d. nl_recovery t = Some d \<and> cl_claimant d = cl_claimant c
        \<and> cl_generation d = cl_generation c)
    \<or> renew_recovery t leader (cl_claimant c) (cl_generation c) now = Inl Fenced
      \<and> seal_recovery t leader (cl_claimant c) (cl_generation c) manifest = Inl Fenced"
proof (cases "nl_recovery t")
  case None
  then show ?thesis
    by (simp add: renew_recovery_def seal_recovery_def)
next
  case (Some d)
  then have "claim_le c d"
    using log_life.run_le [OF assms(1)] assms(2,3)
    by (simp add: log_le_def claims_le_def log_valid_def)
  then show ?thesis
    using Some by (auto simp: renew_recovery_def seal_recovery_def claim_le_def)
qed

theorem stale_claim_is_fenced_witness:
  "seal_recovery sample_log_taken (NodeId (replicate 16 1)) (SessionId (replicate 16 8)) 1 None
     = Inl Fenced"
  using stale_claim_is_fenced [OF r_into_rtranclp [where r = "log_step l" for l,
      OF sample_log_step(2)] sample_log_step(1), of
      "\<lparr>cl_claimant = SessionId (replicate 16 8), cl_generation = 1, cl_expires_at_ms = 100\<rparr>"
      0 None]
  by (simp add: sample_log_def sample_log_taken_def)

text \<open>
  C21: A live claim cannot be taken. Beginning recovery at a time before the current claim
  expires succeeds only for the claim's own holder and changes nothing; at or after the expiry it
  installs a claim of exactly the next generation, expiring one lifetime later.
\<close>

theorem live_claim_not_taken:
  assumes "begin_recovery s leader w now = Inr t" and "nl_recovery s = Some c"
  shows "if now < cl_expires_at_ms c then w = cl_claimant c \<and> t = s
    else (\<exists>d. nl_recovery t = Some d \<and> cl_claimant d = w
        \<and> unat (cl_generation d) = unat (cl_generation c) + 1
        \<and> cl_expires_at_ms d = now + RECOVERY_CLAIM_LIFETIME_MS)"
  using assms by (auto simp: begin_recovery_def bind_r_Inr claim_take_over_Inr claim_new_Inr
      log_from_parts_Inr split: if_splits node_log_phase.splits)

theorem live_claim_not_taken_witness:
  "\<exists>d. nl_recovery sample_log_taken = Some d \<and> unat (cl_generation d) = 2"
proof -
  have "begin_recovery sample_log (NodeId (replicate 16 1)) (SessionId (replicate 16 9)) 200
      = Inr sample_log_taken"
    by code_simp
  then show ?thesis
    using live_claim_not_taken [of sample_log "NodeId (replicate 16 1)"
        "SessionId (replicate 16 9)" 200 sample_log_taken]
    by (auto simp: sample_log_def)
qed

end
