(* ===== verification/Advertisement_Codec.thy ===== *)
theory Advertisement_Codec
  imports Peer_Endpoint Node_Log_State
begin

text \<open>
  The node advertisement and its raw JSON form, \<^verbatim>\<open>crates/cellule-runtime/src/node/advertisement/codec.rs\<close>
  with the record of \<^verbatim>\<open>node/advertisement/mod.rs\<close> and the bundle head of \<^verbatim>\<open>node/bundle/mod.rs\<close>:
  the raw records whose counters and identities are text, and the conversions in both directions.
  Each part of a raw record converts exactly as a \<open>field_codec\<close> or through its own inversion
  lemma; the advertisement itself is readable from its raw form exactly when it is well-formed.
\<close>

subsection \<open>Records\<close>

record node_bundle_head =
  bh_epoch :: u64
  bh_digest :: digest
  bh_selected_through :: u64

definition bundle_validate :: "node_bundle_head \<Rightarrow> unit result" where
  "bundle_validate b = reject_if (bh_epoch b = 0 \<or> all_zero (digest_bytes (bh_digest b)))
     (Node ''invalid node bundle head'')"

record node_advertisement =
  na_node :: node_id
  na_session :: session_id
  na_endpoint :: rstring
  na_fleet :: digest
  na_certificate :: digest
  na_image :: digest
  na_release :: digest
  na_public_key :: bytes
  na_generation :: u64
  na_progress :: u64
  na_issued_at_ms :: i64
  na_expires_at_ms :: i64
  na_module_digests :: "digest list"
  na_peer_versions :: "u32 list"
  na_failure_domain :: node_failure_domain
  na_capacity :: node_capacity
  na_log :: "node_log_status option"
  na_bundle :: "node_bundle_head option"
  na_signature :: bytes
  na_placement_version :: u32
  na_placement_signature :: bytes
  na_placement :: "node_placement_capacity option"
  na_operational_sample :: "node_operational_sample option"

record raw_unsigned_identity =
  ru_node :: rstring
  ru_session :: rstring
  ru_endpoint :: rstring
  ru_fleet :: rstring
  ru_certificate :: rstring
  ru_image :: rstring
  ru_release :: rstring
  ru_public_key :: rstring
  ru_module_digests :: "rstring list"
  ru_peer_versions :: "u32 list"
  ru_zone :: "rstring option"
  ru_host :: "rstring option"

record raw_lease =
  rl_generation :: rstring
  rl_progress :: rstring
  rl_issued_at_ms :: rstring
  rl_expires_at_ms :: rstring

record raw_capacity =
  rq_free_memory_bytes :: rstring
  rq_free_disk_bytes :: rstring
  rq_follower_free_bytes :: rstring
  rq_follower_retained_bytes :: rstring
  rq_job_credits :: u32
  rq_log_protocol :: u32

record raw_placement_capacity =
  rp_memory_capacity_bytes :: rstring
  rp_disk_capacity_bytes :: rstring
  rp_active_cells :: u32
  rp_max_active_cells :: u32
  rp_running_jobs :: u32
  rp_job_capacity :: u32
  rp_publication_backlog :: "u32 option"
  rp_hydration_backlog :: "u32 option"
  rp_primitive_backlog :: "u32 option"

record raw_operational_sample =
  rs_mode :: node_mode
  rs_pressure :: node_pressure
  rs_sequence :: rstring
  rs_observed_at_ms :: rstring

record raw_node_recovery_claim =
  rk_claimant :: rstring
  rk_generation :: rstring
  rk_expires_at_ms :: rstring

record raw_node_log =
  rn_state :: node_log_phase
  rn_epoch :: rstring
  rn_members :: "rstring list"
  rn_active :: bool
  rn_tiered_through :: rstring
  rn_recovery :: "raw_node_recovery_claim option"
  rn_recovery_manifest :: "rstring option"

record raw_node_bundle_head =
  rh_epoch :: rstring
  rh_digest :: rstring
  rh_selected_through :: rstring

record raw_advertisement =
  ra_version :: u8
  ra_identity :: raw_unsigned_identity
  ra_signature :: rstring
  ra_lease :: raw_lease
  ra_log :: "raw_node_log option"
  ra_bundle :: "raw_node_bundle_head option"
  ra_capacity :: raw_capacity
  ra_placement :: "raw_placement_capacity option"
  ra_placement_version :: "u32 option"
  ra_placement_signature :: "rstring option"
  ra_operational_sample :: "raw_operational_sample option"

record raw_node_signing_payload =
  rg_identity :: raw_unsigned_identity
  rg_capacity :: raw_capacity

definition PLACEMENT_SCHEMA_VERSION :: u32 where
  "PLACEMENT_SCHEMA_VERSION = 2"

definition OPERATIONAL_PLACEMENT_SCHEMA_VERSION :: u32 where
  "OPERATIONAL_PLACEMENT_SCHEMA_VERSION = 3"

subsection \<open>Fields\<close>

definition node_decode_hex :: "nat \<Rightarrow> rstring \<Rightarrow> bytes result" where
  "node_decode_hex n value =
     (if length value \<noteq> n * 2 then Inl (Node ''hex field length is invalid'')
      else case decode_pairs value of Inl _ \<Rightarrow> Inl (Node ''hex field is not lowercase'')
        | Inr bs \<Rightarrow> Inr bs)"

definition canonical_u64 :: "rstring \<Rightarrow> u64 result" where
  "canonical_u64 v = bind_r (ok_or (Node ''invalid unsigned decimal'') (parse_u64 v)) (\<lambda>n.
     if u64_to_string n \<noteq> v then Inl (Node ''unsigned decimal is not canonical'') else Inr n)"

definition canonical_i64 :: "rstring \<Rightarrow> i64 result" where
  "canonical_i64 v = bind_r (ok_or (Node ''invalid signed decimal'') (parse_i64 v)) (\<lambda>n.
     if i64_to_string n \<noteq> v then Inl (Node ''signed decimal is not canonical'') else Inr n)"

subsection \<open>Writing\<close>

definition raw_identity_from :: "node_advertisement \<Rightarrow> raw_unsigned_identity" where
  "raw_identity_from a = \<lparr>ru_node = encode_hex (node_bytes (na_node a)),
     ru_session = encode_hex (session_bytes (na_session a)), ru_endpoint = na_endpoint a,
     ru_fleet = encode_hex (digest_bytes (na_fleet a)),
     ru_certificate = encode_hex (digest_bytes (na_certificate a)),
     ru_image = encode_hex (digest_bytes (na_image a)),
     ru_release = encode_hex (digest_bytes (na_release a)),
     ru_public_key = encode_hex (na_public_key a),
     ru_module_digests = map (\<lambda>d. encode_hex (digest_bytes d)) (na_module_digests a),
     ru_peer_versions = na_peer_versions a,
     ru_zone = fd_zone (na_failure_domain a), ru_host = fd_host (na_failure_domain a)\<rparr>"

definition raw_capacity_from :: "node_capacity \<Rightarrow> raw_capacity" where
  "raw_capacity_from c = \<lparr>rq_free_memory_bytes = u64_to_string (nc_free_memory_bytes c),
     rq_free_disk_bytes = u64_to_string (nc_free_disk_bytes c),
     rq_follower_free_bytes = u64_to_string (nc_follower_free_bytes c),
     rq_follower_retained_bytes = u64_to_string (nc_follower_retained_bytes c),
     rq_job_credits = nc_job_credits c, rq_log_protocol = nc_log_protocol c\<rparr>"

definition raw_lease_from :: "node_advertisement \<Rightarrow> raw_lease" where
  "raw_lease_from a = \<lparr>rl_generation = u64_to_string (na_generation a),
     rl_progress = u64_to_string (na_progress a), rl_issued_at_ms = i64_to_string (na_issued_at_ms a),
     rl_expires_at_ms = i64_to_string (na_expires_at_ms a)\<rparr>"

definition raw_placement_from :: "u32 \<Rightarrow> node_placement_capacity \<Rightarrow> raw_placement_capacity" where
  "raw_placement_from version p =
     (let backlog = (\<lambda>n. if version \<ge> PLACEMENT_SCHEMA_VERSION then Some n else None)
      in \<lparr>rp_memory_capacity_bytes = u64_to_string (npc_memory_capacity_bytes p),
          rp_disk_capacity_bytes = u64_to_string (npc_disk_capacity_bytes p),
          rp_active_cells = npc_active_cells p, rp_max_active_cells = npc_max_active_cells p,
          rp_running_jobs = npc_running_jobs p, rp_job_capacity = npc_job_capacity p,
          rp_publication_backlog = backlog (npc_publication_backlog p),
          rp_hydration_backlog = backlog (npc_hydration_backlog p),
          rp_primitive_backlog = backlog (npc_primitive_backlog p)\<rparr>)"

definition raw_sample_from :: "node_operational_sample \<Rightarrow> raw_operational_sample" where
  "raw_sample_from s = \<lparr>rs_mode = os_mode s, rs_pressure = os_pressure s,
     rs_sequence = u64_to_string (os_sequence s),
     rs_observed_at_ms = i64_to_string (os_observed_at_ms s)\<rparr>"

definition raw_claim_from :: "node_recovery_claim \<Rightarrow> raw_node_recovery_claim" where
  "raw_claim_from c = \<lparr>rk_claimant = encode_hex (session_bytes (cl_claimant c)),
     rk_generation = u64_to_string (cl_generation c),
     rk_expires_at_ms = i64_to_string (cl_expires_at_ms c)\<rparr>"

definition encode_log :: "node_log_status \<Rightarrow> raw_node_log" where
  "encode_log l = \<lparr>rn_state = nl_phase l, rn_epoch = u64_to_string (nl_epoch l),
     rn_members = map (\<lambda>m. encode_hex (node_bytes m)) (nl_members l), rn_active = nl_active l,
     rn_tiered_through = u64_to_string (nl_tiered_through l),
     rn_recovery = map_option raw_claim_from (nl_recovery l),
     rn_recovery_manifest = map_option (\<lambda>d. encode_hex (digest_bytes d)) (nl_recovery_manifest l)\<rparr>"

definition raw_bundle_from :: "node_bundle_head \<Rightarrow> raw_node_bundle_head" where
  "raw_bundle_from b = \<lparr>rh_epoch = u64_to_string (bh_epoch b),
     rh_digest = encode_hex (digest_bytes (bh_digest b)),
     rh_selected_through = u64_to_string (bh_selected_through b)\<rparr>"

definition raw_advertisement_from :: "node_advertisement \<Rightarrow> raw_advertisement" where
  "raw_advertisement_from a = \<lparr>ra_version = (if na_bundle a \<noteq> None then 2 else 1),
     ra_identity = raw_identity_from a, ra_signature = encode_hex (na_signature a),
     ra_lease = raw_lease_from a, ra_log = map_option encode_log (na_log a),
     ra_bundle = map_option raw_bundle_from (na_bundle a),
     ra_capacity = raw_capacity_from (na_capacity a),
     ra_placement = map_option (raw_placement_from (na_placement_version a)) (na_placement a),
     ra_placement_version =
       (if na_placement_version a \<noteq> 0 then Some (na_placement_version a) else None),
     ra_placement_signature = (if list_ex (\<lambda>b. b \<noteq> 0) (na_placement_signature a)
       then Some (encode_hex (na_placement_signature a)) else None),
     ra_operational_sample = map_option raw_sample_from (na_operational_sample a)\<rparr>"

subsection \<open>Reading\<close>

definition bundle_try_from :: "raw_node_bundle_head \<Rightarrow> node_bundle_head result" where
  "bundle_try_from r =
     bind_r (canonical_u64 (rh_epoch r)) (\<lambda>epoch.
     bind_r (node_decode_hex 32 (rh_digest r)) (\<lambda>digest.
     bind_r (canonical_u64 (rh_selected_through r)) (\<lambda>through.
     let head = \<lparr>bh_epoch = epoch, bh_digest = Digest digest, bh_selected_through = through\<rparr>
     in bind_r (bundle_validate head) (\<lambda>_. Inr head))))"

definition claim_try_from :: "raw_node_recovery_claim \<Rightarrow> node_recovery_claim result" where
  "claim_try_from r =
     bind_r (node_decode_hex 16 (rk_claimant r)) (\<lambda>claimant.
     bind_r (canonical_u64 (rk_generation r)) (\<lambda>generation.
     bind_r (canonical_i64 (rk_expires_at_ms r)) (\<lambda>expires.
     claim_from_parts (SessionId claimant) generation expires)))"

definition decode_node_id :: "rstring \<Rightarrow> node_id result" where
  "decode_node_id v = bind_r (node_decode_hex 16 v) (\<lambda>bs. Inr (NodeId bs))"

definition decode_digest :: "rstring \<Rightarrow> digest result" where
  "decode_digest v = bind_r (node_decode_hex 32 v) (\<lambda>bs. Inr (Digest bs))"

definition decode_log :: "node_id \<Rightarrow> raw_node_log \<Rightarrow> node_log_status result" where
  "decode_log leader raw =
     bind_r (transpose_opt claim_try_from (rn_recovery raw)) (\<lambda>claim.
     bind_r (canonical_u64 (rn_epoch raw)) (\<lambda>epoch.
     bind_r (map_r decode_node_id (rn_members raw)) (\<lambda>members.
     bind_r (canonical_u64 (rn_tiered_through raw)) (\<lambda>tiered.
     bind_r (transpose_opt decode_digest (rn_recovery_manifest raw)) (\<lambda>manifest.
     log_from_parts leader (rn_state raw) epoch members (rn_active raw) tiered claim manifest)))))"

definition capacity_try_from :: "raw_capacity \<Rightarrow> node_capacity result" where
  "capacity_try_from r =
     bind_r (canonical_u64 (rq_free_memory_bytes r)) (\<lambda>memory.
     bind_r (canonical_u64 (rq_free_disk_bytes r)) (\<lambda>disk.
     bind_r (canonical_u64 (rq_follower_free_bytes r)) (\<lambda>free.
     bind_r (canonical_u64 (rq_follower_retained_bytes r)) (\<lambda>retained.
     Inr \<lparr>nc_free_memory_bytes = memory, nc_free_disk_bytes = disk, nc_follower_free_bytes = free,
          nc_follower_retained_bytes = retained, nc_job_credits = rq_job_credits r,
          nc_log_protocol = rq_log_protocol r\<rparr>))))"

definition unwrap_or_0 :: "u32 option \<Rightarrow> u32" where
  "unwrap_or_0 x = (case x of None \<Rightarrow> 0 | Some n \<Rightarrow> n)"

definition placement_try_from :: "raw_placement_capacity \<Rightarrow> node_placement_capacity result" where
  "placement_try_from r =
     bind_r (canonical_u64 (rp_memory_capacity_bytes r)) (\<lambda>memory.
     bind_r (canonical_u64 (rp_disk_capacity_bytes r)) (\<lambda>disk.
     placement_validated \<lparr>npc_memory_capacity_bytes = memory, npc_disk_capacity_bytes = disk,
       npc_active_cells = rp_active_cells r, npc_max_active_cells = rp_max_active_cells r,
       npc_running_jobs = rp_running_jobs r, npc_job_capacity = rp_job_capacity r,
       npc_publication_backlog = unwrap_or_0 (rp_publication_backlog r),
       npc_hydration_backlog = unwrap_or_0 (rp_hydration_backlog r),
       npc_primitive_backlog = unwrap_or_0 (rp_primitive_backlog r)\<rparr>))"

definition sample_try_from :: "raw_operational_sample \<Rightarrow> node_operational_sample result" where
  "sample_try_from r =
     bind_r (canonical_u64 (rs_sequence r)) (\<lambda>sequence.
     bind_r (canonical_i64 (rs_observed_at_ms r)) (\<lambda>observed.
     operational_validated \<lparr>os_mode = rs_mode r, os_pressure = rs_pressure r,
       os_sequence = sequence, os_observed_at_ms = observed\<rparr>))"

text \<open>The fields are read in the order of the source's initialiser.\<close>

definition advertisement_try_from :: "raw_advertisement \<Rightarrow> node_advertisement result" where
  "advertisement_try_from v =
     (if ra_version v \<noteq> (if ra_bundle v \<noteq> None then 2 else 1)
      then Inl (Node ''unsupported advertisement version'') else
     let raw = ra_identity v in
     bind_r (node_decode_hex 16 (ru_session raw)) (\<lambda>session.
     bind_r (decode_node_id (ru_node raw)) (\<lambda>node.
     bind_r (transpose_opt bundle_try_from (ra_bundle v)) (\<lambda>bundle.
     bind_r (decode_digest (ru_fleet raw)) (\<lambda>fleet.
     bind_r (decode_digest (ru_certificate raw)) (\<lambda>certificate.
     bind_r (decode_digest (ru_image raw)) (\<lambda>image.
     bind_r (decode_digest (ru_release raw)) (\<lambda>release.
     bind_r (node_decode_hex 32 (ru_public_key raw)) (\<lambda>public_key.
     bind_r (canonical_u64 (rl_generation (ra_lease v))) (\<lambda>generation.
     bind_r (canonical_u64 (rl_progress (ra_lease v))) (\<lambda>progress.
     bind_r (canonical_i64 (rl_issued_at_ms (ra_lease v))) (\<lambda>issued.
     bind_r (canonical_i64 (rl_expires_at_ms (ra_lease v))) (\<lambda>expires.
     bind_r (map_r decode_digest (ru_module_digests raw)) (\<lambda>modules.
     bind_r (failure_domain_new (ru_zone raw) (ru_host raw)) (\<lambda>domain.
     bind_r (capacity_try_from (ra_capacity v)) (\<lambda>capacity.
     bind_r (transpose_opt placement_try_from (ra_placement v)) (\<lambda>placement.
     bind_r (transpose_opt (decode_log node) (ra_log v)) (\<lambda>log.
     bind_r (node_decode_hex 64 (ra_signature v)) (\<lambda>signature.
     bind_r (transpose_opt (node_decode_hex 64) (ra_placement_signature v)) (\<lambda>placement_signature.
     bind_r (transpose_opt sample_try_from (ra_operational_sample v)) (\<lambda>sample.
     Inr \<lparr>na_node = node, na_session = SessionId session, na_endpoint = ru_endpoint raw,
          na_fleet = fleet, na_certificate = certificate, na_image = image, na_release = release,
          na_public_key = public_key, na_generation = generation, na_progress = progress,
          na_issued_at_ms = issued, na_expires_at_ms = expires, na_module_digests = modules,
          na_peer_versions = ru_peer_versions raw, na_failure_domain = domain,
          na_capacity = capacity, na_log = log, na_bundle = bundle, na_signature = signature,
          na_placement_version = unwrap_or_0 (ra_placement_version v),
          na_placement_signature = (case placement_signature of None \<Rightarrow> replicate 64 0 | Some s \<Rightarrow> s),
          na_placement = placement, na_operational_sample = sample\<rparr>)))))))))))))))))))))"

subsection \<open>Reading back what was written\<close>

text \<open>
  A field codec whose texts are injective reads a written value back as that value and no other.
  \<open>reads\<close> names this fact for a pair of conversions, and lifts to options and lists.
\<close>

locale exact_codec = field_codec put get ok for put :: "'a \<Rightarrow> 'b" and get ok +
  assumes put_inj: "put x = put y \<Longrightarrow> x = y"
begin

lemma reads: "get (put x) = Inr y \<longleftrightarrow> y = x \<and> ok x"
  using get_sound put_inj get_put by blast

end

definition reads_back :: "('a \<Rightarrow> 'b) \<Rightarrow> ('b \<Rightarrow> 'a result) \<Rightarrow> ('a \<Rightarrow> bool) \<Rightarrow> bool" where
  "reads_back put get ok \<longleftrightarrow> (\<forall>x y. get (put x) = Inr y \<longleftrightarrow> y = x \<and> ok x)"

lemma reads_backD: "reads_back put get ok \<Longrightarrow> get (put x) = Inr y \<longleftrightarrow> y = x \<and> ok x"
  by (simp add: reads_back_def)

lemma reads_backI: "(\<And>x y. get (put x) = Inr y \<longleftrightarrow> y = x \<and> ok x) \<Longrightarrow> reads_back put get ok"
  by (simp add: reads_back_def)

lemma reads_back_option:
  "reads_back put get ok \<Longrightarrow> transpose_opt get (map_option put x) = Inr y \<longleftrightarrow> y = x \<and> pred_option ok x"
  by (cases x; cases y) (auto simp: reads_back_def rust_simps)

lemma reads_back_list:
  assumes "reads_back put get ok"
  shows "map_r get (map put xs) = Inr ys \<longleftrightarrow> ys = xs \<and> list_all ok xs"
  unfolding map_r_Inr
proof (induction xs arbitrary: ys)
  case (Cons x xs)
  show ?case
    using Cons.IH [of "tl ys"] assms by (cases ys) (auto simp: reads_back_def)
qed auto

lemma node_decode_hex_Inr: "node_decode_hex n s = Inr bs \<longleftrightarrow> s = encode_hex bs \<and> length bs = n"
  using decode_hex_Inr [of n s bs]
  by (auto simp: node_decode_hex_def decode_hex_def split: sum.splits if_splits)

interpretation node_hex: exact_codec encode_hex "node_decode_hex n" "\<lambda>bs. length bs = n" for n
  by unfold_locales (auto simp: node_decode_hex_Inr dest: encode_hex_inj)

lemma digits_inj: "digits m = digits n \<Longrightarrow> m = n"
  by (metis option.inject parse_digits_round)

lemma digits_not_minus: "digits n \<noteq> 45 # s" "45 # s \<noteq> digits n"
proof -
  show "digits n \<noteq> 45 # s"
    using digits_no_sign [of n] by auto
  then show "45 # s \<noteq> digits n"
    by metis
qed

lemma i64_to_string_inj: "i64_to_string x = i64_to_string y \<Longrightarrow> x = y"
  by (auto simp: i64_to_string_def digits_not_minus dest!: digits_inj split: if_splits)

interpretation node_u64: exact_codec u64_to_string canonical_u64 "\<lambda>_. True"
proof
  show "canonical_u64 (u64_to_string x) = Inr x" for x
    using digits_no_sign [of "unat x"] unat_bound [of x]
    by (simp add: canonical_u64_def parse_u64_def u64_to_string_def parse_digits_round)
qed (auto simp: canonical_u64_def rust_simps u64_to_string_def word_unat_eq_iff dest: digits_inj
    split: if_splits)

interpretation node_i64: exact_codec i64_to_string canonical_i64 is_i64
proof
  show "canonical_i64 (i64_to_string x) = Inr x" if "is_i64 x" for x
    using that digits_no_sign [of "nat x"]
    by (auto simp: canonical_i64_def parse_i64_def i64_to_string_def parse_digits_round)
qed (auto simp: canonical_i64_def rust_simps parse_i64_range dest: i64_to_string_inj split: if_splits)

lemmas reads_simps = node_hex.reads node_u64.reads node_i64.reads bind_r_Inr

definition node_wf :: "node_id \<Rightarrow> bool" where
  "node_wf n \<longleftrightarrow> length (node_bytes n) = 16"

definition digest_wf :: "digest \<Rightarrow> bool" where
  "digest_wf d \<longleftrightarrow> length (digest_bytes d) = 32"

lemma reads_node: "reads_back (\<lambda>n. encode_hex (node_bytes n)) decode_node_id node_wf"
  by (auto simp: reads_back_def decode_node_id_def reads_simps node_wf_def)

lemma reads_digest: "reads_back (\<lambda>d. encode_hex (digest_bytes d)) decode_digest digest_wf"
  by (auto simp: reads_back_def decode_digest_def reads_simps digest_wf_def)

definition bundle_wf :: "node_bundle_head \<Rightarrow> bool" where
  "bundle_wf b \<longleftrightarrow> digest_wf (bh_digest b) \<and> bundle_validate b = Inr ()"

lemma reads_bundle: "reads_back raw_bundle_from bundle_try_from bundle_wf"
proof (rule reads_backI)
  show "bundle_try_from (raw_bundle_from x) = Inr y \<longleftrightarrow> y = x \<and> bundle_wf x" for x y
    by (cases x) (auto simp: bundle_try_from_def raw_bundle_from_def reads_simps bundle_wf_def
      digest_wf_def Let_def)
qed

definition claim_wf :: "node_recovery_claim \<Rightarrow> bool" where
  "claim_wf c \<longleftrightarrow> length (session_bytes (cl_claimant c)) = 16 \<and> is_i64 (cl_expires_at_ms c)
     \<and> claim_validate c = Inr ()"

lemma reads_claim: "reads_back raw_claim_from claim_try_from claim_wf"
proof (rule reads_backI)
  show "claim_try_from (raw_claim_from x) = Inr y \<longleftrightarrow> y = x \<and> claim_wf x" for x y
    by (cases x) (auto simp: claim_try_from_def raw_claim_from_def reads_simps claim_wf_def
      claim_from_parts_def Let_def)
qed

definition log_wf :: "node_id \<Rightarrow> node_log_status \<Rightarrow> bool" where
  "log_wf leader l \<longleftrightarrow> pred_option claim_wf (nl_recovery l) \<and> list_all node_wf (nl_members l)
     \<and> pred_option digest_wf (nl_recovery_manifest l) \<and> log_validate leader l = Inr ()"

lemma reads_log: "reads_back encode_log (decode_log leader) (log_wf leader)"
proof (rule reads_backI)
  show "decode_log leader (encode_log x) = Inr y \<longleftrightarrow> y = x \<and> log_wf leader x" for x y
    by (cases x) (auto simp: decode_log_def encode_log_def reads_simps log_wf_def
      reads_back_option [OF reads_claim] reads_back_list [OF reads_node]
      reads_back_option [OF reads_digest] log_from_parts_def Let_def)
qed

lemma reads_capacity: "reads_back raw_capacity_from capacity_try_from (\<lambda>_. True)"
proof (rule reads_backI)
  show "capacity_try_from (raw_capacity_from x) = Inr y \<longleftrightarrow> y = x \<and> True" for x y
    by (cases x) (auto simp: capacity_try_from_def raw_capacity_from_def reads_simps)
qed

definition placement_wf :: "u32 \<Rightarrow> node_placement_capacity \<Rightarrow> bool" where
  "placement_wf version p \<longleftrightarrow> placement_validated p = Inr p
     \<and> (version < PLACEMENT_SCHEMA_VERSION \<longrightarrow> npc_publication_backlog p = 0
          \<and> npc_hydration_backlog p = 0 \<and> npc_primitive_backlog p = 0)"

definition sample_wf :: "node_operational_sample \<Rightarrow> bool" where
  "sample_wf s \<longleftrightarrow> is_i64 (os_observed_at_ms s) \<and> operational_validated s = Inr s"

lemma reads_sample: "reads_back raw_sample_from sample_try_from sample_wf"
proof (rule reads_backI)
  show "sample_try_from (raw_sample_from x) = Inr y \<longleftrightarrow> y = x \<and> sample_wf x" for x y
    by (cases x) (auto simp: sample_try_from_def raw_sample_from_def reads_simps sample_wf_def
      operational_validated_Inr)
qed

lemma placement_reads:
  "placement_try_from (raw_placement_from version p) = Inr p \<longleftrightarrow> placement_wf version p"
  by (cases p) (auto simp: placement_try_from_def raw_placement_from_def reads_simps placement_wf_def
      placement_validated_Inr unwrap_or_0_def not_le Let_def)

lemma placement_option_reads:
  "transpose_opt placement_try_from (map_option (raw_placement_from version) p) = Inr p
     \<longleftrightarrow> pred_option (placement_wf version) p"
  by (cases p) (auto simp: rust_simps placement_reads)

definition advertisement_wf :: "node_advertisement \<Rightarrow> bool" where
  "advertisement_wf a \<longleftrightarrow> node_wf (na_node a) \<and> length (session_bytes (na_session a)) = 16
     \<and> digest_wf (na_fleet a) \<and> digest_wf (na_certificate a) \<and> digest_wf (na_image a)
     \<and> digest_wf (na_release a) \<and> length (na_public_key a) = 32
     \<and> is_i64 (na_issued_at_ms a) \<and> is_i64 (na_expires_at_ms a)
     \<and> list_all digest_wf (na_module_digests a)
     \<and> failure_domain_validate (na_failure_domain a) = Inr ()
     \<and> pred_option (log_wf (na_node a)) (na_log a) \<and> pred_option bundle_wf (na_bundle a)
     \<and> length (na_signature a) = 64 \<and> length (na_placement_signature a) = 64
     \<and> pred_option (placement_wf (na_placement_version a)) (na_placement a)
     \<and> pred_option sample_wf (na_operational_sample a)"

lemma zero_or_some:
  "list_ex (\<lambda>b. b \<noteq> 0) s \<or> s = replicate (length s) (0 :: u8)"
  by (induction s) auto

lemma placement_signature_reads:
  "(\<exists>x. transpose_opt (node_decode_hex 64)
        (if list_ex (\<lambda>b. b \<noteq> 0) s then Some (encode_hex s) else None) = Inr x
      \<and> (case x of None \<Rightarrow> replicate 64 0 | Some t \<Rightarrow> t) = s) \<longleftrightarrow> length s = 64"
proof (cases "list_ex (\<lambda>b. b \<noteq> 0) s")
  case True
  have "transpose_opt (node_decode_hex 64) (Some (encode_hex s)) = Inr x \<longleftrightarrow> x = Some s \<and> length s = 64" for x
    by (cases x) (auto simp: rust_simps node_hex.reads)
  then show ?thesis
    using True by auto
next
  case False
  then have "s = replicate (length s) 0"
    using zero_or_some by metis
  then have "replicate 64 0 = s \<longleftrightarrow> length s = 64"
    by (metis length_replicate)
  then show ?thesis
    using False by simp
qed

lemma failure_domain_reads:
  "failure_domain_new (fd_zone d) (fd_host d) = Inr e \<longleftrightarrow> e = d \<and> failure_domain_validate d = Inr ()"
  by (cases d) (auto simp: failure_domain_new_Inr)

lemma placement_version_reads: "unwrap_or_0 None = 0" "unwrap_or_0 (Some v) = v"
  by (simp_all add: unwrap_or_0_def)

lemmas advertisement_reads = reads_simps reads_backD [OF reads_node] reads_backD [OF reads_digest]
  reads_backD [OF reads_capacity] reads_back_option [OF reads_bundle] reads_back_option [OF reads_log]
  reads_back_option [OF reads_sample] reads_back_list [OF reads_digest] failure_domain_reads
  placement_version_reads

text \<open>An advertisement is read back from its raw form exactly when it is well-formed.\<close>

lemma advertisement_reads_back:
  "advertisement_try_from (raw_advertisement_from a) = Inr a \<longleftrightarrow> advertisement_wf a"
proof -
  let ?p = "transpose_opt placement_try_from
    (map_option (raw_placement_from (na_placement_version a)) (na_placement a))"
  let ?s = "transpose_opt (node_decode_hex 64) (if list_ex (\<lambda>b. b \<noteq> 0) (na_placement_signature a)
    then Some (encode_hex (na_placement_signature a)) else None)"
  have "advertisement_try_from (raw_advertisement_from a) = Inr a \<longleftrightarrow>
      ?p = Inr (na_placement a)
      \<and> (\<exists>x. ?s = Inr x \<and> (case x of None \<Rightarrow> replicate 64 0 | Some t \<Rightarrow> t) = na_placement_signature a)
      \<and> node_wf (na_node a) \<and> length (session_bytes (na_session a)) = 16
      \<and> digest_wf (na_fleet a) \<and> digest_wf (na_certificate a) \<and> digest_wf (na_image a)
      \<and> digest_wf (na_release a) \<and> length (na_public_key a) = 32
      \<and> is_i64 (na_issued_at_ms a) \<and> is_i64 (na_expires_at_ms a)
      \<and> list_all digest_wf (na_module_digests a)
      \<and> failure_domain_validate (na_failure_domain a) = Inr ()
      \<and> pred_option (log_wf (na_node a)) (na_log a) \<and> pred_option bundle_wf (na_bundle a)
      \<and> length (na_signature a) = 64 \<and> pred_option sample_wf (na_operational_sample a)"
    by (cases a) (auto simp: advertisement_try_from_def raw_advertisement_from_def raw_identity_from_def
        raw_lease_from_def Let_def advertisement_reads)
  then show ?thesis
    unfolding placement_option_reads placement_signature_reads advertisement_wf_def by blast
qed

end
