(* ===== verification/Node_Admission.thy ===== *)
theory Node_Admission
  imports Node_Capacity
begin

text \<open>
  The node's role admission gate, \<^verbatim>\<open>crates/cellule-runtime/src/fleet/admission/mod.rs\<close>: the state behind
  the lock, every operation on it, and the sample it publishes. Each operation takes the lock once,
  so a run of a node is a sequence of these operations; poisoning of the lock, which follows a
  panic, is not part of the model. The gate is studied along whole runs: its sequence number
  identifies the state a sample was taken in, and a closed gate stays closed.
\<close>

datatype startup = Unconfigured | Held | Confirmed

record admission_state =
  as_mode :: node_mode
  as_pressure :: node_pressure
  as_sequence :: u64
  as_observed_at_ms :: "i64 option"
  as_startup :: startup

definition effective_mode :: "admission_state \<Rightarrow> node_mode" where
  "effective_mode s = (if as_startup s = Held \<and> as_mode s = Nm_Active then Nm_Cordoned else as_mode s)"

definition admission_default :: admission_state where
  "admission_default = \<lparr>as_mode = Nm_Active, as_pressure = Np_Normal, as_sequence = 0,
     as_observed_at_ms = None, as_startup = Unconfigured\<rparr>"

definition startup_held :: "admission_state \<Rightarrow> bool" where
  "startup_held s \<longleftrightarrow> as_startup s = Held"

definition check_new_role :: "admission_state \<Rightarrow> unit result" where
  "check_new_role s =
     (if effective_mode s \<noteq> Nm_Active then Inl CellDraining
      else if as_pressure s \<noteq> Np_Normal then Inl (Capacity ''node pressure'')
      else Inr ())"

definition next_sequence :: "admission_state \<Rightarrow> u64 result" where
  "next_sequence s = ok_or (Node ''node admission sequence overflow'') (checked_add (as_sequence s) 1)"

definition hold_startup :: "admission_state \<Rightarrow> admission_state result" where
  "hold_startup s =
     (if as_startup s \<noteq> Unconfigured then Inl (Node ''node startup admission already configured'')
      else bind_r (next_sequence s) (\<lambda>n. Inr (s\<lparr>as_startup := Held, as_sequence := n\<rparr>)))"

fun join_mode :: "node_mode \<Rightarrow> node_mode \<Rightarrow> node_mode" where
  "join_mode Nm_Draining m = Nm_Draining"
| "join_mode n Nm_Draining = Nm_Draining"
| "join_mode Nm_Cordoned m = Nm_Cordoned"
| "join_mode n Nm_Cordoned = Nm_Cordoned"
| "join_mode Nm_Active Nm_Active = Nm_Active"

definition confirm_startup :: "admission_state \<Rightarrow> node_mode \<Rightarrow> admission_state result" where
  "confirm_startup s mode =
     (if as_startup s = Unconfigured then Inl (Node ''node startup admission is not configured'')
      else let mode = join_mode (as_mode s) mode in
        if as_startup s = Confirmed \<and> as_mode s = mode then Inr s
        else bind_r (next_sequence s) (\<lambda>n.
          Inr (s\<lparr>as_mode := mode, as_startup := Confirmed, as_sequence := n\<rparr>)))"

definition advance_mode :: "admission_state \<Rightarrow> node_mode \<Rightarrow> admission_state result" where
  "advance_mode s requested =
     (if as_mode s = requested \<or> as_mode s = Nm_Draining then Inr s
      else bind_r (next_sequence s) (\<lambda>n. Inr (s\<lparr>as_mode := requested, as_sequence := n\<rparr>)))"

definition cordon :: "admission_state \<Rightarrow> admission_state result" where
  "cordon s = advance_mode s Nm_Cordoned"

definition admission_begin_drain :: "admission_state \<Rightarrow> admission_state result" where
  "admission_begin_drain s = advance_mode s Nm_Draining"

definition admission_sample :: "admission_state \<Rightarrow> node_operational_sample option" where
  "admission_sample s = map_option (\<lambda>at. \<lparr>os_mode = effective_mode s, os_pressure = as_pressure s,
     os_sequence = as_sequence s, os_observed_at_ms = at\<rparr>) (as_observed_at_ms s)"

definition admission_observe :: "admission_state \<Rightarrow> pressure_state \<Rightarrow> i64 \<Rightarrow> admission_state result" where
  "admission_observe s pressure at =
     bind_r (node_pressure_try_from pressure) (\<lambda>p.
     if at < 0 \<or> (case as_observed_at_ms s of None \<Rightarrow> False | Some previous \<Rightarrow> at < previous)
     then Inl (Node ''node admission sample time regressed'')
     else bind_r (next_sequence s) (\<lambda>n.
       Inr (s\<lparr>as_pressure := p, as_observed_at_ms := Some at, as_sequence := n\<rparr>)))"

definition admit_role :: "admission_state \<Rightarrow> (unit \<Rightarrow> 'a result) \<Rightarrow> 'a result" where
  "admit_role s effect =
     (if effective_mode s \<noteq> Nm_Active then Inl CellDraining
      else if as_pressure s \<noteq> Np_Normal then Inl (Capacity ''node pressure'')
      else effect ())"

text \<open>The runs of a node: its operations in any order; a failed operation leaves the state.\<close>

inductive admission_step :: "admission_state \<Rightarrow> admission_state \<Rightarrow> bool" where
  step_hold: "hold_startup s = Inr t \<Longrightarrow> admission_step s t"
| step_confirm: "confirm_startup s mode = Inr t \<Longrightarrow> admission_step s t"
| step_cordon: "cordon s = Inr t \<Longrightarrow> admission_step s t"
| step_drain: "admission_begin_drain s = Inr t \<Longrightarrow> admission_step s t"
| step_observe: "admission_observe s pressure at = Inr t \<Longrightarrow> admission_step s t"

subsection \<open>What every step keeps\<close>

fun mode_rank :: "node_mode \<Rightarrow> nat" where
  "mode_rank Nm_Active = 0"
| "mode_rank Nm_Cordoned = 1"
| "mode_rank Nm_Draining = 2"

fun startup_rank :: "startup \<Rightarrow> nat" where
  "startup_rank Unconfigured = 0"
| "startup_rank Held = 1"
| "startup_rank Confirmed = 2"

lemma join_mode_rank [simp]: "mode_rank (join_mode a b) = max (mode_rank a) (mode_rank b)"
  by (cases a; cases b) auto

lemma mode_rank_eq [simp]: "mode_rank a = mode_rank b \<longleftrightarrow> a = b"
  by (cases a; cases b) auto

lemma mode_rank_Draining: "mode_rank m \<le> 2"
  by (cases m) auto

text \<open>One step: either nothing changed, or the sequence advanced by one.\<close>

definition admission_le :: "admission_state \<Rightarrow> admission_state \<Rightarrow> bool" where
  "admission_le s t \<longleftrightarrow> (s = t \<or> unat (as_sequence s) < unat (as_sequence t))
     \<and> mode_rank (as_mode s) \<le> mode_rank (as_mode t)
     \<and> startup_rank (as_startup s) \<le> startup_rank (as_startup t)
     \<and> (\<forall>a. as_observed_at_ms s = Some a \<longrightarrow> (\<exists>b. as_observed_at_ms t = Some b \<and> a \<le> b))"

lemma next_sequence_Inr: "next_sequence s = Inr n \<longleftrightarrow> unat n = Suc (unat (as_sequence s))"
  by (auto simp: next_sequence_def rust_simps)

lemmas admission_defs = hold_startup_def confirm_startup_def cordon_def admission_begin_drain_def
  advance_mode_def admission_observe_def

lemma admission_step_le: "admission_step s t \<Longrightarrow> admission_le s t"
proof (induction rule: admission_step.induct)
  case (step_confirm s mode t)
  then show ?case
    by (cases "as_startup s")
      (auto simp: admission_defs admission_le_def Let_def rust_simps next_sequence_Inr split: if_splits)
next
  case (step_cordon s t)
  then show ?case
    by (cases "as_mode s")
      (auto simp: admission_defs admission_le_def rust_simps next_sequence_Inr)
next
  case (step_drain s t)
  then show ?case
    by (cases "as_mode s")
      (auto simp: admission_defs admission_le_def rust_simps next_sequence_Inr)
qed (auto simp: admission_defs admission_le_def rust_simps next_sequence_Inr split: if_splits option.splits)

interpretation admission: ratchet admission_step admission_le
proof
  show "admission_le s u" if "admission_le s t" "admission_le t u" for s t u
    using that unfolding admission_le_def by (fastforce dest: order_trans)
qed (simp_all add: admission_step_le, simp add: admission_le_def)

text \<open>A gate no operation reopens: cordoned or draining for a reason other than the startup hold.\<close>

lemma closed_stays:
  assumes "admission_step\<^sup>*\<^sup>* s t" and "as_mode s \<noteq> Nm_Active"
  shows "mode_rank (effective_mode s) \<le> mode_rank (effective_mode t) \<and> effective_mode t \<noteq> Nm_Active"
proof -
  have "mode_rank (as_mode s) \<le> mode_rank (as_mode t)"
    using admission.run_le [OF assms(1)] by (simp add: admission_le_def)
  then show ?thesis
    using assms(2) by (cases "as_mode s"; cases "as_mode t") (auto simp: effective_mode_def)
qed

lemma admission_observed_nonneg:
  "admission_step\<^sup>*\<^sup>* admission_default s \<Longrightarrow> as_observed_at_ms s = Some at \<Longrightarrow>
     0 \<le> at \<and> as_sequence s \<noteq> 0"
proof (induction arbitrary: at rule: rtranclp_induct)
  case base
  then show ?case by (simp add: admission_default_def)
next
  case (step s t)
  have "admission_le s t"
    using step.hyps by (intro admission_step_le)
  moreover have "0 \<le> at"
    using step.hyps(2) step.prems step.IH
    by cases (auto simp: admission_defs rust_simps Let_def split: if_splits option.splits)
  moreover have "as_sequence t \<noteq> 0"
    using step.hyps(2) step.prems step.IH
    by cases (auto simp: admission_defs rust_simps Let_def next_sequence_Inr split: if_splits)
  ultimately show ?case by simp
qed

text \<open>
  C28: The operational sample has an identity and a closed gate stays closed. Along any run from
  the default state, a published sample is valid; of two states of one run, the later has the
  larger sequence, or the same and then it is the same state, so two samples with one sequence
  number are equal; measurement times never regress; once the node is cordoned or draining
  (confirmation of the startup hold aside) every later role check fails with the draining error
  whatever is measured.
\<close>

theorem admission_sample_identity:
  assumes "admission_step\<^sup>*\<^sup>* admission_default s" and "admission_step\<^sup>*\<^sup>* s t"
  shows "(\<forall>x. admission_sample s = Some x \<longrightarrow> operational_validated x = Inr x)
    \<and> (as_sequence s < as_sequence t \<or> s = t)
    \<and> (\<forall>x y. admission_sample s = Some x \<and> admission_sample t = Some y \<longrightarrow>
         os_observed_at_ms x \<le> os_observed_at_ms y
         \<and> (os_sequence x = os_sequence y \<longrightarrow> x = y))
    \<and> (as_mode s \<noteq> Nm_Active \<longrightarrow>
         check_new_role t = Inl CellDraining \<and> admit_role t effect = Inl CellDraining)"
proof -
  have le: "admission_le s t"
    using admission.run_le [OF assms(2)] .
  moreover have "operational_validated x = Inr x" if "admission_sample s = Some x" for x
    using admission_observed_nonneg [OF assms(1)] that
    by (auto simp: admission_sample_def rust_simps)
  moreover have "check_new_role t = Inl CellDraining \<and> admit_role t effect = Inl CellDraining"
    if "as_mode s \<noteq> Nm_Active"
    using closed_stays [OF assms(2) that] by (simp add: check_new_role_def admit_role_def)
  moreover have "as_sequence s < as_sequence t \<or> s = t"
    using le by (auto simp: admission_le_def word_less_nat_alt)
  moreover have "os_observed_at_ms x \<le> os_observed_at_ms y \<and> (os_sequence x = os_sequence y \<longrightarrow> x = y)"
    if "admission_sample s = Some x" "admission_sample t = Some y" for x y
    using le that by (auto simp: admission_le_def admission_sample_def)
  ultimately show ?thesis
    by blast
qed

theorem admission_sample_identity_witness:
  "\<exists>s t. admission_step\<^sup>*\<^sup>* admission_default s \<and> admission_step\<^sup>*\<^sup>* s t
     \<and> as_mode s = Nm_Cordoned \<and> as_pressure t = Np_Normal
     \<and> check_new_role t = Inl CellDraining \<and> as_sequence s < as_sequence t"
proof -
  let ?d = admission_default
  let ?s = "?d\<lparr>as_mode := Nm_Cordoned, as_sequence := 1\<rparr>"
  let ?t = "?s\<lparr>as_observed_at_ms := Some 5, as_sequence := 2\<rparr>"
  have "cordon ?d = Inr ?s"
    by code_simp
  moreover have "admission_observe ?s Normal 5 = Inr ?t"
    by code_simp
  ultimately have run: "admission_step\<^sup>*\<^sup>* ?d ?s" "admission_step\<^sup>*\<^sup>* ?s ?t"
    by (auto intro: admission_step.intros)
  then show ?thesis
    using admission_sample_identity [OF run, where effect = "\<lambda>_. Inr ()"]
    by (intro exI [of _ ?s] exI [of _ ?t]) (simp add: admission_default_def)
qed

end
