(* ===== verification/Node_Advertisement.thy ===== *)
theory Node_Advertisement
  imports Advertisement_Codec Placement Node_Admission
begin

text \<open>
  Signed node advertisements, \<^verbatim>\<open>crates/cellule-runtime/src/node/advertisement/mod.rs\<close>: shape validation,
  both signatures, the builders, the canonical encoding, the refresh rule, the takeover proofs of a
  fenced session, and the conversion to a placement observation
  (\<^verbatim>\<open>PlacementObservation::from_signed_advertisement\<close> of \<^verbatim>\<open>fleet/placement/mod.rs\<close>). Ed25519 and
  serde_json are third-party crates: the record \<open>boundary\<close> holds their operations, and every
  definition that calls them takes it as an argument.
\<close>

record 'k boundary =
  bd_adv_to_vec :: "raw_advertisement \<Rightarrow> bytes option"
  bd_adv_from_slice :: "bytes \<Rightarrow> raw_advertisement option"
  bd_sign_to_vec :: "raw_node_signing_payload \<Rightarrow> bytes option"
  bd_key_ok :: "bytes \<Rightarrow> bool"
  bd_verify :: "bytes \<Rightarrow> bytes \<Rightarrow> bytes \<Rightarrow> bool"
  bd_public :: "'k \<Rightarrow> bytes"
  bd_sign :: "'k \<Rightarrow> bytes \<Rightarrow> bytes"

definition MAX_NODE_BYTES :: nat where "MAX_NODE_BYTES = 64 * 1024"
definition MAX_MODULES :: nat where "MAX_MODULES = 128"
definition MAX_PEER_VERSIONS :: nat where "MAX_PEER_VERSIONS = 16"
definition MAX_ADVERTISEMENT_LIFETIME_MS :: i64 where "MAX_ADVERTISEMENT_LIFETIME_MS = 30000"
definition MAX_CLOCK_SKEW_MS :: i64 where "MAX_CLOCK_SKEW_MS = 5 * 60000"
definition SIGNING_DOMAIN :: bytes where "SIGNING_DOMAIN = ascii ''crab.node.v1'' @ [0]"
definition PLACEMENT_SIGNING_DOMAIN :: bytes where
  "PLACEMENT_SIGNING_DOMAIN = ascii ''crab.node-placement.v1'' @ [0]"

definition i64_saturating_add :: "i64 \<Rightarrow> i64 \<Rightarrow> i64" where
  "i64_saturating_add a b = max i64_MIN (min i64_MAX (a + b))"

subsection \<open>Shape\<close>

definition bundle_shape :: "node_advertisement \<Rightarrow> unit result" where
  "bundle_shape a = (case na_bundle a of None \<Rightarrow> Inr ()
     | Some bundle \<Rightarrow> bind_r (bundle_validate bundle) (\<lambda>_. reject_if
         (case na_log a of None \<Rightarrow> False | Some log \<Rightarrow> nl_epoch log \<noteq> bh_epoch bundle)
         (Node ''node bundle and native log epochs differ'')))"

definition log_shape :: "node_advertisement \<Rightarrow> unit result" where
  "log_shape a = (case na_log a of None \<Rightarrow> Inr ()
     | Some log \<Rightarrow> bind_r (log_validate (na_node a) log) (\<lambda>_. reject_if
         (nl_phase log \<noteq> Log_Open \<or> nl_recovery log \<noteq> None)
         (Node ''live node advertisement has a terminal log'')))"

definition sample_shape :: "node_advertisement \<Rightarrow> unit result" where
  "sample_shape a =
     (case na_operational_sample a of
        Some sample \<Rightarrow>
          if na_placement_version a = OPERATIONAL_PLACEMENT_SCHEMA_VERSION then
            bind_r (operational_validated sample) (\<lambda>_. reject_if
              (os_observed_at_ms sample > na_issued_at_ms a \<or> na_placement a = None)
              (Node ''operational sample is ahead of its advertisement''))
          else if na_placement_version a \<le> PLACEMENT_SCHEMA_VERSION
          then Inl (Node ''operational sample uses a legacy placement schema'')
          else Inr ()
      | None \<Rightarrow>
          if na_placement_version a = OPERATIONAL_PLACEMENT_SCHEMA_VERSION
          then Inl (Node ''operational placement sample is missing'') else Inr ())"

definition inventory_invalid :: "node_advertisement \<Rightarrow> bool" where
  "inventory_invalid a \<longleftrightarrow> na_module_digests a = [] \<or> length (na_module_digests a) > MAX_MODULES
     \<or> \<not> successively (<) (map digest_bytes (na_module_digests a))
     \<or> na_peer_versions a = [] \<or> length (na_peer_versions a) > MAX_PEER_VERSIONS
     \<or> \<not> successively (<) (na_peer_versions a)
     \<or> list_ex (\<lambda>v. v \<noteq> 1) (na_peer_versions a)"

definition identity_zero :: "node_advertisement \<Rightarrow> bool" where
  "identity_zero a \<longleftrightarrow> all_zero (node_bytes (na_node a)) \<or> all_zero (session_bytes (na_session a))
     \<or> all_zero (digest_bytes (na_fleet a)) \<or> all_zero (digest_bytes (na_certificate a))
     \<or> all_zero (digest_bytes (na_image a)) \<or> all_zero (digest_bytes (na_release a))
     \<or> all_zero (na_public_key a)"

definition lease_invalid :: "node_advertisement \<Rightarrow> bool" where
  "lease_invalid a \<longleftrightarrow> na_generation a = 0 \<or> na_progress a = 0 \<or> na_issued_at_ms a < 0
     \<or> na_expires_at_ms a \<le> na_issued_at_ms a
     \<or> i64_saturating_sub (na_expires_at_ms a) (na_issued_at_ms a) > MAX_ADVERTISEMENT_LIFETIME_MS"

definition follower_capacity_invalid :: "node_advertisement \<Rightarrow> bool" where
  "follower_capacity_invalid a \<longleftrightarrow>
     nc_follower_free_bytes (na_capacity a) > nc_free_disk_bytes (na_capacity a)
     \<or> (nc_log_protocol (na_capacity a) = 0 \<and> nc_follower_free_bytes (na_capacity a) \<noteq> 0)"

definition validate_shape :: "node_advertisement \<Rightarrow> unit result" where
  "validate_shape a =
     bind_r (bundle_shape a) (\<lambda>_.
     bind_r (reject_if (identity_zero a) (Node ''advertisement identity is zero'')) (\<lambda>_.
     bind_r (reject_if (\<not> valid_endpoint (na_endpoint a))
       (Node ''advertisement endpoint is invalid'')) (\<lambda>_.
     bind_r (reject_if (lease_invalid a) (Node ''advertisement progress or time is invalid'')) (\<lambda>_.
     bind_r (log_shape a) (\<lambda>_.
     bind_r (failure_domain_validate (na_failure_domain a)) (\<lambda>_.
     bind_r (reject_if (follower_capacity_invalid a)
       (Node ''advertisement follower capacity is invalid'')) (\<lambda>_.
     bind_r (transpose_opt placement_validated (na_placement a)) (\<lambda>_.
     bind_r (sample_shape a) (\<lambda>_.
     reject_if (inventory_invalid a) (Node ''advertisement inventory is invalid''))))))))))"

definition validate_at :: "node_advertisement \<Rightarrow> i64 \<Rightarrow> unit result" where
  "validate_at a now = bind_r (validate_shape a) (\<lambda>_. reject_if
     (na_issued_at_ms a > i64_saturating_add now MAX_CLOCK_SKEW_MS \<or> na_expires_at_ms a \<le> now)
     (Node ''advertisement is not currently valid''))"

subsection \<open>Signatures\<close>

definition signing_bytes :: "'k boundary \<Rightarrow> node_advertisement \<Rightarrow> bytes result" where
  "signing_bytes bd a =
     bind_r (ok_or Json (bd_sign_to_vec bd \<lparr>rg_identity = raw_identity_from a,
       rg_capacity = raw_capacity_from (na_capacity a)\<rparr>)) (\<lambda>unsigned.
     Inr (SIGNING_DOMAIN @ unsigned))"

definition placement_payload :: "node_advertisement \<Rightarrow> raw_advertisement" where
  "placement_payload a = (let raw = raw_advertisement_from a in
     raw\<lparr>ra_placement_signature := None, ra_log := None, ra_bundle := None, ra_version := 1,
         ra_lease := (ra_lease raw)\<lparr>rl_generation := []\<rparr>\<rparr>)"

definition placement_signing_bytes :: "'k boundary \<Rightarrow> node_advertisement \<Rightarrow> bytes result" where
  "placement_signing_bytes bd a =
     bind_r (ok_or Json (bd_adv_to_vec bd (placement_payload a))) (\<lambda>unsigned.
     Inr (PLACEMENT_SIGNING_DOMAIN @ unsigned))"

definition has_signed_placement :: "node_advertisement \<Rightarrow> bool" where
  "has_signed_placement a \<longleftrightarrow>
     na_placement_version a \<in> {PLACEMENT_SCHEMA_VERSION, OPERATIONAL_PLACEMENT_SCHEMA_VERSION}
     \<and> na_placement a \<noteq> None \<and> list_ex (\<lambda>b. b \<noteq> 0) (na_placement_signature a)"

definition verifying_key :: "'k boundary \<Rightarrow> node_advertisement \<Rightarrow> bytes result" where
  "verifying_key bd a = (if bd_key_ok bd (na_public_key a) then Inr (na_public_key a) else Inl PeerSignature)"

definition verify_with :: "'k boundary \<Rightarrow> bytes \<Rightarrow> bytes \<Rightarrow> bytes \<Rightarrow> unit result" where
  "verify_with bd key message signature = reject_if (\<not> bd_verify bd key message signature) PeerSignature"

definition verify_signature :: "'k boundary \<Rightarrow> node_advertisement \<Rightarrow> unit result" where
  "verify_signature bd a =
     bind_r (verifying_key bd a) (\<lambda>key.
     bind_r (signing_bytes bd a) (\<lambda>message.
     bind_r (verify_with bd key message (na_signature a)) (\<lambda>_.
     if na_placement_version a = 0 then
       reject_if (list_ex (\<lambda>b. b \<noteq> 0) (na_placement_signature a))
         (Node ''legacy placement record carries a signature'')
     else if na_placement_version a \<in> {PLACEMENT_SCHEMA_VERSION, OPERATIONAL_PLACEMENT_SCHEMA_VERSION} then
       bind_r (reject_if (\<not> has_signed_placement a) (Node ''placement signature is missing'')) (\<lambda>_.
       bind_r (verifying_key bd a) (\<lambda>key.
       bind_r (placement_signing_bytes bd a) (\<lambda>message.
       verify_with bd key message (na_placement_signature a))))
     else Inr ())))"

definition verify_placement :: "'k boundary \<Rightarrow> node_advertisement \<Rightarrow> unit result" where
  "verify_placement bd a = bind_r (validate_shape a) (\<lambda>_. verify_signature bd a)"

subsection \<open>Builders\<close>

text \<open>\<^verbatim>\<open>sign\<close> sets the fields it does not take; the argument carries those it takes.\<close>

definition unsigned_advertisement :: "'k boundary \<Rightarrow> node_advertisement \<Rightarrow> 'k \<Rightarrow> node_advertisement" where
  "unsigned_advertisement bd draft key = draft\<lparr>na_public_key := bd_public bd key, na_generation := 1,
     na_log := None, na_bundle := None, na_signature := replicate 64 0, na_placement_version := 0,
     na_placement_signature := replicate 64 0, na_placement := None, na_operational_sample := None\<rparr>"

definition sign_advertisement :: "'k boundary \<Rightarrow> node_advertisement \<Rightarrow> 'k \<Rightarrow> node_advertisement result" where
  "sign_advertisement bd draft key =
     (let a = unsigned_advertisement bd draft key in
      bind_r (validate_shape a) (\<lambda>_.
      bind_r (signing_bytes bd a) (\<lambda>message.
      Inr (a\<lparr>na_signature := bd_sign bd key message\<rparr>))))"

definition with_placement_capacity :: "'k boundary \<Rightarrow> node_advertisement \<Rightarrow> node_placement_capacity
    \<Rightarrow> 'k \<Rightarrow> node_advertisement result" where
  "with_placement_capacity bd a placement key =
     (if bd_public bd key \<noteq> na_public_key a
      then Inl (Node ''placement key differs from the boot-session key'') else
      bind_r (placement_validated placement) (\<lambda>_.
      let a = a\<lparr>na_placement := Some placement, na_placement_version := PLACEMENT_SCHEMA_VERSION,
                na_operational_sample := None\<rparr>
      in bind_r (placement_signing_bytes bd a) (\<lambda>message.
         Inr (a\<lparr>na_placement_signature := bd_sign bd key message\<rparr>))))"

definition with_operational_placement :: "'k boundary \<Rightarrow> node_advertisement \<Rightarrow> node_placement_capacity
    \<Rightarrow> node_operational_sample \<Rightarrow> 'k \<Rightarrow> node_advertisement result" where
  "with_operational_placement bd a placement sample key =
     (if bd_public bd key \<noteq> na_public_key a
      then Inl (Node ''placement key differs from the boot-session key'') else
      bind_r (placement_validated placement) (\<lambda>p.
      bind_r (operational_validated sample) (\<lambda>s.
      let a = a\<lparr>na_placement := Some p, na_operational_sample := Some s,
                na_placement_version := OPERATIONAL_PLACEMENT_SCHEMA_VERSION\<rparr>
      in bind_r (validate_shape a) (\<lambda>_.
         bind_r (placement_signing_bytes bd a) (\<lambda>message.
         Inr (a\<lparr>na_placement_signature := bd_sign bd key message\<rparr>))))))"

definition operational_sample :: "node_advertisement \<Rightarrow> node_operational_sample option" where
  "operational_sample a =
     (if na_placement_version a = OPERATIONAL_PLACEMENT_SCHEMA_VERSION
      then na_operational_sample a else None)"

definition accepts_new_roles :: "node_advertisement \<Rightarrow> i64 \<Rightarrow> bool" where
  "accepts_new_roles a now =
     (if now < na_issued_at_ms a \<or> now \<ge> na_expires_at_ms a
         \<or> na_placement_version a > OPERATIONAL_PLACEMENT_SCHEMA_VERSION
      then False
      else case na_operational_sample a of None \<Rightarrow> True
        | Some sample \<Rightarrow> na_placement_version a = OPERATIONAL_PLACEMENT_SCHEMA_VERSION
            \<and> has_signed_placement a \<and> accepts_roles sample \<and> os_observed_at_ms sample \<le> now
            \<and> i64_saturating_sub now (os_observed_at_ms sample) \<le> MAX_ADVERTISEMENT_LIFETIME_MS)"

subsection \<open>Encoding\<close>

definition canonical_bytes :: "'k boundary \<Rightarrow> node_advertisement \<Rightarrow> bytes result" where
  "canonical_bytes bd a =
     bind_r (ok_or Json (bd_adv_to_vec bd (raw_advertisement_from a))) (\<lambda>bs.
     if length bs > MAX_NODE_BYTES then Inl (Node ''advertisement exceeds 64 KiB'') else Inr bs)"

definition advertisement_encode :: "'k boundary \<Rightarrow> node_advertisement \<Rightarrow> bytes result" where
  "advertisement_encode bd a =
     bind_r (validate_shape a) (\<lambda>_. bind_r (verify_signature bd a) (\<lambda>_. canonical_bytes bd a))"

definition decode_canonical :: "'k boundary \<Rightarrow> bytes \<Rightarrow> node_advertisement result" where
  "decode_canonical bd bs =
     (if length bs > MAX_NODE_BYTES then Inl (Node ''advertisement exceeds 64 KiB'') else
     bind_r (ok_or Json (bd_adv_from_slice bd bs)) (\<lambda>raw.
     bind_r (advertisement_try_from raw) (\<lambda>a.
     bind_r (validate_shape a) (\<lambda>_.
     bind_r (verify_signature bd a) (\<lambda>_.
     bind_r (canonical_bytes bd a) (\<lambda>canonical.
     if canonical \<noteq> bs then Inl (Node ''advertisement JSON is not canonical'') else Inr a))))))"

subsection \<open>Refresh\<close>

definition same_boot_identity :: "node_advertisement \<Rightarrow> node_advertisement \<Rightarrow> bool" where
  "same_boot_identity c n \<longleftrightarrow> na_node c = na_node n \<and> na_session c = na_session n
     \<and> na_endpoint c = na_endpoint n \<and> na_fleet c = na_fleet n \<and> na_certificate c = na_certificate n
     \<and> na_image c = na_image n \<and> na_release c = na_release n \<and> na_public_key c = na_public_key n
     \<and> na_module_digests c = na_module_digests n \<and> na_peer_versions c = na_peer_versions n
     \<and> na_failure_domain c = na_failure_domain n"

definition sample_successor :: "node_advertisement \<Rightarrow> node_advertisement \<Rightarrow> unit result" where
  "sample_successor c n =
     (case na_operational_sample c of None \<Rightarrow> Inr ()
      | Some previous \<Rightarrow> (case na_operational_sample n of
            Some sample \<Rightarrow> reject_if
              (os_sequence sample < os_sequence previous
               \<or> os_observed_at_ms sample < os_observed_at_ms previous
               \<or> (os_sequence sample = os_sequence previous
                  \<and> (sample \<noteq> previous \<or> na_capacity c \<noteq> na_capacity n
                     \<or> na_placement c \<noteq> na_placement n)))
              (Node ''operational sample regressed or changed without a sequence'')
          | None \<Rightarrow> reject_if (\<not> accepts_roles previous)
              (Node ''operational withdrawal would hide closed admission'')))"

definition validate_successor :: "node_advertisement \<Rightarrow> node_advertisement \<Rightarrow> unit result" where
  "validate_successor c n =
     bind_r (sample_successor c n) (\<lambda>_. reject_if
       (\<not> same_boot_identity c n \<or> na_log c \<noteq> na_log n \<or> na_bundle c \<noteq> na_bundle n
        \<or> checked_add (na_generation c) 1 \<noteq> Some (na_generation n)
        \<or> na_progress n < na_progress c \<or> na_issued_at_ms n \<le> na_issued_at_ms c
        \<or> na_expires_at_ms n \<le> na_expires_at_ms c)
       (Node ''advertisement refresh changed boot identity or regressed''))"

subsection \<open>Takeover of a fenced session\<close>

record fenced_node_session =
  fn_node :: node_id
  fn_session :: session_id
  fn_claimant :: session_id
  fn_claim_generation :: u64
  fn_claim_expires_at_ms :: i64
  fn_log :: "node_log_status option"
  fn_bundle :: "node_bundle_head option"

record node_takeover_proof =
  tp_session :: session_id
  tp_claimant :: session_id

record sealed_node_log =
  sl_session :: session_id
  sl_log :: node_log_status

definition direct_takeover :: "fenced_node_session \<Rightarrow> node_takeover_proof result" where
  "direct_takeover f =
     (if (case fn_log f of None \<Rightarrow> False | Some log \<Rightarrow> nl_active log) then Inl PendingPublication
      else Inr \<lparr>tp_session = fn_session f, tp_claimant = fn_claimant f\<rparr>)"

definition after_recovery :: "fenced_node_session \<Rightarrow> sealed_node_log \<Rightarrow> node_takeover_proof result" where
  "after_recovery f sealed =
     bind_r (ok_or Fenced (fn_log f)) (\<lambda>recovering.
     let log = sl_log sealed in
     if sl_session sealed \<noteq> fn_session f
        \<or> nl_phase log \<notin> {Log_Sealed, Log_Retired}
        \<or> nl_epoch log \<noteq> nl_epoch recovering \<or> nl_members log \<noteq> nl_members recovering
        \<or> nl_active log \<noteq> nl_active recovering \<or> nl_tiered_through log \<noteq> nl_tiered_through recovering
     then Inl Fenced
     else Inr \<lparr>tp_session = fn_session f, tp_claimant = fn_claimant f\<rparr>)"

subsection \<open>Placement observation\<close>

fun placement_pressure_of :: "node_pressure \<Rightarrow> placement_pressure" where
  "placement_pressure_of Np_Normal = Pp_Normal"
| "placement_pressure_of Np_Constrained = Pp_Constrained"
| "placement_pressure_of Np_Shedding = Pp_Shedding"
| "placement_pressure_of Np_Critical = Pp_Critical"

definition from_signed_capacity :: "node_advertisement \<Rightarrow> node_placement_capacity \<Rightarrow> node_capacity \<Rightarrow> bool
    \<Rightarrow> placement_observation" where
  "from_signed_capacity a p c owner =
     (let exhausted = (nc_free_memory_bytes c = 0 \<or> nc_free_disk_bytes c = 0)
      in \<lparr>po_node = na_node a, po_session = na_session a,
       po_observed_at_ms = (case operational_sample a of None \<Rightarrow> na_issued_at_ms a
         | Some s \<Rightarrow> os_observed_at_ms s),
       po_memory_capacity_bytes = npc_memory_capacity_bytes p,
       po_free_memory_bytes = nc_free_memory_bytes c,
       po_disk_capacity_bytes = npc_disk_capacity_bytes p, po_free_disk_bytes = nc_free_disk_bytes c,
       po_active_cells = npc_active_cells p, po_max_active_cells = npc_max_active_cells p,
       po_running_jobs = npc_running_jobs p, po_job_capacity = npc_job_capacity p,
       po_publication_backlog = npc_publication_backlog p,
       po_hydration_backlog = npc_hydration_backlog p, po_primitive_backlog = npc_primitive_backlog p,
       po_pressure = (case operational_sample a of
           None \<Rightarrow> if exhausted then Pp_Critical else Pp_Normal
         | Some s \<Rightarrow> placement_pressure_of (os_pressure s)),
       po_draining = (case operational_sample a of None \<Rightarrow> exhausted | Some s \<Rightarrow> os_mode s \<noteq> Nm_Active),
       po_authenticated = True, po_current_owner = owner\<rparr>)"

definition from_signed_advertisement :: "'k boundary \<Rightarrow> node_advertisement \<Rightarrow> i64 \<Rightarrow> bool
    \<Rightarrow> placement_observation result" where
  "from_signed_advertisement bd a now owner =
     bind_r (verify_placement bd a) (\<lambda>_.
     bind_r (ok_or (Node ''placement snapshot is missing'') (na_placement a)) (\<lambda>p.
     if now < 0 \<or> na_expires_at_ms a \<le> now \<or> \<not> has_signed_placement a
     then Inl (Node ''placement advertisement is stale'')
     else Inr (from_signed_capacity a p (na_capacity a) owner)))"

end
