(* ===== verification/Advertisement_Safety.thy ===== *)
theory Advertisement_Safety
  imports Node_Advertisement "HOL-Library.Code_Target_Nat"
begin

text \<open>
  Properties of signed advertisements: the canonical form is unique, a placement signature binds what
  it covers and cannot be taken from an identity signature, and refreshes never regress within one
  published sample series.
\<close>

subsection \<open>Canonical form\<close>

text \<open>
  C33: The canonical form of an advertisement is exact. If the JSON parser reads back what the JSON
  printer wrote, stored bytes decode to an advertisement exactly when it is well-formed and they are
  its encoding: both require a valid shape, a verifying signature and at most 64 KiB, and no second
  text of the same advertisement is accepted.
\<close>

theorem advertisement_codec_exact:
  assumes "\<And>raw bs. bd_adv_to_vec bd raw = Some bs \<Longrightarrow> bd_adv_from_slice bd bs = Some raw"
  shows "decode_canonical bd bs = Inr a \<longleftrightarrow> advertisement_wf a \<and> advertisement_encode bd a = Inr bs"
proof
  assume d: "decode_canonical bd bs = Inr a"
  then obtain raw where raw: "bd_adv_from_slice bd bs = Some raw" "advertisement_try_from raw = Inr a"
    and enc: "advertisement_encode bd a = Inr bs"
    by (auto simp: decode_canonical_def advertisement_encode_def rust_simps split: if_splits)
  then have "bd_adv_to_vec bd (raw_advertisement_from a) = Some bs"
    by (auto simp: advertisement_encode_def canonical_bytes_def rust_simps split: if_splits)
  then have "raw = raw_advertisement_from a"
    using assms raw(1) by fastforce
  then show "advertisement_wf a \<and> advertisement_encode bd a = Inr bs"
    using raw(2) enc by (simp add: advertisement_reads_back)
next
  assume "advertisement_wf a \<and> advertisement_encode bd a = Inr bs"
  then have "advertisement_try_from (raw_advertisement_from a) = Inr a"
    and enc: "advertisement_encode bd a = Inr bs"
    by (simp_all add: advertisement_reads_back)
  moreover from enc have "bd_adv_to_vec bd (raw_advertisement_from a) = Some bs" "length bs \<le> MAX_NODE_BYTES"
      "validate_shape a = Inr ()" "verify_signature bd a = Inr ()" "canonical_bytes bd a = Inr bs"
    by (auto simp: advertisement_encode_def canonical_bytes_def rust_simps split: if_splits)
  ultimately show "decode_canonical bd bs = Inr a"
    using assms by (simp add: decode_canonical_def)
qed

subsection \<open>What a placement signature binds\<close>

text \<open>Two advertisements that agree on everything a placement signature covers.\<close>

definition same_placement :: "node_advertisement \<Rightarrow> node_advertisement \<Rightarrow> bool" where
  "same_placement a b \<longleftrightarrow> na_node a = na_node b \<and> na_session a = na_session b
     \<and> na_endpoint a = na_endpoint b \<and> na_fleet a = na_fleet b \<and> na_certificate a = na_certificate b
     \<and> na_image a = na_image b \<and> na_release a = na_release b \<and> na_public_key a = na_public_key b
     \<and> na_progress a = na_progress b \<and> na_issued_at_ms a = na_issued_at_ms b
     \<and> na_expires_at_ms a = na_expires_at_ms b \<and> na_module_digests a = na_module_digests b
     \<and> na_peer_versions a = na_peer_versions b \<and> na_failure_domain a = na_failure_domain b
     \<and> na_capacity a = na_capacity b \<and> na_signature a = na_signature b
     \<and> na_placement_version a = na_placement_version b \<and> na_placement a = na_placement b
     \<and> na_operational_sample a = na_operational_sample b"

lemma map_inj_eq: "map f xs = map f ys \<Longrightarrow> (\<And>x y. f x = f y \<Longrightarrow> x = y) \<Longrightarrow> xs = ys"
  by (erule map_injective) (rule injI)

lemma map_option_inj_eq: "map_option f x = map_option f y \<Longrightarrow> (\<And>x y. f x = f y \<Longrightarrow> x = y) \<Longrightarrow> x = y"
  by (cases x; cases y) auto

lemma digest_text_inj: "encode_hex (digest_bytes d) = encode_hex (digest_bytes e) \<Longrightarrow> d = e"
  by (auto dest: encode_hex_inj simp: digest.expand)

lemma raw_identity_inj:
  assumes "raw_identity_from a = raw_identity_from b"
  shows "na_node a = na_node b" "na_session a = na_session b" "na_endpoint a = na_endpoint b"
    "na_fleet a = na_fleet b" "na_certificate a = na_certificate b" "na_image a = na_image b"
    "na_release a = na_release b" "na_public_key a = na_public_key b"
    "na_module_digests a = na_module_digests b" "na_peer_versions a = na_peer_versions b"
    "na_failure_domain a = na_failure_domain b"
  using assms by (auto simp: raw_identity_from_def node_id.expand session_id.expand
      node_failure_domain.equality dest: encode_hex_inj digest_text_inj map_inj_eq [OF _ digest_text_inj])

lemma u64_to_string_inj: "u64_to_string m = u64_to_string n \<Longrightarrow> m = n"
  by (rule node_u64.put_inj)

lemma raw_capacity_inj: "raw_capacity_from a = raw_capacity_from b \<Longrightarrow> a = b"
  by (cases a; cases b) (auto simp: raw_capacity_from_def dest: u64_to_string_inj)

lemma raw_sample_inj: "raw_sample_from a = raw_sample_from b \<Longrightarrow> a = b"
  by (cases a; cases b) (auto simp: raw_sample_from_def dest: u64_to_string_inj i64_to_string_inj)

lemma raw_placement_inj:
  "raw_placement_from v a = raw_placement_from v b \<Longrightarrow> PLACEMENT_SCHEMA_VERSION \<le> v \<Longrightarrow> a = b"
  by (cases a; cases b) (auto simp: raw_placement_from_def dest: u64_to_string_inj)

lemma placement_payload_inj:
  assumes eq: "placement_payload a = placement_payload b"
    and "PLACEMENT_SCHEMA_VERSION \<le> na_placement_version a"
  shows "same_placement a b"
proof -
  have v: "na_placement_version a = na_placement_version b"
    using eq by (auto simp: placement_payload_def raw_advertisement_from_def Let_def split: if_splits)
  have id: "raw_identity_from a = raw_identity_from b"
    and cap: "na_capacity a = na_capacity b" and sig: "na_signature a = na_signature b"
    and s: "na_operational_sample a = na_operational_sample b"
    using eq by (auto simp: placement_payload_def raw_advertisement_from_def Let_def
        dest: raw_capacity_inj encode_hex_inj map_option_inj_eq [OF _ raw_sample_inj])
  have lease: "na_progress a = na_progress b" "na_issued_at_ms a = na_issued_at_ms b"
      "na_expires_at_ms a = na_expires_at_ms b"
    using eq by (auto simp: placement_payload_def raw_advertisement_from_def raw_lease_from_def Let_def
        dest: u64_to_string_inj i64_to_string_inj)
  have "map_option (raw_placement_from (na_placement_version a)) (na_placement a)
      = map_option (raw_placement_from (na_placement_version a)) (na_placement b)"
    using eq v by (simp add: placement_payload_def raw_advertisement_from_def Let_def)
  then have "na_placement a = na_placement b"
    using raw_placement_inj [OF _ assms(2)] by (rule map_option_inj_eq)
  then show ?thesis
    using v cap sig s lease raw_identity_inj [OF id] by (simp add: same_placement_def)
qed

text \<open>The two signing domains never overlap.\<close>

lemma domains_apart: "SIGNING_DOMAIN @ x \<noteq> PLACEMENT_SIGNING_DOMAIN @ y"
proof -
  have "take 10 (SIGNING_DOMAIN @ x) \<noteq> take 10 (PLACEMENT_SIGNING_DOMAIN @ y)"
    by (simp add: SIGNING_DOMAIN_def PLACEMENT_SIGNING_DOMAIN_def ascii_def)
  then show ?thesis by metis
qed

subsection \<open>A sample advertisement\<close>

definition sample_capacity :: node_capacity where
  "sample_capacity = \<lparr>nc_free_memory_bytes = 500, nc_free_disk_bytes = 500, nc_follower_free_bytes = 100,
     nc_follower_retained_bytes = 0, nc_job_credits = 4, nc_log_protocol = 2\<rparr>"

definition sample_placement :: node_placement_capacity where
  "sample_placement = \<lparr>npc_memory_capacity_bytes = 1000, npc_disk_capacity_bytes = 1000,
     npc_active_cells = 1, npc_max_active_cells = 10, npc_running_jobs = 0, npc_job_capacity = 4,
     npc_publication_backlog = 0, npc_hydration_backlog = 0, npc_primitive_backlog = 0\<rparr>"

definition sample_operational :: "u64 \<Rightarrow> i64 \<Rightarrow> node_operational_sample" where
  "sample_operational n at = \<lparr>os_mode = Nm_Active, os_pressure = Np_Normal, os_sequence = n,
     os_observed_at_ms = at\<rparr>"

definition sample_advertisement :: "u64 \<Rightarrow> i64 \<Rightarrow> node_advertisement" where
  "sample_advertisement generation at = \<lparr>na_node = NodeId (replicate 16 1),
     na_session = SessionId (replicate 16 2), na_endpoint = ascii ''https://node-1.fleet:7443'',
     na_fleet = Digest (replicate 32 3), na_certificate = Digest (replicate 32 4),
     na_image = Digest (replicate 32 5), na_release = Digest (replicate 32 6),
     na_public_key = replicate 32 7, na_generation = generation, na_progress = 1, na_issued_at_ms = at,
     na_expires_at_ms = at + 1000, na_module_digests = [Digest (replicate 32 8)],
     na_peer_versions = [1], na_failure_domain = \<lparr>fd_zone = Some (ascii ''a''), fd_host = None\<rparr>,
     na_capacity = sample_capacity, na_log = None, na_bundle = None, na_signature = replicate 64 9,
     na_placement_version = 2, na_placement_signature = replicate 64 9,
     na_placement = Some sample_placement, na_operational_sample = None\<rparr>"

definition sample_operational_advertisement :: "u64 \<Rightarrow> i64 \<Rightarrow> u64 \<Rightarrow> node_advertisement" where
  "sample_operational_advertisement generation at n = (sample_advertisement generation at)
     \<lparr>na_placement_version := 3, na_operational_sample := Some (sample_operational n at)\<rparr>"

text \<open>
  A boundary that serialises one advertisement and its placement payload, with a signature scheme
  that meets the law of its parameter: what a key signs verifies under it. Its signatures separate
  the two messages of that advertisement from all others.
\<close>

definition sample_signature :: "bytes \<Rightarrow> bytes" where
  "sample_signature m = replicate 64 (if m \<in> {SIGNING_DOMAIN, PLACEMENT_SIGNING_DOMAIN @ [0x7b]} then 9 else 8)"

definition sample_boundary :: "node_advertisement \<Rightarrow> unit boundary" where
  "sample_boundary a = \<lparr>bd_adv_to_vec = (\<lambda>raw. if raw = raw_advertisement_from a then Some [0x7b, 0x7d]
       else if raw = placement_payload a then Some [0x7b] else None),
     bd_adv_from_slice = (\<lambda>bs. if bs = [0x7b, 0x7d] then Some (raw_advertisement_from a)
       else if bs = [0x7b] then Some (placement_payload a) else None),
     bd_sign_to_vec = (\<lambda>_. Some []), bd_key_ok = (\<lambda>k. k = na_public_key a),
     bd_verify = (\<lambda>k m s. k = na_public_key a \<and> s = sample_signature m),
     bd_public = (\<lambda>_. na_public_key a), bd_sign = (\<lambda>_. sample_signature)\<rparr>"

lemma sample_boundary_signs:
  "bd_verify (sample_boundary a) (bd_public (sample_boundary a) k) m (bd_sign (sample_boundary a) k m)"
  by (simp add: sample_boundary_def)

lemma sample_signature_9:
  "replicate 64 9 = sample_signature m \<longleftrightarrow> m \<in> {SIGNING_DOMAIN, PLACEMENT_SIGNING_DOMAIN @ [0x7b]}"
  by (simp add: sample_signature_def)

lemma payload_not_raw:
  "placement_payload a \<noteq> raw_advertisement_from a"
proof -
  have "rl_generation (ra_lease (placement_payload a)) = []"
    by (simp add: placement_payload_def Let_def)
  moreover have "rl_generation (ra_lease (raw_advertisement_from a)) \<noteq> []"
    using digits_shape by (simp add: raw_advertisement_from_def raw_lease_from_def u64_to_string_def)
  ultimately show ?thesis by metis
qed

lemma sample_boundary_json:
  "bd_adv_to_vec (sample_boundary a) raw = Some bs \<longleftrightarrow>
     raw = raw_advertisement_from a \<and> bs = [0x7b, 0x7d] \<or> raw = placement_payload a \<and> bs = [0x7b]"
  using payload_not_raw [of a] by (auto simp: sample_boundary_def)

lemma sample_shapes:
  "validate_shape (sample_operational_advertisement 3 50 7) = Inr ()"
  "validate_shape (sample_advertisement 4 51) = Inr ()"
  "validate_shape (sample_operational_advertisement 5 52 2) = Inr ()"
  by code_simp+

lemma sample_signing:
  "placement_signing_bytes (sample_boundary a) a = Inr (PLACEMENT_SIGNING_DOMAIN @ [0x7b])"
proof -
  have "bd_adv_to_vec (sample_boundary a) (placement_payload a) = Some [0x7b]"
    by (simp add: sample_boundary_json)
  then show ?thesis
    by (simp add: placement_signing_bytes_def)
qed

lemma sample_verifies:
  assumes "validate_shape a = Inr ()" and "has_signed_placement a"
    and "na_signature a = replicate 64 9" "na_placement_signature a = replicate 64 9"
  shows "verify_placement (sample_boundary a) a = Inr ()"
  using assms sample_signing [of a]
  by (auto simp: verify_placement_def verify_signature_def verifying_key_def verify_with_def
      signing_bytes_def rust_simps sample_boundary_def sample_signature_def has_signed_placement_def
      PLACEMENT_SCHEMA_VERSION_def OPERATIONAL_PLACEMENT_SCHEMA_VERSION_def)

lemma sample_signatures:
  "na_signature (sample_operational_advertisement g at n) = replicate 64 9"
  "na_placement_signature (sample_operational_advertisement g at n) = replicate 64 9"
  by (simp_all add: sample_operational_advertisement_def sample_advertisement_def)

theorem advertisement_codec_exact_witness:
  "let a = sample_operational_advertisement 3 50 7; bd = sample_boundary a in
   decode_canonical bd [0x7b, 0x7d] = Inr a"
proof -
  let ?a = "sample_operational_advertisement 3 50 7"
  let ?bd = "sample_boundary ?a"
  have law: "bd_adv_from_slice ?bd bs = Some raw" if "bd_adv_to_vec ?bd raw = Some bs" for raw bs
    using that unfolding sample_boundary_json by (auto simp: sample_boundary_def)
  have "verify_placement ?bd ?a = Inr ()"
    by (rule sample_verifies [OF sample_shapes(1) _ sample_signatures]) code_simp
  moreover have "bd_adv_to_vec ?bd (raw_advertisement_from ?a) = Some [0x7b, 0x7d]"
    by (simp add: sample_boundary_json)
  ultimately have "advertisement_encode ?bd ?a = Inr [0x7b, 0x7d]"
    by (auto simp: advertisement_encode_def verify_placement_def canonical_bytes_def rust_simps
        MAX_NODE_BYTES_def)
  moreover have "failure_domain_validate \<lparr>fd_zone = Some (ascii ''a''), fd_host = None\<rparr> = Inr ()"
    by code_simp
  then have "advertisement_wf ?a"
    by (simp add: advertisement_wf_def sample_operational_advertisement_def sample_advertisement_def
        node_wf_def digest_wf_def is_i64_def i64_MIN_def i64_MAX_def placement_wf_def sample_wf_def
        sample_placement_def sample_operational_def placement_validated_def operational_validated_def
        PLACEMENT_SCHEMA_VERSION_def)
  ultimately show ?thesis
    using advertisement_codec_exact [of ?bd, OF law] by (simp add: Let_def)
qed

text \<open>
  C34: A placement signature binds what the planner reads. Take an advertisement that verifies as a signed
  placement, and suppose that its placement signature is no forgery of its own message: if it verifies
  for that message under the boot key, then the key's holder signed that message, as the identity or the
  placement message of an advertisement the node issued. Then the advertisement agrees with an issued one
  on its identity, lease times, progress, capacity, placement block and operational sample; an identity
  signature is never accepted in place of a placement signature. Nothing is supposed of other messages or
  signatures. (The generation, the log and the bundle head are the directory's and are not covered.)
\<close>

theorem placement_signature_binds:
  assumes json: "\<And>r s bs. bd_adv_to_vec bd r = Some bs \<Longrightarrow> bd_adv_to_vec bd s = Some bs \<Longrightarrow> r = s"
    and unforged: "\<And>m. placement_signing_bytes bd a = Inr m
      \<Longrightarrow> bd_verify bd (na_public_key a) m (na_placement_signature a)
      \<Longrightarrow> \<exists>b \<in> issued. signing_bytes bd b = Inr m \<or> placement_signing_bytes bd b = Inr m"
    and "verify_placement bd a = Inr ()" and "has_signed_placement a"
  shows "\<exists>b \<in> issued. same_placement a b"
proof -
  have v: "na_placement_version a \<in> {PLACEMENT_SCHEMA_VERSION, OPERATIONAL_PLACEMENT_SCHEMA_VERSION}"
    using assms(4) by (simp add: has_signed_placement_def)
  then have "na_placement_version a \<noteq> 0" and ge: "PLACEMENT_SCHEMA_VERSION \<le> na_placement_version a"
    by (auto simp: PLACEMENT_SCHEMA_VERSION_def OPERATIONAL_PLACEMENT_SCHEMA_VERSION_def)
  then obtain m where m: "placement_signing_bytes bd a = Inr m"
      "bd_verify bd (na_public_key a) m (na_placement_signature a)"
    using assms(3,4) v
    by (auto simp: verify_placement_def verify_signature_def verifying_key_def verify_with_def rust_simps
        split: if_splits)
  obtain u where u: "m = PLACEMENT_SIGNING_DOMAIN @ u" "bd_adv_to_vec bd (placement_payload a) = Some u"
    using m(1) by (auto simp: placement_signing_bytes_def rust_simps)
  obtain b where b: "b \<in> issued" "signing_bytes bd b = Inr m \<or> placement_signing_bytes bd b = Inr m"
    using unforged [OF m] by blast
  moreover have "signing_bytes bd b \<noteq> Inr m"
    using u(1) domains_apart by (auto simp: signing_bytes_def rust_simps)
  ultimately have "bd_adv_to_vec bd (placement_payload b) = Some u"
    using u(1) by (auto simp: placement_signing_bytes_def rust_simps)
  then have "placement_payload a = placement_payload b"
    using json u(2) by blast
  then show ?thesis
    using placement_payload_inj ge b(1) by blast
qed

theorem placement_signature_binds_witness:
  "let a = sample_operational_advertisement 3 50 7; b = a\<lparr>na_generation := 9\<rparr> in
   (\<forall>k m. bd_verify (sample_boundary a) (bd_public (sample_boundary a) k) m (bd_sign (sample_boundary a) k m))
   \<and> verify_placement (sample_boundary a) b = Inr () \<and> same_placement b a"
proof -
  let ?a = "sample_operational_advertisement 3 50 7"
  let ?b = "?a\<lparr>na_generation := 9\<rparr>"
  let ?bd = "sample_boundary ?a"
  have payload: "placement_payload ?b = placement_payload ?a"
    by (simp add: placement_payload_def raw_advertisement_from_def raw_lease_from_def
        raw_identity_from_def Let_def)
  have "validate_shape ?b = Inr ()" and signed: "has_signed_placement ?b"
    by code_simp+
  moreover have "bd_adv_to_vec ?bd (placement_payload ?b) = Some [0x7b]"
    by (simp add: sample_boundary_json payload)
  ultimately have v: "verify_placement ?bd ?b = Inr ()"
    by (auto simp: verify_placement_def verify_signature_def verifying_key_def verify_with_def
        signing_bytes_def placement_signing_bytes_def rust_simps sample_boundary_def sample_signature_9
        sample_signatures has_signed_placement_def PLACEMENT_SCHEMA_VERSION_def OPERATIONAL_PLACEMENT_SCHEMA_VERSION_def)
  have json: "r = s" if "bd_adv_to_vec ?bd r = Some bs" "bd_adv_to_vec ?bd s = Some bs" for r s bs
    using that unfolding sample_boundary_json by auto
  have "placement_signing_bytes ?bd ?a = placement_signing_bytes ?bd ?b"
    by (simp add: placement_signing_bytes_def payload)
  then have "\<exists>c \<in> {?a}. signing_bytes ?bd c = Inr m \<or> placement_signing_bytes ?bd c = Inr m"
    if "placement_signing_bytes ?bd ?b = Inr m" for m
    using that by simp
  then have "\<exists>c \<in> {?a}. same_placement ?b c"
    using placement_signature_binds [of ?bd ?b "{?a}"] json v signed by blast
  then show ?thesis
    using v sample_boundary_signs by (simp add: Let_def)
qed

subsection \<open>Refreshes\<close>

inductive refresh :: "node_advertisement \<Rightarrow> node_advertisement \<Rightarrow> bool" where
  refresh: "validate_successor c n = Inr () \<Longrightarrow> refresh c n"

definition refresh_le :: "node_advertisement \<Rightarrow> node_advertisement \<Rightarrow> bool" where
  "refresh_le c n \<longleftrightarrow> same_boot_identity c n \<and> na_log n = na_log c \<and> na_bundle n = na_bundle c
     \<and> na_progress c \<le> na_progress n
     \<and> (n = c \<or> unat (na_generation c) < unat (na_generation n)
          \<and> na_issued_at_ms c < na_issued_at_ms n \<and> na_expires_at_ms c < na_expires_at_ms n)"

interpretation refreshes: ratchet refresh refresh_le
proof
  show "refresh_le s t" if "refresh s t" for s t
    using that by cases (auto simp: validate_successor_def refresh_le_def rust_simps)
  show "refresh_le s u" if "refresh_le s t" "refresh_le t u" for s t u
    using that by (auto simp: refresh_le_def same_boot_identity_def)
qed (simp add: refresh_le_def same_boot_identity_def)

text \<open>
  C35: Refreshes keep the boot identity and move forward. Along every chain of accepted refreshes the
  boot identity, the log and the bundle head are unchanged, progress never decreases, and generation,
  issue time and expiry strictly increase. One refresh never regresses the operational sample: a
  published sample is followed by a later or the same one, the same one only with the same
  capacity and placement, and a sample that closes admission cannot be withdrawn. The rule compares
  adjacent records only: an open sample may be withdrawn, after which an older sequence is accepted.
\<close>

theorem refresh_moves_forward:
  assumes "refresh\<^sup>*\<^sup>* a b" and "refresh b c"
  shows "same_boot_identity a c \<and> na_log c = na_log a \<and> na_bundle c = na_bundle a
    \<and> na_progress a \<le> na_progress c \<and> na_generation a < na_generation c
    \<and> na_issued_at_ms a < na_issued_at_ms c \<and> na_expires_at_ms a < na_expires_at_ms c
    \<and> (\<forall>s. na_operational_sample b = Some s \<longrightarrow>
         (case na_operational_sample c of None \<Rightarrow> accepts_roles s
          | Some t \<Rightarrow> os_sequence s \<le> os_sequence t \<and> os_observed_at_ms s \<le> os_observed_at_ms t
              \<and> (os_sequence s = os_sequence t \<longrightarrow>
                   t = s \<and> na_capacity c = na_capacity b \<and> na_placement c = na_placement b)))
    \<and> (\<exists>x y z s t. validate_shape x = Inr () \<and> validate_shape y = Inr () \<and> validate_shape z = Inr ()
         \<and> refresh x y \<and> refresh y z \<and> na_operational_sample x = Some s
         \<and> na_operational_sample z = Some t \<and> os_sequence t < os_sequence s)"
proof -
  have le: "refresh_le a b"
    using refreshes.run_le [OF assms(1)] .
  have step: "validate_successor b c = Inr ()"
    using assms(2) by cases
  then have "refresh_le b c" "c \<noteq> b"
    using refreshes.step_le [OF assms(2)] by (auto simp: validate_successor_def rust_simps)
  then have "same_boot_identity a c \<and> na_log c = na_log a \<and> na_bundle c = na_bundle a
    \<and> na_progress a \<le> na_progress c \<and> na_generation a < na_generation c
    \<and> na_issued_at_ms a < na_issued_at_ms c \<and> na_expires_at_ms a < na_expires_at_ms c"
    using le by (auto simp: refresh_le_def same_boot_identity_def word_less_nat_alt)
  moreover have "case na_operational_sample c of None \<Rightarrow> accepts_roles s
      | Some t \<Rightarrow> os_sequence s \<le> os_sequence t \<and> os_observed_at_ms s \<le> os_observed_at_ms t
          \<and> (os_sequence s = os_sequence t \<longrightarrow>
               t = s \<and> na_capacity c = na_capacity b \<and> na_placement c = na_placement b)"
    if "na_operational_sample b = Some s" for s
    using step that
    by (auto simp: validate_successor_def sample_successor_def rust_simps not_less split: option.splits)
  moreover have "refresh (sample_operational_advertisement 3 50 7) (sample_advertisement 4 51)"
      "refresh (sample_advertisement 4 51) (sample_operational_advertisement 5 52 2)"
    by (rule refresh.refresh, code_simp)+
  moreover have "na_operational_sample (sample_operational_advertisement n at k) = Some (sample_operational k at)"
    for n at k by (simp add: sample_operational_advertisement_def)
  moreover have "os_sequence (sample_operational 2 52) < os_sequence (sample_operational 7 50)"
    by (simp add: sample_operational_def)
  ultimately show ?thesis
    using sample_shapes by blast
qed

theorem refresh_moves_forward_witness:
  "\<exists>a c. refresh a c \<and> na_generation a < na_generation c \<and> same_boot_identity a c"
proof -
  have "refresh (sample_operational_advertisement 3 50 7) (sample_advertisement 4 51)"
    by (rule refresh.refresh) code_simp
  then show ?thesis
    using refresh_moves_forward [of "sample_operational_advertisement 3 50 7", OF rtranclp.rtrancl_refl]
    by blast
qed

end
