(* ===== verification/Fleet_Operation.thy ===== *)
theory Fleet_Operation
  imports Control_Codec Wire_Codec Node_Capacity
begin

text \<open>
  The vocabulary of the fleet operation journal, \<^verbatim>\<open>crates/cellule-runtime/src/fleet/operations\<close>:
  its error type (\<^verbatim>\<open>mod.rs\<close>), operation and attempt identities, the scope and the profile of a
  controller and the maintenance of one physical node (\<^verbatim>\<open>records.rs\<close>), and the durable intent
  that keeps a node cordoned across reboots (\<^verbatim>\<open>intent.rs\<close>). An operation that fails returns
  the error alone: the journal applies events to a clone and drops it on failure.
\<close>

subsection \<open>Errors, identities and bounds\<close>

datatype operation_error =
    Op_Invalid string
  | Op_Conflict
  | Op_Fenced
  | Op_Deadline
  | Op_Budget
  | Op_Stopped
  | Op_NotFound
  | Op_Busy
  | Op_Codec codec_error
  | Op_Identity error
  | Op_Control error

type_synonym 'a op_result = "operation_error + 'a"

definition MAX_RECORD_BYTES :: u32 where "MAX_RECORD_BYTES = 64 * 1024"
definition MAX_PAGE_BYTES :: u32 where "MAX_PAGE_BYTES = 1024 * 1024"
definition MAX_PAGE_ENTRIES :: nat where "MAX_PAGE_ENTRIES = 128"
definition MAX_ACTIVE_ATTEMPTS :: nat where "MAX_ACTIVE_ATTEMPTS = 2"
definition MAX_RESTORE_BYTES :: u64 where "MAX_RESTORE_BYTES = 8 * 1024 * 1024 * 1024"

definition nonzero :: "bytes \<Rightarrow> bool" where
  "nonzero bs = list_ex (\<lambda>b. b \<noteq> 0) bs"

datatype operation_id = OperationId (operation_bytes: bytes)

definition operation_id_from_bytes :: "bytes \<Rightarrow> operation_id op_result" where
  "operation_id_from_bytes bs =
     (if \<not> nonzero bs then Inl (Op_Invalid ''zero operation identity'') else Inr (OperationId bs))"

record attempt_id =
  ai_operation :: operation_id
  ai_sequence :: u64

definition attempt_id_validate :: "attempt_id \<Rightarrow> unit op_result" where
  "attempt_id_validate i = reject_if (ai_sequence i = 0 \<or> \<not> nonzero (operation_bytes (ai_operation i)))
     (Op_Invalid ''invalid attempt identity'')"

record fleet_scope =
  fs_fleet :: digest
  fs_application :: application_id

definition scope_validate :: "fleet_scope \<Rightarrow> unit op_result" where
  "scope_validate s = reject_if (\<not> nonzero (digest_bytes (fs_fleet s))
       \<or> \<not> nonzero (application_bytes (fs_application s)))
     (Op_Invalid ''zero fleet operation scope'')"

record fleet_profile =
  fp_max_inflight :: nat
  fp_max_restore_bytes :: u64
  fp_controller_lease_ms :: i64
  fp_reconcile_interval_ms :: i64

definition profile_default :: fleet_profile where
  "profile_default = \<lparr>fp_max_inflight = MAX_ACTIVE_ATTEMPTS, fp_max_restore_bytes = MAX_RESTORE_BYTES,
     fp_controller_lease_ms = 30000, fp_reconcile_interval_ms = 15000\<rparr>"

definition profile_validate :: "fleet_profile \<Rightarrow> fleet_profile op_result" where
  "profile_validate p =
     (if fp_max_inflight p = 0 \<or> fp_max_inflight p > MAX_ACTIVE_ATTEMPTS
        \<or> fp_max_restore_bytes p = 0 \<or> fp_max_restore_bytes p > MAX_RESTORE_BYTES
        \<or> fp_controller_lease_ms p \<le> 0 \<or> fp_controller_lease_ms p > 30000
        \<or> fp_reconcile_interval_ms p \<le> 0
        \<or> fp_reconcile_interval_ms p \<ge> fp_controller_lease_ms p
      then Inl (Op_Invalid ''invalid fleet operation profile'') else Inr p)"

subsection \<open>Maintenance of one physical node\<close>

datatype drain_blocker =
    IncompleteObservation | StaleObservation | IncompatibleRelease | ReceiverCapacity
  | BusyExecution | ExternalLease | Db_PendingPublication | FollowerObligation | UnknownInventory
  | Db_MovementBudget | OutcomeUnknown | Db_Deadline | FacilityFailure | ReaderObligation

datatype maintenance_phase = Mp_Requested | Mp_Cordoned | Mp_Evacuating | Mp_Closing | Mp_Completed

record drain_evidence =
  de_node :: node_id
  de_session :: session_id
  de_remaining_cells :: u64
  de_unresolved_attempts :: u32
  de_relocated :: bool
  de_readers_settled :: bool
  de_followers_settled :: bool
  de_facilities_closed :: bool
  de_stopped :: bool
  de_withdrawn :: bool

definition ready_to_close :: "drain_evidence \<Rightarrow> bool" where
  "ready_to_close e \<longleftrightarrow> de_remaining_cells e = 0 \<and> de_unresolved_attempts e = 0
     \<and> de_relocated e \<and> de_readers_settled e \<and> de_followers_settled e"

datatype maintenance_event =
    Me_Cordoned
  | BeginEvacuation
  | ReadyToClose drain_evidence
  | Me_Stopped drain_evidence
  | Blocked drain_blocker
  | SessionReplaced session_id
  | ExtendDeadline i64

record maintenance_operation =
  mo_id :: operation_id
  mo_request_digest :: digest
  mo_node :: node_id
  mo_session :: session_id
  mo_intent_revision :: u64
  mo_created_at_ms :: i64
  mo_deadline_ms :: i64
  mo_phase :: maintenance_phase
  mo_blocker :: "drain_blocker option"
  mo_drain_evidence :: "drain_evidence option"

definition evidence_invalid :: "maintenance_operation \<Rightarrow> drain_evidence \<Rightarrow> bool" where
  "evidence_invalid m e \<longleftrightarrow> de_node e \<noteq> mo_node m \<or> de_session e \<noteq> mo_session m
     \<or> \<not> ready_to_close e
     \<or> (mo_phase m = Mp_Closing \<and> (de_facilities_closed e \<or> de_stopped e \<or> de_withdrawn e))
     \<or> (mo_phase m = Mp_Completed \<and> \<not> (de_facilities_closed e \<and> de_stopped e \<and> de_withdrawn e))"

definition maintenance_validate :: "maintenance_operation \<Rightarrow> unit op_result" where
  "maintenance_validate m =
     bind_r (reject_if (\<not> nonzero (operation_bytes (mo_id m)) \<or> \<not> nonzero (digest_bytes (mo_request_digest m))
         \<or> \<not> nonzero (node_bytes (mo_node m)) \<or> \<not> nonzero (session_bytes (mo_session m))
         \<or> mo_intent_revision m = 0 \<or> mo_created_at_ms m < 0 \<or> mo_deadline_ms m \<le> mo_created_at_ms m
         \<or> (mo_phase m = Mp_Completed \<and> mo_blocker m \<noteq> None))
       (Op_Invalid ''invalid maintenance record'')) (\<lambda>_.
     bind_r (reject_if ((mo_phase m \<in> {Mp_Closing, Mp_Completed}) \<noteq> (mo_drain_evidence m \<noteq> None))
       (Op_Invalid ''maintenance phase lacks drain evidence'')) (\<lambda>_.
     reject_if (case mo_drain_evidence m of None \<Rightarrow> False | Some e \<Rightarrow> evidence_invalid m e)
       (Op_Invalid ''invalid stored drain evidence'')))"

definition maintenance_new :: "operation_id \<Rightarrow> digest \<Rightarrow> node_id \<Rightarrow> session_id \<Rightarrow> u64 \<Rightarrow> i64 \<Rightarrow> i64
    \<Rightarrow> maintenance_operation op_result" where
  "maintenance_new i digest node session revision created deadline =
     (let m = \<lparr>mo_id = i, mo_request_digest = digest, mo_node = node, mo_session = session,
               mo_intent_revision = revision, mo_created_at_ms = created, mo_deadline_ms = deadline,
               mo_phase = Mp_Requested, mo_blocker = None, mo_drain_evidence = None\<rparr>
      in bind_r (maintenance_validate m) (\<lambda>_. Inr m))"

definition evidence_matches :: "maintenance_operation \<Rightarrow> drain_evidence \<Rightarrow> bool" where
  "evidence_matches m e \<longleftrightarrow> de_node e = mo_node m \<and> de_session e = mo_session m"

definition next_intent_revision :: "maintenance_operation \<Rightarrow> u64 op_result" where
  "next_intent_revision m =
     ok_or (Op_Invalid ''maintenance revision overflow'') (checked_add (mo_intent_revision m) 1)"

text \<open>The state change of each event; an event outside its phase is unproven.\<close>

definition unproven_maintenance :: "maintenance_operation op_result" where
  "unproven_maintenance = Inl (Op_Invalid ''unproven maintenance transition'')"

fun maintenance_event_step :: "maintenance_operation \<Rightarrow> i64 \<Rightarrow> maintenance_event \<Rightarrow> maintenance_operation op_result" where
  "maintenance_event_step m now Me_Cordoned =
     (if mo_phase m = Mp_Requested then Inr (m\<lparr>mo_phase := Mp_Cordoned, mo_blocker := None\<rparr>)
      else if mo_phase m \<noteq> Mp_Completed then Inr m else unproven_maintenance)"
| "maintenance_event_step m now BeginEvacuation =
     (if mo_phase m = Mp_Cordoned then Inr (m\<lparr>mo_phase := Mp_Evacuating, mo_blocker := None\<rparr>)
      else if mo_phase m = Mp_Evacuating then Inr m else unproven_maintenance)"
| "maintenance_event_step m now (ReadyToClose e) =
     (if evidence_matches m e \<and> ready_to_close e \<and> \<not> de_facilities_closed e \<and> \<not> de_stopped e
        \<and> \<not> de_withdrawn e \<and> mo_phase m \<in> {Mp_Evacuating, Mp_Closing}
      then Inr (m\<lparr>mo_phase := Mp_Closing, mo_drain_evidence := Some e, mo_blocker := None\<rparr>)
      else unproven_maintenance)"
| "maintenance_event_step m now (Me_Stopped e) =
     (if evidence_matches m e \<and> ready_to_close e \<and> de_facilities_closed e \<and> de_stopped e
        \<and> de_withdrawn e \<and> mo_phase m \<in> {Mp_Closing, Mp_Completed}
      then Inr (m\<lparr>mo_phase := Mp_Completed, mo_drain_evidence := Some e, mo_blocker := None\<rparr>)
      else unproven_maintenance)"
| "maintenance_event_step m now (Blocked b) =
     (if mo_phase m \<noteq> Mp_Completed then Inr (m\<lparr>mo_blocker := Some b\<rparr>) else unproven_maintenance)"
| "maintenance_event_step m now (SessionReplaced session) =
     (if nonzero (session_bytes session) \<and> mo_phase m \<noteq> Mp_Completed
      then if session = mo_session m then Inr m
           else bind_r (next_intent_revision m) (\<lambda>r.
             Inr (m\<lparr>mo_intent_revision := r, mo_session := session, mo_phase := Mp_Requested,
                    mo_drain_evidence := None, mo_blocker := Some IncompleteObservation\<rparr>))
      else unproven_maintenance)"
| "maintenance_event_step m now (ExtendDeadline deadline) =
     (if deadline > mo_deadline_ms m \<and> deadline > now \<and> mo_phase m \<noteq> Mp_Completed
      then bind_r (next_intent_revision m) (\<lambda>r.
             Inr (m\<lparr>mo_deadline_ms := deadline, mo_intent_revision := r, mo_blocker := None\<rparr>))
      else unproven_maintenance)"

definition maintenance_apply :: "maintenance_operation \<Rightarrow> maintenance_event \<Rightarrow> i64 \<Rightarrow> maintenance_operation op_result" where
  "maintenance_apply m event now =
     bind_r (reject_if (now < mo_created_at_ms m) (Op_Invalid ''maintenance time regressed'')) (\<lambda>_.
     bind_r (maintenance_event_step m now event) (\<lambda>n.
     bind_r (maintenance_validate n) (\<lambda>_. Inr n)))"

subsection \<open>Durable intent of a physical node\<close>

record node_intent =
  ni_scope :: fleet_scope
  ni_node :: node_id
  ni_session :: session_id
  ni_revision :: u64
  ni_mode :: node_mode
  ni_operation :: "operation_id option"

definition intent_validate :: "node_intent \<Rightarrow> unit op_result" where
  "intent_validate n =
     bind_r (scope_validate (ni_scope n)) (\<lambda>_.
     reject_if (\<not> nonzero (node_bytes (ni_node n)) \<or> \<not> nonzero (session_bytes (ni_session n))
         \<or> ni_revision n = 0 \<or> (ni_mode n = Nm_Active) \<noteq> (ni_operation n = None)
         \<or> (case ni_operation n of None \<Rightarrow> False | Some i \<Rightarrow> \<not> nonzero (operation_bytes i)))
       (Op_Invalid ''invalid physical-node intent''))"

definition checked_intent :: "node_intent \<Rightarrow> node_intent op_result" where
  "checked_intent n = bind_r (intent_validate n) (\<lambda>_. Inr n)"

definition intent_initial :: "fleet_scope \<Rightarrow> node_id \<Rightarrow> session_id \<Rightarrow> node_intent op_result" where
  "intent_initial scope node session = checked_intent \<lparr>ni_scope = scope, ni_node = node,
     ni_session = session, ni_revision = 1, ni_mode = Nm_Active, ni_operation = None\<rparr>"

definition intent_maintenance :: "fleet_scope \<Rightarrow> maintenance_operation \<Rightarrow> node_intent op_result" where
  "intent_maintenance scope m =
     bind_r (maintenance_validate m) (\<lambda>_. checked_intent \<lparr>ni_scope = scope, ni_node = mo_node m,
       ni_session = mo_session m, ni_revision = mo_intent_revision m, ni_mode = Nm_Draining,
       ni_operation = Some (mo_id m)\<rparr>)"

definition advance_maintenance :: "node_intent \<Rightarrow> maintenance_operation \<Rightarrow> node_intent op_result" where
  "advance_maintenance n m =
     bind_r (intent_validate n) (\<lambda>_.
     bind_r (intent_maintenance (ni_scope n) m) (\<lambda>next.
     if next = n then Inr n
     else if ni_node next \<noteq> ni_node n \<or> ni_revision next \<le> ni_revision n
       \<or> (ni_mode n \<noteq> Nm_Active \<and> ni_operation n \<noteq> ni_operation next)
       \<or> (ni_mode n = Nm_Active \<and> ni_session next \<noteq> ni_session n)
     then Inl Op_Conflict else Inr next))"

definition rebind_active :: "node_intent \<Rightarrow> session_id \<Rightarrow> u64 \<Rightarrow> node_intent op_result" where
  "rebind_active n session revision =
     bind_r (intent_validate n) (\<lambda>_.
     if ni_mode n \<noteq> Nm_Active \<or> session = ni_session n \<or> revision \<le> ni_revision n then Inl Op_Conflict
     else checked_intent (n\<lparr>ni_session := session, ni_revision := revision\<rparr>))"

definition return_to_service :: "node_intent \<Rightarrow> maintenance_operation \<Rightarrow> session_id \<Rightarrow> u64 \<Rightarrow> node_intent op_result" where
  "return_to_service n completed session revision =
     bind_r (intent_validate n) (\<lambda>_.
     bind_r (maintenance_validate completed) (\<lambda>_.
     if ni_mode n = Nm_Active \<or> ni_operation n \<noteq> Some (mo_id completed)
       \<or> ni_node n \<noteq> mo_node completed \<or> ni_session n \<noteq> mo_session completed
       \<or> ni_revision n \<noteq> mo_intent_revision completed \<or> mo_phase completed \<noteq> Mp_Completed
       \<or> revision \<le> ni_revision n \<or> session = ni_session n
     then Inl (Op_Invalid ''return to service is not proven'')
     else checked_intent \<lparr>ni_scope = ni_scope n, ni_node = ni_node n, ni_session = session,
       ni_revision = revision, ni_mode = Nm_Active, ni_operation = None\<rparr>))"

subsection \<open>The life of a maintenance operation\<close>

text \<open>
  The order every event climbs: the request's identity is fixed, its intent revision and its
  deadline never decrease, a revision determines session and deadline, and a completed operation
  is final.
\<close>

inductive maintenance_step :: "maintenance_operation \<Rightarrow> maintenance_operation \<Rightarrow> bool" where
  maintenance_step: "maintenance_validate m = Inr () \<Longrightarrow> maintenance_apply m event now = Inr n
    \<Longrightarrow> maintenance_step m n"

definition maintenance_le :: "maintenance_operation \<Rightarrow> maintenance_operation \<Rightarrow> bool" where
  "maintenance_le m n \<longleftrightarrow> mo_id n = mo_id m \<and> mo_request_digest n = mo_request_digest m
     \<and> mo_node n = mo_node m \<and> mo_created_at_ms n = mo_created_at_ms m
     \<and> mo_intent_revision m \<le> mo_intent_revision n \<and> mo_deadline_ms m \<le> mo_deadline_ms n
     \<and> (mo_intent_revision n = mo_intent_revision m \<longrightarrow>
          mo_session n = mo_session m \<and> mo_deadline_ms n = mo_deadline_ms m)
     \<and> (mo_phase m = Mp_Completed \<longrightarrow> n = m)"

lemma maintenance_validate_Inr:
  "maintenance_validate m = Inr () \<longleftrightarrow> nonzero (operation_bytes (mo_id m))
     \<and> nonzero (digest_bytes (mo_request_digest m)) \<and> nonzero (node_bytes (mo_node m))
     \<and> nonzero (session_bytes (mo_session m)) \<and> mo_intent_revision m \<noteq> 0
     \<and> 0 \<le> mo_created_at_ms m \<and> mo_created_at_ms m < mo_deadline_ms m
     \<and> (mo_phase m = Mp_Completed \<longrightarrow> mo_blocker m = None)
     \<and> (mo_phase m \<in> {Mp_Closing, Mp_Completed} \<longleftrightarrow> mo_drain_evidence m \<noteq> None)
     \<and> (\<forall>e. mo_drain_evidence m = Some e \<longrightarrow> \<not> evidence_invalid m e)"
  by (auto simp: maintenance_validate_def rust_simps not_less not_le split: option.splits)

text \<open>The evidence a completed operation stores is determined by its node and session.\<close>

lemma terminal_evidence_unique:
  assumes "ready_to_close e" "de_facilities_closed e" "de_stopped e" "de_withdrawn e"
    and "ready_to_close f" "de_facilities_closed f" "de_stopped f" "de_withdrawn f"
    and "de_node e = de_node f" "de_session e = de_session f"
  shows "e = f"
  using assms by (cases e; cases f) (simp add: ready_to_close_def)

lemma completed_is_final:
  assumes "maintenance_validate m = Inr ()" and "maintenance_event_step m now event = Inr n"
    and "mo_phase m = Mp_Completed"
  shows "n = m"
proof -
  obtain f where f: "event = Me_Stopped f" "evidence_matches m f" "ready_to_close f"
      "de_facilities_closed f" "de_stopped f" "de_withdrawn f"
      "n = m\<lparr>mo_phase := Mp_Completed, mo_drain_evidence := Some f, mo_blocker := None\<rparr>"
    using assms(2,3) by (cases event) (auto simp: unproven_maintenance_def split: if_splits)
  obtain e where e: "mo_drain_evidence m = Some e" "\<not> evidence_invalid m e" "mo_blocker m = None"
    using assms(1,3) by (auto simp: maintenance_validate_Inr)
  then have "e = f"
    using f assms(3) by (intro terminal_evidence_unique) (auto simp: evidence_invalid_def evidence_matches_def)
  then show ?thesis
    using f(7) e assms(3) by (cases m) simp
qed

lemma next_intent_revision_Inr:
  "next_intent_revision m = Inr r \<longleftrightarrow> unat r = Suc (unat (mo_intent_revision m))"
  by (auto simp: next_intent_revision_def rust_simps)

lemma next_intent_revision_less: "next_intent_revision m = Inr r \<Longrightarrow> mo_intent_revision m < r"
  by (simp add: next_intent_revision_Inr word_less_nat_alt)

lemma maintenance_event_keeps:
  assumes "maintenance_event_step m now event = Inr n"
  shows "mo_id n = mo_id m" "mo_request_digest n = mo_request_digest m" "mo_node n = mo_node m"
    "mo_created_at_ms n = mo_created_at_ms m" "mo_deadline_ms m \<le> mo_deadline_ms n"
    "mo_intent_revision m < mo_intent_revision n \<or> mo_intent_revision n = mo_intent_revision m
       \<and> mo_session n = mo_session m \<and> mo_deadline_ms n = mo_deadline_ms m"
  using assms next_intent_revision_less
  by (cases event; auto simp: unproven_maintenance_def bind_r_Inr split: if_splits)+

lemma maintenance_step_le:
  assumes "maintenance_step m n"
  shows "maintenance_le m n"
  using assms
proof cases
  case (maintenance_step event now)
  then have step: "maintenance_event_step m now event = Inr n"
    by (auto simp: maintenance_apply_def rust_simps)
  then show ?thesis
    using maintenance_event_keeps [OF step] completed_is_final [OF maintenance_step(1) step]
    unfolding maintenance_le_def by (metis order.strict_iff_order order_refl)
qed

lemma maintenance_le_trans:
  assumes "maintenance_le s t" and "maintenance_le t u"
  shows "maintenance_le s u"
proof -
  have r: "mo_intent_revision s \<le> mo_intent_revision t" "mo_intent_revision t \<le> mo_intent_revision u"
    using assms by (simp_all add: maintenance_le_def)
  then have "mo_intent_revision u = mo_intent_revision s \<Longrightarrow> mo_intent_revision t = mo_intent_revision s"
    by (metis antisym)
  then show ?thesis
    using assms r order_trans [OF r] by (simp add: maintenance_le_def)
qed

interpretation maintenance: ratchet maintenance_step maintenance_le
  by unfold_locales (fact maintenance_le_trans maintenance_step_le | simp add: maintenance_le_def)+

interpretation valid_maintenance: preserved maintenance_step "\<lambda>m. maintenance_validate m = Inr ()"
  by unfold_locales (auto simp: maintenance_step.simps maintenance_apply_def rust_simps)

subsection \<open>A cordon holds until its maintenance has completed\<close>

inductive intent_step :: "node_intent \<Rightarrow> node_intent \<Rightarrow> bool" where
  advance: "advance_maintenance n m = Inr n' \<Longrightarrow> intent_step n n'"
| rebind: "rebind_active n session revision = Inr n' \<Longrightarrow> intent_step n n'"
| return: "return_to_service n m session revision = Inr n' \<Longrightarrow> intent_step n n'"

lemmas intent_defs = advance_maintenance_def rebind_active_def return_to_service_def
  intent_maintenance_def checked_intent_def

definition intent_le :: "node_intent \<Rightarrow> node_intent \<Rightarrow> bool" where
  "intent_le n n' \<longleftrightarrow> ni_scope n' = ni_scope n \<and> ni_node n' = ni_node n
     \<and> (n' = n \<or> ni_revision n < ni_revision n')"

lemma intent_step_le: "intent_step n n' \<Longrightarrow> intent_le n n'"
  by (induction rule: intent_step.induct)
    (auto simp: intent_le_def intent_defs rust_simps not_le split: if_splits)

interpretation intents: ratchet intent_step intent_le
  by unfold_locales (erule intent_step_le | force simp: intent_le_def)+

definition drained :: "maintenance_operation \<Rightarrow> bool" where
  "drained m \<longleftrightarrow> mo_phase m = Mp_Completed \<and> mo_blocker m = None
     \<and> (\<exists>e. mo_drain_evidence m = Some e \<and> de_node e = mo_node m \<and> de_session e = mo_session m
          \<and> ready_to_close e \<and> de_facilities_closed e \<and> de_stopped e \<and> de_withdrawn e)"

lemma completed_is_drained:
  assumes "maintenance_validate m = Inr ()" and "mo_phase m = Mp_Completed"
  shows "drained m"
proof -
  obtain e where "mo_drain_evidence m = Some e" "\<not> evidence_invalid m e" "mo_blocker m = None"
    using assms by (auto simp: maintenance_validate_Inr)
  then show ?thesis
    using assms(2) by (auto simp: drained_def evidence_invalid_def)
qed

lemma return_to_service_Inr:
  assumes "return_to_service n m session revision = Inr n'"
  shows "maintenance_validate m = Inr () \<and> mo_phase m = Mp_Completed \<and> ni_operation n = Some (mo_id m)
    \<and> mo_node m = ni_node n \<and> mo_session m = ni_session n \<and> mo_intent_revision m = ni_revision n
    \<and> ni_session n' = session \<and> session \<noteq> ni_session n \<and> ni_mode n' = Nm_Active"
  using assms by (auto simp: intent_defs rust_simps split: if_splits)

lemma reopening_step:
  assumes "intent_step n n'" and "ni_mode n \<noteq> Nm_Active" and "ni_mode n' = Nm_Active"
  shows "\<exists>m session revision. return_to_service n m session revision = Inr n'"
  using assms by (induction rule: intent_step.induct)
    (auto simp: advance_maintenance_def rebind_active_def intent_maintenance_def checked_intent_def
      rust_simps split: if_splits)

lemma reopening_run:
  assumes "intent_step\<^sup>*\<^sup>* n n'" and "ni_mode n \<noteq> Nm_Active" and "ni_mode n' = Nm_Active"
  shows "\<exists>x y m session revision. intent_step\<^sup>*\<^sup>* n x \<and> return_to_service x m session revision = Inr y
    \<and> intent_step\<^sup>*\<^sup>* y n'"
  using assms
proof (induction rule: rtranclp_induct)
  case (step x y)
  show ?case
  proof (cases "ni_mode x = Nm_Active")
    case True
    then show ?thesis
      using step.IH step.prems(1) step.hyps(2) rtranclp.rtrancl_into_rtrancl by metis
  next
    case False
    then obtain m session revision where "return_to_service x m session revision = Inr y"
      using reopening_step [OF step(2)] step(5) by auto
    then show ?thesis
      using step(1) by (intro exI conjI) (assumption | rule rtranclp.rtrancl_refl)+
  qed
qed simp

text \<open>
  A cordoned node is reopened only after a proven shutdown. On every history of a node's durable
  intent that starts cordoned or draining and ends active, there is a return to service whose
  maintenance operation had completed for the very operation, node, session and revision the intent
  then named, with evidence that no Cell, no movement attempt and no reader or follower obligation
  remained, that the host stopped and that its session was withdrawn. The returning boot is another
  session, the intent's revision has grown, and scope and node never changed.
\<close>

theorem cordon_holds_until_drained:
  assumes "intent_step\<^sup>*\<^sup>* n n'" and "ni_mode n \<noteq> Nm_Active" and "ni_mode n' = Nm_Active"
  shows "\<exists>x y m session revision. intent_step\<^sup>*\<^sup>* n x \<and> return_to_service x m session revision = Inr y
    \<and> intent_step\<^sup>*\<^sup>* y n' \<and> drained m \<and> ni_operation x = Some (mo_id m) \<and> mo_node m = ni_node n
    \<and> mo_session m = ni_session x \<and> mo_intent_revision m = ni_revision x \<and> ni_session y \<noteq> ni_session x
    \<and> ni_revision n < ni_revision n' \<and> ni_scope n' = ni_scope n \<and> ni_node n' = ni_node n"
proof -
  obtain x y m session revision where r: "intent_step\<^sup>*\<^sup>* n x"
      "return_to_service x m session revision = Inr y" "intent_step\<^sup>*\<^sup>* y n'"
    using reopening_run [OF assms] by blast
  have "intent_le n n'" "intent_le n x"
    using intents.run_le assms(1) r(1) by blast+
  moreover have "drained m"
    using return_to_service_Inr [OF r(2)] completed_is_drained by blast
  ultimately show ?thesis
    using r assms(2,3) return_to_service_Inr [OF r(2)]
    by (intro exI [of _ x] exI [of _ y] exI [of _ m] exI [of _ session] exI [of _ revision])
      (auto simp: intent_le_def)
qed

text \<open>A completed maintenance of node 2, and the intents before and after its return to service.\<close>

definition sample_scope :: fleet_scope where
  "sample_scope = \<lparr>fs_fleet = Digest (replicate 32 1), fs_application = ApplicationId (replicate 16 1)\<rparr>"

definition sample_drain :: drain_evidence where
  "sample_drain = \<lparr>de_node = NodeId (replicate 16 2), de_session = SessionId (replicate 16 3),
     de_remaining_cells = 0, de_unresolved_attempts = 0, de_relocated = True, de_readers_settled = True,
     de_followers_settled = True, de_facilities_closed = True, de_stopped = True, de_withdrawn = True\<rparr>"

definition sample_maintenance :: maintenance_operation where
  "sample_maintenance = \<lparr>mo_id = OperationId (replicate 16 5), mo_request_digest = Digest (replicate 32 6),
     mo_node = NodeId (replicate 16 2), mo_session = SessionId (replicate 16 3), mo_intent_revision = 2,
     mo_created_at_ms = 10, mo_deadline_ms = 100, mo_phase = Mp_Completed, mo_blocker = None,
     mo_drain_evidence = Some sample_drain\<rparr>"

definition sample_intent :: "u64 \<Rightarrow> u8 \<Rightarrow> node_mode \<Rightarrow> operation_id option \<Rightarrow> node_intent" where
  "sample_intent revision session mode operation = \<lparr>ni_scope = sample_scope, ni_node = NodeId (replicate 16 2),
     ni_session = SessionId (replicate 16 session), ni_revision = revision, ni_mode = mode,
     ni_operation = operation\<rparr>"

theorem cordon_holds_until_drained_witness:
  "\<exists>x y m session revision. intent_step\<^sup>*\<^sup>* (sample_intent 2 3 Nm_Draining (Some (OperationId (replicate 16 5)))) x
     \<and> return_to_service x m session revision = Inr y \<and> drained m"
proof -
  let ?n = "sample_intent 2 3 Nm_Draining (Some (OperationId (replicate 16 5)))"
  let ?n' = "sample_intent 3 4 Nm_Active None"
  have "return_to_service ?n sample_maintenance (SessionId (replicate 16 4)) 3 = Inr ?n'"
    by code_simp
  then have "intent_step\<^sup>*\<^sup>* ?n ?n'"
    by (intro r_into_rtranclp intent_step.return)
  moreover have "ni_mode ?n \<noteq> Nm_Active" "ni_mode ?n' = Nm_Active"
    by (simp_all add: sample_intent_def)
  ultimately show ?thesis
    using cordon_holds_until_drained [of ?n ?n'] by blast
qed

end
