(* ===== verification/Move_Attempt.thy ===== *)
theory Move_Attempt
  imports Fleet_Operation
begin

text \<open>
  One planned movement of a Cell: the durable attempt and its events,
  \<^verbatim>\<open>crates/cellule-runtime/src/fleet/operations/attempt.rs\<close>, the evidence of a recovery from a
  failed source (\<^verbatim>\<open>recovery.rs\<close>) and the stable key of a movement effect (\<^verbatim>\<open>actions.rs\<close>). An
  attempt holds a permit of the fleet's movement budget from its allocation until it is retired.

  BLAKE3 and the JSON serialiser of control records are third-party crates: they are the fields
  of the parameter \<open>fleet_env\<close>.
\<close>

record fleet_env =
  fe_blake3 :: "bytes \<Rightarrow> bytes"
  fe_to_vec :: "raw_control \<Rightarrow> bytes option"
  fe_from_slice :: "bytes \<Rightarrow> raw_control option"

subsection \<open>The immutable part of an attempt\<close>

record transfer_cost =
  tc_memory_bytes :: u64
  tc_disk_bytes :: u64
  tc_file_descriptors :: u32
  tc_job_credits :: u32

definition cost_validate :: "transfer_cost \<Rightarrow> transfer_cost op_result" where
  "cost_validate c =
     (if tc_memory_bytes c = 0 \<or> tc_disk_bytes c = 0 \<or> tc_file_descriptors c = 0 \<or> tc_job_credits c = 0
      then Inl (Op_Invalid ''unknown transfer cost'') else Inr c)"

record move_attempt_spec =
  sp_id :: attempt_id
  sp_target :: cell_target
  sp_incarnation :: incarnation_id
  sp_source_node :: node_id
  sp_source :: session_id
  sp_generation :: u64
  sp_source_epoch :: u64
  sp_destination_node :: node_id
  sp_destination :: session_id
  sp_cost :: transfer_cost
  sp_snapshot_digest :: digest
  sp_deadline_ms :: i64

definition spec_validate :: "move_attempt_spec \<Rightarrow> unit op_result" where
  "spec_validate s =
     bind_r (attempt_id_validate (sp_id s)) (\<lambda>_.
     bind_r (cost_validate (sp_cost s)) (\<lambda>_.
     reject_if (\<not> nonzero (incarnation_bytes (sp_incarnation s)) \<or> \<not> nonzero (node_bytes (sp_source_node s))
         \<or> \<not> nonzero (node_bytes (sp_destination_node s)) \<or> \<not> nonzero (session_bytes (sp_source s))
         \<or> \<not> nonzero (session_bytes (sp_destination s)) \<or> \<not> nonzero (digest_bytes (sp_snapshot_digest s))
         \<or> \<not> nonzero (tenant_bytes (ct_tenant (sp_target s)))
         \<or> \<not> nonzero (application_bytes (ct_application (sp_target s)))
         \<or> \<not> nonzero (namespace_bytes (ct_namespace (sp_target s)))
         \<or> sp_source s = sp_destination s \<or> sp_source_node s = sp_destination_node s
         \<or> sp_generation s = 0 \<or> sp_source_epoch s = 0 \<or> sp_deadline_ms s < 0)
       (Op_Invalid ''invalid movement identity'')))"

subsection \<open>Evidence\<close>

record published_position =
  pp_incarnation :: incarnation_id
  pp_epoch :: u64
  pp_root :: root_ref

definition position_validate :: "published_position \<Rightarrow> unit op_result" where
  "position_validate p = reject_if (\<not> nonzero (incarnation_bytes (pp_incarnation p)) \<or> pp_epoch p = 0
       \<or> \<not> nonzero (digest_bytes (rr_digest (pp_root p)))
       \<or> rr_commit_sequence (pp_root p) > i64_max_u64
       \<or> and (rr_checksum (pp_root p)) CHECKSUM_FLAG = 0)
     (Op_Invalid ''invalid published movement position'')"

definition successor_position :: "published_position \<Rightarrow> published_position \<Rightarrow> bool" where
  "successor_position current released \<longleftrightarrow>
     rr_commit_sequence (pp_root released) \<le> rr_commit_sequence (pp_root current)
     \<and> rr_txid (pp_root released) \<le> rr_txid (pp_root current)
     \<and> (rr_commit_sequence (pp_root current) \<noteq> rr_commit_sequence (pp_root released)
        \<or> pp_root current = pp_root released)"

record receiver_reservation =
  rv_session :: session_id
  rv_expires_at_ms :: i64

record activation_evidence =
  av_node :: node_id
  av_session :: session_id
  av_position :: published_position

datatype attempt_phase =
    Planned | Preparing | Reserved | Releasing | Released | Activating | Activated | Cancelling
  | Cancelled | CleaningReceiver | Ap_Recovering | Recovered | MaintenanceReleasing

datatype movement_action =
    Mv_Prepare | Mv_Release | Mv_Activate | Mv_Inspect | Mv_Cancel | Mv_Retire | Mv_Recover
  | Mv_ReleaseMaintenance

fun action_code :: "movement_action \<Rightarrow> u8" where
  "action_code Mv_Prepare = 1"
| "action_code Mv_Release = 2"
| "action_code Mv_Activate = 3"
| "action_code Mv_Inspect = 4"
| "action_code Mv_Cancel = 5"
| "action_code Mv_Retire = 6"
| "action_code Mv_Recover = 7"
| "action_code Mv_ReleaseMaintenance = 8"

definition is_source_release :: "movement_action \<Rightarrow> bool" where
  "is_source_release a \<longleftrightarrow> a \<in> {Mv_Release, Mv_ReleaseMaintenance}"

definition movement_key_preimage :: "fleet_env \<Rightarrow> fleet_scope \<Rightarrow> movement_action \<Rightarrow> move_attempt_spec \<Rightarrow> bytes" where
  "movement_key_preimage env scope action spec =
     ascii ''cellule.fleet-action-key.v1'' @ [0] @ digest_bytes (fs_fleet scope)
     @ application_bytes (fs_application scope) @ [1, action_code action]
     @ operation_bytes (ai_operation (sp_id spec)) @ u64_to_be_bytes (ai_sequence (sp_id spec))
     @ cell_bytes (cell_id_of (fe_blake3 env) (sp_target spec))
     @ incarnation_bytes (sp_incarnation spec) @ session_bytes (sp_source spec)
     @ u64_to_be_bytes (sp_generation spec) @ session_bytes (sp_destination spec)"

definition movement_key :: "fleet_env \<Rightarrow> fleet_scope \<Rightarrow> movement_action \<Rightarrow> move_attempt_spec \<Rightarrow> digest" where
  "movement_key env scope action spec = Digest (fe_blake3 env (movement_key_preimage env scope action spec))"

subsection \<open>Recovery from a failed source\<close>

record recovery_basis =
  rb_spec :: move_attempt_spec
  rb_scope :: fleet_scope
  rb_action_key :: digest
  rb_node :: node_id
  rb_session :: session_id
  rb_accepted_at_ms :: i64
  rb_control :: control
  rb_observed_at_ms :: i64

text \<open>The record of a failed source: it still owns the Cell, or released it unobserved.\<close>

definition failed_source :: "recovery_basis \<Rightarrow> bool" where
  "failed_source b = (case c_state (rb_control b) of
       Serving \<Rightarrow> (case c_owner (rb_control b) of None \<Rightarrow> False | Some w \<Rightarrow> ow_session w = sp_source (rb_spec b))
     | Recovering \<Rightarrow> (case c_owner (rb_control b) of None \<Rightarrow> False | Some w \<Rightarrow> ow_session w = sp_source (rb_spec b))
     | Idle \<Rightarrow> c_owner (rb_control b) = None \<and> c_recovery (rb_control b) = None
     | Tombstoned \<Rightarrow> False)"

definition control_position :: "string \<Rightarrow> control \<Rightarrow> published_position op_result" where
  "control_position message c = (case c_root c of None \<Rightarrow> Inl (Op_Invalid message)
     | Some root \<Rightarrow> Inr \<lparr>pp_incarnation = c_incarnation c, pp_epoch = c_epoch c, pp_root = root\<rparr>)"

definition encodable :: "fleet_env \<Rightarrow> control \<Rightarrow> bytes op_result" where
  "encodable env c = map_err Op_Control (control_encode (fe_to_vec env) c)"

definition basis_validate :: "fleet_env \<Rightarrow> recovery_basis \<Rightarrow> unit op_result" where
  "basis_validate env b =
     bind_r (spec_validate (rb_spec b)) (\<lambda>_.
     bind_r (scope_validate (rb_scope b)) (\<lambda>_.
     bind_r (encodable env (rb_control b)) (\<lambda>_.
     bind_r (reject_if (fs_application (rb_scope b) \<noteq> ct_application (sp_target (rb_spec b))
         \<or> rb_action_key b \<noteq> movement_key env (rb_scope b) Mv_Recover (rb_spec b)
         \<or> rb_node b \<noteq> sp_destination_node (rb_spec b) \<or> rb_session b \<noteq> sp_destination (rb_spec b)
         \<or> rb_accepted_at_ms b < 0 \<or> rb_observed_at_ms b < rb_accepted_at_ms b
         \<or> c_cell (rb_control b) \<noteq> cell_id_of (fe_blake3 env) (sp_target (rb_spec b))
         \<or> c_incarnation (rb_control b) \<noteq> sp_incarnation (rb_spec b)
         \<or> c_epoch (rb_control b) \<noteq> sp_source_epoch (rb_spec b) \<or> c_root (rb_control b) = None)
       (Op_Invalid ''recovery basis scope mismatch'')) (\<lambda>_.
     bind_r (reject_if (\<not> failed_source b) (Op_Invalid ''recovery basis is not the failed source'')) (\<lambda>_.
     bind_r (control_position ''recovery basis lacks root'' (rb_control b)) position_validate)))))"

record recovery_evidence =
  re_basis :: recovery_basis
  re_restored :: control
  re_recorded_at_ms :: i64

definition recovery_position :: "recovery_evidence \<Rightarrow> published_position op_result" where
  "recovery_position e = control_position ''recovery result lacks root'' (re_restored e)"

definition evidence_validate :: "fleet_env \<Rightarrow> recovery_evidence \<Rightarrow> unit op_result" where
  "evidence_validate env e =
     bind_r (basis_validate env (re_basis e)) (\<lambda>_.
     bind_r (encodable env (re_restored e)) (\<lambda>_.
     bind_r (ok_or (Op_Invalid ''recovery lacks claimant'') (c_owner (re_restored e))) (\<lambda>w.
     bind_r (reject_if (ow_session w \<noteq> rb_session (re_basis e)
         \<or> re_recorded_at_ms e < rb_observed_at_ms (re_basis e))
       (Op_Invalid ''recovery claimant or time mismatch'')) (\<lambda>_.
     bind_r (map_err Op_Control (takeover (rb_control (re_basis e)) w)) (\<lambda>claimed.
     bind_r (if c_recovery claimed \<noteq> None
        then map_err Op_Control (validate_transition claimed (re_restored e) PublishRecovery)
        else reject_if (claimed \<noteq> re_restored e)
          (Op_Invalid ''recovery changed the pinned root without an overlay'')) (\<lambda>_.
     bind_r (recovery_position e) position_validate))))))"

definition evidence_new :: "fleet_env \<Rightarrow> recovery_basis \<Rightarrow> control \<Rightarrow> i64 \<Rightarrow> recovery_evidence op_result" where
  "evidence_new env basis restored recorded =
     (let e = \<lparr>re_basis = basis, re_restored = restored, re_recorded_at_ms = recorded\<rparr>
      in bind_r (evidence_validate env e) (\<lambda>_. Inr e))"

record recovered_activation =
  ra_recovery :: recovery_evidence
  ra_serving :: activation_evidence

definition recovered_validate :: "fleet_env \<Rightarrow> recovered_activation \<Rightarrow> unit op_result" where
  "recovered_validate env r =
     bind_r (evidence_validate env (ra_recovery r)) (\<lambda>_.
     bind_r (position_validate (av_position (ra_serving r))) (\<lambda>_.
     bind_r (recovery_position (ra_recovery r)) (\<lambda>required.
     let basis = re_basis (ra_recovery r); spec = rb_spec basis; serving = ra_serving r in
     reject_if (\<not> nonzero (node_bytes (av_node serving)) \<or> \<not> nonzero (session_bytes (av_session serving))
         \<or> av_node serving = sp_source_node spec \<or> av_session serving = sp_source spec
         \<or> pp_incarnation (av_position serving) \<noteq> sp_incarnation spec
         \<or> pp_epoch (av_position serving) < pp_epoch required
         \<or> (pp_epoch (av_position serving) = pp_epoch required
            \<and> (av_node serving \<noteq> rb_node basis \<or> av_session serving \<noteq> rb_session basis))
         \<or> \<not> successor_position (av_position serving) required
         \<or> (av_session serving = sp_destination spec \<and> av_node serving \<noteq> sp_destination_node spec))
       (Op_Invalid ''recovered successor lacks required position''))))"

subsection \<open>The attempt\<close>

record move_attempt =
  ma_spec :: move_attempt_spec
  ma_phase :: attempt_phase
  ma_reservation :: "receiver_reservation option"
  ma_released :: "published_position option"
  ma_activated :: "activation_evidence option"
  ma_recovered :: "recovered_activation option"
  ma_receiver_cleaned :: bool
  ma_blocker :: "drain_blocker option"
  ma_completed_at_ms :: "i64 option"

datatype attempt_event =
    BeginPrepare
  | Ev_Reserved receiver_reservation
  | BeginRelease
  | BeginMaintenanceRelease
  | ReleaseRefused drain_blocker
  | Ev_Released published_position
  | BeginActivate
  | BeginRecover
  | Ev_Recovered recovered_activation
  | Ev_Activated activation_evidence
  | Ev_OutcomeUnknown
  | BeginCancel
  | Ev_Cancelled
  | ReceiverCleaned

definition attempt_new :: "move_attempt_spec \<Rightarrow> move_attempt op_result" where
  "attempt_new spec =
     bind_r (spec_validate spec) (\<lambda>_. Inr \<lparr>ma_spec = spec, ma_phase = Planned, ma_reservation = None,
       ma_released = None, ma_activated = None, ma_recovered = None, ma_receiver_cleaned = False,
       ma_blocker = None, ma_completed_at_ms = None\<rparr>)"

definition activation_mismatch :: "move_attempt_spec \<Rightarrow> published_position \<Rightarrow> activation_evidence \<Rightarrow> bool" where
  "activation_mismatch spec prior e \<longleftrightarrow> \<not> nonzero (node_bytes (av_node e)) \<or> \<not> nonzero (session_bytes (av_session e))
     \<or> av_node e = sp_source_node spec \<or> av_session e = sp_source spec
     \<or> pp_incarnation (av_position e) \<noteq> pp_incarnation prior
     \<or> pp_epoch (av_position e) \<le> pp_epoch prior
     \<or> \<not> successor_position (av_position e) prior
     \<or> (av_session e = sp_destination spec \<and> av_node e \<noteq> sp_destination_node spec)"

definition validate_activation :: "move_attempt \<Rightarrow> activation_evidence \<Rightarrow> unit op_result" where
  "validate_activation a e =
     bind_r (position_validate (av_position e)) (\<lambda>_.
     bind_r (ok_or (Op_Invalid ''activation without release'') (ma_released a)) (\<lambda>prior.
     reject_if (activation_mismatch (ma_spec a) prior e) (Op_Invalid ''successor activation mismatch'')))"

definition terminal_phase :: "attempt_phase \<Rightarrow> bool" where
  "terminal_phase p \<longleftrightarrow> p \<in> {Activated, Recovered, Cancelled}"

definition dispatched_phase :: "attempt_phase \<Rightarrow> bool" where
  "dispatched_phase p \<longleftrightarrow> p \<in> {Preparing, Releasing, MaintenanceReleasing, Ap_Recovering, Activating,
     Cancelling, CleaningReceiver}"

text \<open>An effect is outstanding: in flight, or the cleanup of a superseded receiver.\<close>

definition pending_effect :: "move_attempt \<Rightarrow> bool" where
  "pending_effect a \<longleftrightarrow> dispatched_phase (ma_phase a)
     \<or> (ma_phase a \<in> {Activated, Recovered} \<and> \<not> ma_receiver_cleaned a)"

definition released_phase :: "attempt_phase \<Rightarrow> bool" where
  "released_phase p \<longleftrightarrow> p \<in> {Released, Activating, Activated, CleaningReceiver}"

definition admitted_phase :: "attempt_phase \<Rightarrow> bool" where
  "admitted_phase p \<longleftrightarrow> p \<in> {Reserved, Releasing, MaintenanceReleasing, Released, Activating, Activated,
     CleaningReceiver, Ap_Recovering, Recovered}"

definition stored_activation :: "move_attempt \<Rightarrow> activation_evidence \<Rightarrow> unit op_result" where
  "stored_activation a e =
     bind_r (position_validate (av_position e)) (\<lambda>_.
     bind_r (ok_or (Op_Invalid ''missing release evidence'') (ma_released a)) (\<lambda>p.
     reject_if (activation_mismatch (ma_spec a) p e) (Op_Invalid ''invalid stored activation'')))"

definition stored_recovery :: "fleet_env \<Rightarrow> move_attempt \<Rightarrow> recovered_activation \<Rightarrow> unit op_result" where
  "stored_recovery env a r =
     bind_r (recovered_validate env r) (\<lambda>_.
     bind_r (reject_if (rb_spec (re_basis (ra_recovery r)) \<noteq> ma_spec a)
       (Op_Invalid ''stored recovery input mismatch'')) (\<lambda>_.
     reject_if (case ma_completed_at_ms a of None \<Rightarrow> True | Some at \<Rightarrow> at < re_recorded_at_ms (ra_recovery r))
       (Op_Invalid ''recovery completion precedes evidence'')))"

definition stored_release :: "move_attempt \<Rightarrow> published_position \<Rightarrow> unit op_result" where
  "stored_release a p =
     bind_r (position_validate p) (\<lambda>_.
     reject_if (pp_incarnation p \<noteq> sp_incarnation (ma_spec a) \<or> pp_epoch p \<noteq> sp_source_epoch (ma_spec a))
       (Op_Invalid ''stored release scope mismatch''))"

definition check_opt :: "('a \<Rightarrow> unit op_result) \<Rightarrow> 'a option \<Rightarrow> unit op_result" where
  "check_opt f x = (case x of None \<Rightarrow> Inr () | Some v \<Rightarrow> f v)"

definition attempt_validate :: "fleet_env \<Rightarrow> move_attempt \<Rightarrow> unit op_result" where
  "attempt_validate env a =
     bind_r (spec_validate (ma_spec a)) (\<lambda>_.
     bind_r (reject_if (terminal_phase (ma_phase a) \<noteq> (ma_completed_at_ms a \<noteq> None)
         \<or> (case ma_completed_at_ms a of None \<Rightarrow> False | Some at \<Rightarrow> at < 0))
       (Op_Invalid ''movement completion time disagrees with phase'')) (\<lambda>_.
     bind_r (reject_if (ma_phase a \<in> {Planned, Preparing} \<and> ma_reservation a \<noteq> None)
       (Op_Invalid ''reservation precedes admission'')) (\<lambda>_.
     bind_r (reject_if (case ma_reservation a of None \<Rightarrow> False
         | Some r \<Rightarrow> rv_session r \<noteq> sp_destination (ma_spec a) \<or> rv_expires_at_ms r < 0)
       (Op_Invalid ''invalid stored reservation'')) (\<lambda>_.
     bind_r (reject_if (admitted_phase (ma_phase a) \<and> ma_reservation a = None)
       (Op_Invalid ''movement lost reservation'')) (\<lambda>_.
     bind_r (reject_if (released_phase (ma_phase a) \<noteq> (ma_released a \<noteq> None))
       (Op_Invalid ''movement release evidence disagrees with phase'')) (\<lambda>_.
     bind_r (check_opt (stored_release a) (ma_released a)) (\<lambda>_.
     bind_r (reject_if ((ma_phase a = Activated) \<noteq> (ma_activated a \<noteq> None))
       (Op_Invalid ''movement activation evidence disagrees with phase'')) (\<lambda>_.
     bind_r (check_opt (stored_activation a) (ma_activated a)) (\<lambda>_.
     bind_r (reject_if ((ma_phase a = Recovered) \<noteq> (ma_recovered a \<noteq> None))
       (Op_Invalid ''recovery evidence disagrees with phase'')) (\<lambda>_.
     bind_r (check_opt (stored_recovery env a) (ma_recovered a)) (\<lambda>_.
     bind_r (reject_if (ma_receiver_cleaned a
         \<and> ma_phase a \<notin> {Released, Activating, Activated, Cancelled, Recovered})
       (Op_Invalid ''premature reservation cleanup'')) (\<lambda>_.
     bind_r (reject_if (ma_phase a = Cancelled \<and> \<not> ma_receiver_cleaned a)
       (Op_Invalid ''cancelled work lacks cleanup'')) (\<lambda>_.
     reject_if (ma_blocker a = Some OutcomeUnknown \<and> \<not> pending_effect a)
       (Op_Invalid ''unknown outcome has no pending action''))))))))))))))"

definition next_action :: "move_attempt \<Rightarrow> movement_action" where
  "next_action a =
     (if ma_blocker a = Some OutcomeUnknown then Mv_Inspect
      else case ma_phase a of
        Planned \<Rightarrow> Mv_Prepare
      | Reserved \<Rightarrow> Mv_Release
      | Released \<Rightarrow> Mv_Activate
      | Preparing \<Rightarrow> Mv_Inspect | Releasing \<Rightarrow> Mv_Inspect | MaintenanceReleasing \<Rightarrow> Mv_Inspect
      | Activating \<Rightarrow> Mv_Inspect | Ap_Recovering \<Rightarrow> Mv_Inspect
      | Cancelling \<Rightarrow> Mv_Cancel | CleaningReceiver \<Rightarrow> Mv_Cancel
      | Activated \<Rightarrow> (if \<not> ma_receiver_cleaned a then Mv_Cancel else Mv_Retire)
      | Recovered \<Rightarrow> (if \<not> ma_receiver_cleaned a then Mv_Cancel else Mv_Retire)
      | Cancelled \<Rightarrow> Mv_Retire)"

definition can_retire :: "move_attempt \<Rightarrow> bool" where
  "can_retire a \<longleftrightarrow> ma_phase a = Cancelled
     \<or> (ma_phase a \<in> {Activated, Recovered} \<and> ma_receiver_cleaned a)"

subsection \<open>Events\<close>

definition require_admission :: "move_attempt \<Rightarrow> i64 \<Rightarrow> unit op_result" where
  "require_admission a now = reject_if (now \<ge> sp_deadline_ms (ma_spec a)) Op_Deadline"

definition reservation_expired :: "move_attempt \<Rightarrow> i64 \<Rightarrow> bool" where
  "reservation_expired a now = (case ma_reservation a of None \<Rightarrow> True | Some r \<Rightarrow> rv_expires_at_ms r \<le> now)"

definition differs :: "'a option \<Rightarrow> 'a \<Rightarrow> bool" where
  "differs old new = (case old of None \<Rightarrow> False | Some v \<Rightarrow> v \<noteq> new)"

definition get_or_insert :: "'a option \<Rightarrow> 'a \<Rightarrow> 'a option" where
  "get_or_insert old new = (case old of None \<Rightarrow> Some new | Some v \<Rightarrow> Some v)"

definition unproven_movement :: "move_attempt op_result" where
  "unproven_movement = Inl (Op_Invalid ''unproven movement transition'')"

definition begin_release :: "move_attempt \<Rightarrow> i64 \<Rightarrow> attempt_phase \<Rightarrow> move_attempt op_result" where
  "begin_release a now phase =
     (if ma_phase a = Reserved \<and> ma_blocker a \<noteq> Some OutcomeUnknown then
        bind_r (require_admission a now) (\<lambda>_.
        bind_r (reject_if (reservation_expired a now) (Op_Invalid ''receiver reservation expired'')) (\<lambda>_.
        Inr (a\<lparr>ma_phase := phase, ma_blocker := None\<rparr>)))
      else unproven_movement)"

fun attempt_event_step :: "fleet_env \<Rightarrow> move_attempt \<Rightarrow> i64 \<Rightarrow> attempt_event \<Rightarrow> move_attempt op_result" where
  "attempt_event_step env a now BeginPrepare =
     (if ma_phase a = Planned then
        bind_r (require_admission a now) (\<lambda>_. Inr (a\<lparr>ma_phase := Preparing\<rparr>))
      else unproven_movement)"
| "attempt_event_step env a now (Ev_Reserved r) =
     (if ma_phase a \<in> {Preparing, Reserved} then
        bind_r (reject_if (rv_session r \<noteq> sp_destination (ma_spec a) \<or> rv_expires_at_ms r \<le> now
            \<or> differs (ma_reservation a) r) (Op_Invalid ''receiver reservation mismatch'')) (\<lambda>_.
        Inr (a\<lparr>ma_reservation := Some r, ma_phase := Reserved, ma_blocker := None\<rparr>))
      else unproven_movement)"
| "attempt_event_step env a now BeginRelease = begin_release a now Releasing"
| "attempt_event_step env a now BeginMaintenanceRelease = begin_release a now MaintenanceReleasing"
| "attempt_event_step env a now (ReleaseRefused b) =
     (if ma_phase a \<in> {Releasing, MaintenanceReleasing} \<and> b \<noteq> OutcomeUnknown
      then Inr (a\<lparr>ma_phase := Reserved, ma_blocker := Some b\<rparr>) else unproven_movement)"
| "attempt_event_step env a now (Ev_Released p) =
     (if ma_phase a \<in> {Releasing, MaintenanceReleasing, Released} then
        bind_r (position_validate p) (\<lambda>_.
        bind_r (reject_if (pp_incarnation p \<noteq> sp_incarnation (ma_spec a)
            \<or> pp_epoch p \<noteq> sp_source_epoch (ma_spec a) \<or> differs (ma_released a) p)
          (Op_Invalid ''source release position mismatch'')) (\<lambda>_.
        Inr (a\<lparr>ma_released := Some p, ma_phase := Released, ma_blocker := None\<rparr>)))
      else unproven_movement)"
| "attempt_event_step env a now BeginRecover =
     (if ma_phase a \<in> {Releasing, MaintenanceReleasing}
      then Inr (a\<lparr>ma_phase := Ap_Recovering, ma_blocker := None\<rparr>) else unproven_movement)"
| "attempt_event_step env a now (Ev_Recovered r) =
     (if ma_phase a \<in> {Ap_Recovering, Recovered} then
        bind_r (recovered_validate env r) (\<lambda>_.
        bind_r (reject_if (rb_spec (re_basis (ra_recovery r)) \<noteq> ma_spec a
            \<or> re_recorded_at_ms (ra_recovery r) > now \<or> differs (ma_recovered a) r)
          (Op_Invalid ''recovery movement input mismatch'')) (\<lambda>_.
        Inr (a\<lparr>ma_recovered := Some r, ma_phase := Recovered,
               ma_completed_at_ms := get_or_insert (ma_completed_at_ms a) now, ma_blocker := None\<rparr>)))
      else unproven_movement)"
| "attempt_event_step env a now BeginActivate =
     (if ma_phase a = Released then Inr (a\<lparr>ma_phase := Activating, ma_blocker := None\<rparr>)
      else unproven_movement)"
| "attempt_event_step env a now (Ev_Activated e) =
     (if ma_phase a \<in> {Activating, Activated, CleaningReceiver} then
        bind_r (validate_activation a e) (\<lambda>_.
        bind_r (reject_if (differs (ma_activated a) e) (Op_Invalid ''successor activation mismatch'')) (\<lambda>_.
        Inr (a\<lparr>ma_activated := Some e, ma_phase := Activated,
               ma_completed_at_ms := get_or_insert (ma_completed_at_ms a) now, ma_blocker := None\<rparr>)))
      else unproven_movement)"
| "attempt_event_step env a now Ev_OutcomeUnknown =
     (if pending_effect a then Inr (a\<lparr>ma_blocker := Some OutcomeUnknown\<rparr>) else unproven_movement)"
| "attempt_event_step env a now BeginCancel =
     (if ma_phase a \<in> {Released, Activating, CleaningReceiver} \<and> \<not> ma_receiver_cleaned a
      then Inr (a\<lparr>ma_phase := CleaningReceiver, ma_blocker := None\<rparr>)
      else if ma_phase a \<in> {Planned, Preparing, Reserved, Cancelling}
      then Inr (a\<lparr>ma_phase := Cancelling, ma_blocker := None\<rparr>)
      else unproven_movement)"
| "attempt_event_step env a now Ev_Cancelled =
     (if ma_phase a \<in> {Cancelling, Cancelled}
      then Inr (a\<lparr>ma_phase := Cancelled, ma_completed_at_ms := get_or_insert (ma_completed_at_ms a) now,
                  ma_receiver_cleaned := True, ma_blocker := None\<rparr>)
      else unproven_movement)"
| "attempt_event_step env a now ReceiverCleaned =
     (if ma_phase a \<in> {Activated, Recovered} then Inr (a\<lparr>ma_receiver_cleaned := True, ma_blocker := None\<rparr>)
      else if ma_phase a = CleaningReceiver
      then Inr (a\<lparr>ma_receiver_cleaned := True, ma_phase := Released, ma_blocker := None\<rparr>)
      else unproven_movement)"

definition attempt_apply :: "fleet_env \<Rightarrow> move_attempt \<Rightarrow> attempt_event \<Rightarrow> i64 \<Rightarrow> move_attempt op_result" where
  "attempt_apply env a event now =
     bind_r (attempt_event_step env a now event) (\<lambda>b.
     bind_r (attempt_validate env b) (\<lambda>_. Inr b))"

text \<open>The effect whose acceptance the phase leaves open.\<close>

definition expected_effect :: "move_attempt \<Rightarrow> movement_action option" where
  "expected_effect a = (case ma_phase a of
       Preparing \<Rightarrow> Some Mv_Prepare
     | Releasing \<Rightarrow> Some Mv_Release
     | MaintenanceReleasing \<Rightarrow> Some Mv_ReleaseMaintenance
     | Activating \<Rightarrow> Some Mv_Activate
     | Ap_Recovering \<Rightarrow> Some Mv_Recover
     | Cancelling \<Rightarrow> Some Mv_Cancel | CleaningReceiver \<Rightarrow> Some Mv_Cancel
     | Activated \<Rightarrow> (if \<not> ma_receiver_cleaned a then Some Mv_Cancel else None)
     | Recovered \<Rightarrow> (if \<not> ma_receiver_cleaned a then Some Mv_Cancel else None)
     | _ \<Rightarrow> None)"

definition unaccepted_step :: "move_attempt \<Rightarrow> i64 \<Rightarrow> move_attempt" where
  "unaccepted_step a now =
     (if ma_phase a = Preparing \<and> now \<ge> sp_deadline_ms (ma_spec a)
      then a\<lparr>ma_phase := Cancelling, ma_blocker := None\<rparr>
      else if ma_phase a \<in> {Releasing, MaintenanceReleasing}
        \<and> (now \<ge> sp_deadline_ms (ma_spec a) \<or> reservation_expired a now)
      then a\<lparr>ma_phase := Reserved, ma_blocker := Some Db_Deadline\<rparr>
      else a\<lparr>ma_blocker := None\<rparr>)"

definition resolve_unaccepted :: "fleet_env \<Rightarrow> move_attempt \<Rightarrow> movement_action \<Rightarrow> i64 \<Rightarrow> move_attempt op_result" where
  "resolve_unaccepted env a effect now =
     bind_r (ok_or (Op_Invalid ''phase has no unresolved dispatch'') (expected_effect a)) (\<lambda>expected.
     bind_r (reject_if (effect \<noteq> expected
         \<or> (case ma_blocker a of None \<Rightarrow> False | Some b \<Rightarrow> b \<noteq> OutcomeUnknown))
       (Op_Invalid ''unaccepted effect disagrees with phase'')) (\<lambda>_.
     bind_r (attempt_validate env (unaccepted_step a now)) (\<lambda>_. Inr (unaccepted_step a now))))"

subsection \<open>What validation establishes\<close>

lemma check_opt_Inr [rust_simps]: "check_opt f x = Inr () \<longleftrightarrow> (\<forall>v. x = Some v \<longrightarrow> f v = Inr ())"
  by (cases x) (auto simp: check_opt_def)

lemmas phase_defs = terminal_phase_def dispatched_phase_def released_phase_def admitted_phase_def

lemma attempt_validate_Inr:
  "attempt_validate env a = Inr () \<longleftrightarrow> spec_validate (ma_spec a) = Inr ()
     \<and> (terminal_phase (ma_phase a) \<longleftrightarrow> ma_completed_at_ms a \<noteq> None)
     \<and> (\<forall>at. ma_completed_at_ms a = Some at \<longrightarrow> 0 \<le> at)
     \<and> (ma_phase a \<in> {Planned, Preparing} \<longrightarrow> ma_reservation a = None)
     \<and> (\<forall>r. ma_reservation a = Some r \<longrightarrow> rv_session r = sp_destination (ma_spec a) \<and> 0 \<le> rv_expires_at_ms r)
     \<and> (admitted_phase (ma_phase a) \<longrightarrow> ma_reservation a \<noteq> None)
     \<and> (released_phase (ma_phase a) \<longleftrightarrow> ma_released a \<noteq> None)
     \<and> (\<forall>p. ma_released a = Some p \<longrightarrow> stored_release a p = Inr ())
     \<and> (ma_phase a = Activated \<longleftrightarrow> ma_activated a \<noteq> None)
     \<and> (\<forall>e. ma_activated a = Some e \<longrightarrow> stored_activation a e = Inr ())
     \<and> (ma_phase a = Recovered \<longleftrightarrow> ma_recovered a \<noteq> None)
     \<and> (\<forall>r. ma_recovered a = Some r \<longrightarrow> stored_recovery env a r = Inr ())
     \<and> (ma_receiver_cleaned a \<longrightarrow> ma_phase a \<in> {Released, Activating, Activated, Cancelled, Recovered})
     \<and> (ma_phase a = Cancelled \<longrightarrow> ma_receiver_cleaned a)
     \<and> (ma_blocker a = Some OutcomeUnknown \<longrightarrow> pending_effect a)"
  by (simp add: attempt_validate_def rust_simps not_less split: option.splits)

lemma stored_release_Inr:
  "stored_release a p = Inr () \<longleftrightarrow> position_validate p = Inr ()
     \<and> pp_incarnation p = sp_incarnation (ma_spec a) \<and> pp_epoch p = sp_source_epoch (ma_spec a)"
  by (auto simp: stored_release_def rust_simps)

lemma stored_activation_Inr:
  "stored_activation a e = Inr () \<longleftrightarrow> validate_activation a e = Inr ()"
  by (auto simp: stored_activation_def validate_activation_def rust_simps)

subsection \<open>What every event keeps\<close>

inductive attempt_step :: "fleet_env \<Rightarrow> move_attempt \<Rightarrow> move_attempt \<Rightarrow> bool" for env where
  event: "attempt_validate env a = Inr () \<Longrightarrow> attempt_apply env a ev now = Inr b \<Longrightarrow> attempt_step env a b"
| absent: "attempt_validate env a = Inr () \<Longrightarrow> resolve_unaccepted env a effect now = Inr b
    \<Longrightarrow> attempt_step env a b"

definition keeps :: "'a option \<Rightarrow> 'a option \<Rightarrow> bool" where
  "keeps x y \<longleftrightarrow> (\<forall>v. x = Some v \<longrightarrow> y = Some v)"

lemma keeps_refl [simp]: "keeps x x"
  by (simp add: keeps_def)

lemma keeps_differs: "\<not> differs x v \<Longrightarrow> keeps x (Some v)"
  by (auto simp: keeps_def differs_def)

lemma keeps_get_or_insert [simp]: "keeps x (get_or_insert x v)"
  by (auto simp: keeps_def get_or_insert_def)

lemma keeps_trans: "keeps x y \<Longrightarrow> keeps y z \<Longrightarrow> keeps x z"
  by (simp add: keeps_def)

definition unblocked :: "move_attempt \<Rightarrow> move_attempt" where
  "unblocked a = a\<lparr>ma_blocker := None\<rparr>"

definition attempt_le :: "move_attempt \<Rightarrow> move_attempt \<Rightarrow> bool" where
  "attempt_le a b \<longleftrightarrow> ma_spec b = ma_spec a
     \<and> keeps (ma_reservation a) (ma_reservation b) \<and> keeps (ma_released a) (ma_released b)
     \<and> keeps (ma_activated a) (ma_activated b) \<and> keeps (ma_recovered a) (ma_recovered b)
     \<and> keeps (ma_completed_at_ms a) (ma_completed_at_ms b)
     \<and> (ma_receiver_cleaned a \<longrightarrow> ma_receiver_cleaned b)
     \<and> (can_retire a \<longrightarrow> unblocked b = unblocked a)"

lemma unblocked_simps [simp]:
  "ma_phase (unblocked a) = ma_phase a" "ma_receiver_cleaned (unblocked a) = ma_receiver_cleaned a"
  by (simp_all add: unblocked_def)

lemma can_retire_unblocked: "unblocked b = unblocked a \<Longrightarrow> can_retire b = can_retire a"
  unfolding can_retire_def by (metis unblocked_simps)

lemma event_keeps_evidence:
  assumes "attempt_event_step env a now ev = Inr b"
  shows "ma_spec b = ma_spec a" "keeps (ma_reservation a) (ma_reservation b)"
    "keeps (ma_released a) (ma_released b)" "keeps (ma_activated a) (ma_activated b)"
    "keeps (ma_recovered a) (ma_recovered b)" "keeps (ma_completed_at_ms a) (ma_completed_at_ms b)"
    "ma_receiver_cleaned a \<longrightarrow> ma_receiver_cleaned b"
  using assms
  by (cases ev; auto simp: begin_release_def unproven_movement_def bind_r_Inr reject_if_Inr
      intro: keeps_differs split: if_splits)+

lemma differs_Some: "x \<noteq> None \<Longrightarrow> \<not> differs x v \<Longrightarrow> x = Some v"
  by (auto simp: differs_def)

lemma get_or_insert_Some: "x \<noteq> None \<Longrightarrow> get_or_insert x v = x"
  by (auto simp: get_or_insert_def)

text \<open>A terminal attempt whose receiver is cleaned only takes repeated replies.\<close>

lemma settled_events:
  assumes "attempt_event_step env a now ev = Inr b" "ma_phase a \<in> {Activated, Recovered, Cancelled}"
    and "ma_receiver_cleaned a"
  shows "(\<exists>e. ev = Ev_Activated e) \<or> (\<exists>r. ev = Ev_Recovered r) \<or> ev = Ev_Cancelled \<or> ev = ReceiverCleaned"
  using assms by (cases ev) (auto simp: begin_release_def unproven_movement_def
      pending_effect_def dispatched_phase_def split: if_splits)

lemma repeated_activation:
  assumes "attempt_event_step env a now (Ev_Activated e) = Inr b" and "ma_completed_at_ms a \<noteq> None"
    and "ma_phase a = Activated" "ma_activated a \<noteq> None"
  shows "unblocked b = unblocked a"
proof -
  have "ma_activated a = Some e" "b = a\<lparr>ma_activated := Some e, ma_phase := Activated, ma_blocker := None\<rparr>"
    using assms by (simp_all add: bind_r_Inr reject_if_Inr get_or_insert_Some differs_Some)
  then show ?thesis
    using assms(3) by (simp add: unblocked_def)
qed

lemma repeated_recovery:
  assumes "attempt_event_step env a now (Ev_Recovered r) = Inr b" and "ma_completed_at_ms a \<noteq> None"
    and "ma_phase a = Recovered" "ma_recovered a \<noteq> None"
  shows "unblocked b = unblocked a"
proof -
  have "ma_recovered a = Some r" "b = a\<lparr>ma_recovered := Some r, ma_phase := Recovered, ma_blocker := None\<rparr>"
    using assms by (simp_all add: bind_r_Inr reject_if_Inr get_or_insert_Some differs_Some)
  then show ?thesis
    using assms(3) by (simp add: unblocked_def)
qed

lemma settled_event:
  assumes "attempt_validate env a = Inr ()" and "attempt_event_step env a now ev = Inr b" and "can_retire a"
  shows "unblocked b = unblocked a"
proof -
  note valid = assms(1) [unfolded attempt_validate_Inr]
  have v: "ma_phase a \<in> {Activated, Recovered, Cancelled}" "ma_receiver_cleaned a"
    using valid assms(3) unfolding can_retire_def by blast+
  then have v3: "ma_completed_at_ms a \<noteq> None"
    using valid unfolding terminal_phase_def by blast
  have v4: "ma_phase a = Activated \<Longrightarrow> ma_activated a \<noteq> None"
    and v5: "ma_phase a = Recovered \<Longrightarrow> ma_recovered a \<noteq> None"
    using valid by blast+
  consider e where "ev = Ev_Activated e" | r where "ev = Ev_Recovered r" | "ev = Ev_Cancelled" | "ev = ReceiverCleaned"
    using settled_events [OF assms(2) v(1,2)] by blast
  then show ?thesis
  proof cases
    case (1 e)
    then have "ma_phase a = Activated"
      using assms(2) v(1) by (auto simp: unproven_movement_def split: if_splits)
    with v3 v4 v5 show ?thesis
      by (intro repeated_activation [OF assms(2) [unfolded 1]]) blast+
  next
    case (2 r)
    then have "ma_phase a = Recovered"
      using assms(2) v(1) by (auto simp: unproven_movement_def split: if_splits)
    with v3 v4 v5 show ?thesis
      by (intro repeated_recovery [OF assms(2) [unfolded 2]]) blast+
  next
    case 3
    then have "ma_phase a = Cancelled"
      using assms(2) v(1) by (auto simp: unproven_movement_def split: if_splits)
    moreover have "b = a\<lparr>ma_phase := Cancelled, ma_receiver_cleaned := True, ma_blocker := None\<rparr>"
      using \<open>ma_phase a = Cancelled\<close> 3 assms(2) v3 by (simp add: get_or_insert_Some)
    ultimately show ?thesis
      using v(2) by (simp add: unblocked_def)
  next
    case 4
    then have "b = a\<lparr>ma_receiver_cleaned := True, ma_blocker := None\<rparr>"
      using assms(2) v(1) by (auto simp: unproven_movement_def split: if_splits)
    then show ?thesis
      using v(2) by (simp add: unblocked_def)
  qed
qed

lemma unaccepted_keeps:
  assumes "resolve_unaccepted env a effect now = Inr b"
  shows "attempt_le a b"
proof -
  have b: "b = unaccepted_step a now" and "expected_effect a \<noteq> None"
    using assms by (auto simp: resolve_unaccepted_def rust_simps)
  then have "\<not> can_retire a"
    by (auto simp: expected_effect_def can_retire_def split: attempt_phase.splits if_splits)
  then show ?thesis
    unfolding b by (auto simp: attempt_le_def unaccepted_step_def)
qed

lemma attempt_step_le: "attempt_step env a b \<Longrightarrow> attempt_le a b"
proof (induction rule: attempt_step.induct)
  case (event a ev now b)
  then have step: "attempt_event_step env a now ev = Inr b"
    by (auto simp: attempt_apply_def rust_simps)
  show ?case
    using event_keeps_evidence [OF step] settled_event [OF event(1) step] by (simp add: attempt_le_def)
next
  case (absent a effect now b)
  then show ?case
    using unaccepted_keeps by blast
qed

lemma attempt_le_trans: "attempt_le a b \<Longrightarrow> attempt_le b c \<Longrightarrow> attempt_le a c"
  unfolding attempt_le_def by (auto intro: keeps_trans dest: can_retire_unblocked)

interpretation attempts: ratchet "attempt_step env" attempt_le for env
  by unfold_locales (erule attempt_step_le | erule attempt_le_trans, assumption | simp add: attempt_le_def)+

interpretation valid_attempts: preserved "attempt_step env" "\<lambda>a. attempt_validate env a = Inr ()" for env
  by unfold_locales (auto simp: attempt_step.simps attempt_apply_def resolve_unaccepted_def rust_simps)

end
