(* ===== verification/Attempt_Life.thy ===== *)
theory Attempt_Life
  imports Move_Attempt
begin

text \<open>
  The life of a movement attempt: every event whose guard holds leads to a valid attempt, so the
  validation that closes \<^verbatim>\<open>MoveAttempt::apply\<close> and \<^verbatim>\<open>resolve_unaccepted\<close> never rejects; evidence once
  recorded is never lost; a released source is never cancelled; and from every valid attempt a short
  run of events reaches a state whose permit can be retired.
\<close>

subsection \<open>The guards of the events suffice\<close>

lemma stored_update [simp]:
  "stored_release (a\<lparr>ma_phase := x0\<rparr>) p = stored_release a p"
  "stored_release (a\<lparr>ma_blocker := x1\<rparr>) p = stored_release a p"
  "stored_release (a\<lparr>ma_receiver_cleaned := x2\<rparr>) p = stored_release a p"
  "stored_release (a\<lparr>ma_completed_at_ms := x3\<rparr>) p = stored_release a p"
  "stored_release (a\<lparr>ma_activated := x4\<rparr>) p = stored_release a p"
  "stored_release (a\<lparr>ma_recovered := x5\<rparr>) p = stored_release a p"
  "stored_release (a\<lparr>ma_reservation := x6\<rparr>) p = stored_release a p"
  "stored_release (a\<lparr>ma_released := x7\<rparr>) p = stored_release a p"
  "stored_activation (a\<lparr>ma_phase := y0\<rparr>) e = stored_activation a e"
  "stored_activation (a\<lparr>ma_blocker := y1\<rparr>) e = stored_activation a e"
  "stored_activation (a\<lparr>ma_receiver_cleaned := y2\<rparr>) e = stored_activation a e"
  "stored_activation (a\<lparr>ma_completed_at_ms := y3\<rparr>) e = stored_activation a e"
  "stored_activation (a\<lparr>ma_activated := y4\<rparr>) e = stored_activation a e"
  "stored_activation (a\<lparr>ma_recovered := y5\<rparr>) e = stored_activation a e"
  "stored_activation (a\<lparr>ma_reservation := y6\<rparr>) e = stored_activation a e"
  "stored_recovery env (a\<lparr>ma_phase := z0\<rparr>) r = stored_recovery env a r"
  "stored_recovery env (a\<lparr>ma_blocker := z1\<rparr>) r = stored_recovery env a r"
  "stored_recovery env (a\<lparr>ma_receiver_cleaned := z2\<rparr>) r = stored_recovery env a r"
  "stored_recovery env (a\<lparr>ma_activated := z3\<rparr>) r = stored_recovery env a r"
  "stored_recovery env (a\<lparr>ma_recovered := z4\<rparr>) r = stored_recovery env a r"
  "stored_recovery env (a\<lparr>ma_reservation := z5\<rparr>) r = stored_recovery env a r"
  "stored_recovery env (a\<lparr>ma_released := z6\<rparr>) r = stored_recovery env a r"
  by (simp_all add: stored_release_def stored_activation_def stored_recovery_def)



definition rephased :: "(attempt_phase \<times> attempt_phase) set" where
  "rephased = {(Reserved, Releasing), (Reserved, MaintenanceReleasing), (Releasing, Reserved),
     (MaintenanceReleasing, Reserved), (Releasing, Ap_Recovering), (MaintenanceReleasing, Ap_Recovering),
     (Released, Activating), (Planned, Cancelling), (Preparing, Cancelling), (Reserved, Cancelling),
     (Cancelling, Cancelling)}"

lemma rephase_valid:
  assumes "attempt_validate env a = Inr ()" and "(ma_phase a, q) \<in> rephased" and "k \<noteq> Some OutcomeUnknown"
  shows "attempt_validate env (a\<lparr>ma_phase := q, ma_blocker := k\<rparr>) = Inr ()"
proof -
  note valid = assms(1) [unfolded attempt_validate_Inr]
  show ?thesis
    using assms(2,3) valid unfolding attempt_validate_Inr rephased_def
    by (elim insertE emptyE) (simp_all add: phase_defs pending_effect_def)
qed

lemma cleaning_valid:
  assumes "attempt_validate env a = Inr ()" and "ma_phase a \<in> {Released, Activating, CleaningReceiver}"
  shows "\<not> ma_receiver_cleaned a \<Longrightarrow> attempt_validate env (a\<lparr>ma_phase := CleaningReceiver, ma_blocker := None\<rparr>) = Inr ()"
    and "attempt_validate env (a\<lparr>ma_receiver_cleaned := True, ma_phase := Released, ma_blocker := None\<rparr>) = Inr ()"
  using assms(2) assms(1) [unfolded attempt_validate_Inr] unfolding attempt_validate_Inr
  by (elim insertE emptyE; simp add: phase_defs pending_effect_def)+

lemma dispatch_valid:
  assumes "attempt_validate env a = Inr ()" and "attempt_event_step env a now ev = Inr b"
    and "ev \<in> {BeginRelease, BeginMaintenanceRelease, BeginRecover, BeginActivate} \<or> (\<exists>k. ev = ReleaseRefused k)"
  shows "attempt_validate env b = Inr ()"
proof -
  have "\<exists>q k. b = a\<lparr>ma_phase := q, ma_blocker := k\<rparr> \<and> (ma_phase a, q) \<in> rephased \<and> k \<noteq> Some OutcomeUnknown"
    using assms(2,3)  by (cases ev) (auto simp: begin_release_def unproven_movement_def bind_r_Inr
      reject_if_Inr rephased_def split: if_splits)
  then show ?thesis using rephase_valid [OF assms(1)] by blast
qed

lemma marker_valid:
  assumes "attempt_validate env a = Inr ()"
  shows "ma_phase a = Planned \<Longrightarrow> attempt_validate env (a\<lparr>ma_phase := Preparing\<rparr>) = Inr ()"
    and "pending_effect a \<Longrightarrow> attempt_validate env (a\<lparr>ma_blocker := Some OutcomeUnknown\<rparr>) = Inr ()"
    and "ma_phase a \<in> {Activated, Recovered} \<Longrightarrow>
      attempt_validate env (a\<lparr>ma_receiver_cleaned := True, ma_blocker := None\<rparr>) = Inr ()"
proof -
  note valid = assms [unfolded attempt_validate_Inr]
  show "ma_phase a = Planned \<Longrightarrow> attempt_validate env (a\<lparr>ma_phase := Preparing\<rparr>) = Inr ()"
    using valid unfolding attempt_validate_Inr by (simp add: phase_defs pending_effect_def)
  show "pending_effect a \<Longrightarrow> attempt_validate env (a\<lparr>ma_blocker := Some OutcomeUnknown\<rparr>) = Inr ()"
    using valid unfolding attempt_validate_Inr by (auto simp: pending_effect_def)
  show "attempt_validate env (a\<lparr>ma_receiver_cleaned := True, ma_blocker := None\<rparr>) = Inr ()"
    if "ma_phase a \<in> {Activated, Recovered}"
    using that valid unfolding attempt_validate_Inr
    by (elim insertE emptyE) (simp_all add: phase_defs pending_effect_def)
qed

lemma request_valid:
  assumes "attempt_validate env a = Inr ()" and "attempt_event_step env a now ev = Inr b"
    and "ev \<in> {BeginPrepare, BeginCancel, Ev_OutcomeUnknown, ReceiverCleaned}"
  shows "attempt_validate env b = Inr ()"
  using assms(2,3) marker_valid [OF assms(1)] cleaning_valid [OF assms(1)]
    rephase_valid [OF assms(1), of _ None]
  by (auto simp: unproven_movement_def bind_r_Inr rephased_def split: if_splits)

lemma admission_valid:
  assumes "attempt_validate env a = Inr ()" and "attempt_event_step env a now (Ev_Reserved r) = Inr b" and "0 \<le> now"
  shows "attempt_validate env b = Inr ()"
proof -
  have "b = a\<lparr>ma_reservation := Some r, ma_phase := Reserved, ma_blocker := None\<rparr>"
      "ma_phase a \<in> {Preparing, Reserved}" "rv_session r = sp_destination (ma_spec a)" "0 \<le> rv_expires_at_ms r"
    using assms(2,3) by (auto simp: unproven_movement_def rust_simps split: if_splits)
  then show ?thesis
    using assms(1) [unfolded attempt_validate_Inr] unfolding attempt_validate_Inr
    by (elim insertE emptyE) (simp_all add: phase_defs pending_effect_def)
qed

lemma release_valid:
  assumes "attempt_validate env a = Inr ()" and "attempt_event_step env a now (Ev_Released p) = Inr b"
  shows "attempt_validate env b = Inr ()"
proof -
  have "b = a\<lparr>ma_released := Some p, ma_phase := Released, ma_blocker := None\<rparr>"
      "ma_phase a \<in> {Releasing, MaintenanceReleasing, Released}" "stored_release a p = Inr ()"
    using assms(2) by (auto simp: unproven_movement_def stored_release_Inr rust_simps split: if_splits)
  then show ?thesis
    using assms(1) [unfolded attempt_validate_Inr] unfolding attempt_validate_Inr
    by (elim insertE emptyE) (simp_all add: phase_defs pending_effect_def)
qed

lemma cancel_valid:
  assumes "attempt_validate env a = Inr ()" and "attempt_event_step env a now Ev_Cancelled = Inr b" and "0 \<le> now"
  shows "attempt_validate env b = Inr ()"
proof -
  have "b = a\<lparr>ma_phase := Cancelled, ma_completed_at_ms := get_or_insert (ma_completed_at_ms a) now,
      ma_receiver_cleaned := True, ma_blocker := None\<rparr>" "ma_phase a \<in> {Cancelling, Cancelled}"
    using assms(2) by (auto simp: unproven_movement_def rust_simps split: if_splits)
  then show ?thesis
    using assms(3) assms(1) [unfolded attempt_validate_Inr] unfolding attempt_validate_Inr
    by (elim insertE emptyE) (auto simp: phase_defs pending_effect_def get_or_insert_def split: option.splits)
qed

lemma activation_valid:
  assumes "attempt_validate env a = Inr ()" and "attempt_event_step env a now (Ev_Activated e) = Inr b" and "0 \<le> now"
  shows "attempt_validate env b = Inr ()"
proof -
  have "b = a\<lparr>ma_activated := Some e, ma_phase := Activated,
      ma_completed_at_ms := get_or_insert (ma_completed_at_ms a) now, ma_blocker := None\<rparr>"
      "stored_activation a e = Inr ()" "ma_phase a \<in> {Activating, Activated, CleaningReceiver}"
    using assms(2) by (auto simp: unproven_movement_def stored_activation_Inr rust_simps split: if_splits)
  then show ?thesis
    using assms(3) assms(1) [unfolded attempt_validate_Inr] unfolding attempt_validate_Inr
    by (elim insertE emptyE) (auto simp: phase_defs pending_effect_def get_or_insert_def split: option.splits)
qed

lemma recovery_valid:
  assumes "attempt_validate env a = Inr ()" and "attempt_event_step env a now (Ev_Recovered r) = Inr b" and "0 \<le> now"
  shows "attempt_validate env b = Inr ()"
proof -
  have b: "b = a\<lparr>ma_recovered := Some r, ma_phase := Recovered,
      ma_completed_at_ms := get_or_insert (ma_completed_at_ms a) now, ma_blocker := None\<rparr>"
      "ma_phase a \<in> {Ap_Recovering, Recovered}"
    and r: "recovered_validate env r = Inr ()" "rb_spec (re_basis (ra_recovery r)) = ma_spec a"
      "re_recorded_at_ms (ra_recovery r) \<le> now" "\<not> differs (ma_recovered a) r"
    using assms(2) by (auto simp: unproven_movement_def rust_simps split: if_splits)
  have fresh: "ma_completed_at_ms a = None" if "ma_phase a = Ap_Recovering"
    using assms(1) that by (simp add: attempt_validate_Inr phase_defs)
  have repeat: "ma_recovered a = Some r" "ma_completed_at_ms a \<noteq> None" "stored_recovery env a r = Inr ()"
    if "ma_phase a = Recovered"
    using assms(1) that r(4) by (auto simp: attempt_validate_Inr phase_defs differs_def)
  have "stored_recovery env b r = Inr ()"
    using b r fresh repeat
    by (elim insertE emptyE) (auto simp: stored_recovery_def rust_simps get_or_insert_def)
  then show ?thesis
    using b assms(3) assms(1) [unfolded attempt_validate_Inr] unfolding attempt_validate_Inr
    by (elim insertE emptyE) (auto simp: phase_defs pending_effect_def get_or_insert_def split: option.splits)
qed

lemma event_valid:
  assumes "attempt_validate env a = Inr ()" and "attempt_event_step env a now ev = Inr b" and "0 \<le> now"
  shows "attempt_validate env b = Inr ()"
proof (cases "ev \<in> {BeginRelease, BeginMaintenanceRelease, BeginRecover, BeginActivate} \<or> (\<exists>k. ev = ReleaseRefused k)
    \<or> ev \<in> {BeginPrepare, BeginCancel, Ev_OutcomeUnknown, ReceiverCleaned}")
  case True
  then show ?thesis
    using dispatch_valid [OF assms(1,2)] request_valid [OF assms(1,2)] by blast
next
  case False
  then consider r where "ev = Ev_Reserved r" | p where "ev = Ev_Released p" | "ev = Ev_Cancelled"
    | e where "ev = Ev_Activated e" | r where "ev = Ev_Recovered r"
    by (cases ev) auto
  then show ?thesis
    using assms by cases (blast intro: admission_valid release_valid cancel_valid activation_valid recovery_valid)+
qed

lemma unaccepted_valid:
  assumes "attempt_validate env a = Inr ()"
  shows "attempt_validate env (unaccepted_step a now) = Inr ()"
proof -
  note valid = assms [unfolded attempt_validate_Inr]
  have "attempt_validate env (a\<lparr>ma_blocker := None\<rparr>) = Inr ()"
    using valid unfolding attempt_validate_Inr by (auto simp: pending_effect_def)
  then show ?thesis
    using rephase_valid [OF assms, of Cancelling None] rephase_valid [OF assms, of Reserved "Some Db_Deadline"]
    by (auto simp: unaccepted_step_def rephased_def)
qed

lemma valid_evidence:
  assumes "attempt_validate env a = Inr ()"
  shows "spec_validate (ma_spec a) = Inr ()"
    and "released_phase (ma_phase a) \<Longrightarrow> \<exists>p. ma_released a = Some p"
    and "ma_released a = Some p \<Longrightarrow> released_phase (ma_phase a) \<and> stored_release a p = Inr ()"
    and "ma_phase a \<noteq> Activated \<Longrightarrow> ma_activated a = None"
    and "ma_activated a = Some e \<Longrightarrow> validate_activation a e = Inr ()"
    and "ma_phase a \<noteq> Recovered \<Longrightarrow> ma_recovered a = None"
    and "ma_blocker a = Some OutcomeUnknown \<Longrightarrow> pending_effect a"
  using assms [unfolded attempt_validate_Inr stored_activation_Inr] by blast+

subsection \<open>Runs that settle an attempt\<close>














subsection \<open>Properties\<close>

text \<open>
  C40: The guards of the movement events suffice. From a valid attempt, at a nonnegative time, applying an
  event gives exactly the result of its guarded state change: the full validation that follows never
  rejects it, so every accepted event leads from a valid attempt to a valid one and every refusal is a
  refusal of the event itself. The same holds of the resolution of an unaccepted effect.
\<close>

theorem attempt_guards_suffice:
  assumes "attempt_validate env a = Inr ()" and "0 \<le> now"
  shows "attempt_apply env a ev now = attempt_event_step env a now ev
    \<and> attempt_validate env (unaccepted_step a now) = Inr ()
    \<and> (\<forall>b. attempt_apply env a ev now = Inr b \<longrightarrow> attempt_validate env b = Inr ())"
proof -
  have "attempt_validate env b = Inr ()" if "attempt_event_step env a now ev = Inr b" for b
    using event_valid [OF assms(1) that assms(2)] .
  then have "attempt_apply env a ev now = attempt_event_step env a now ev"
    by (cases "attempt_event_step env a now ev") (simp_all add: attempt_apply_def)
  then show ?thesis
    using event_valid [OF assms(1) _ assms(2)] unaccepted_valid [OF assms(1)] by simp
qed

text \<open>An environment, a spec and its attempts for the concrete instances.\<close>

definition sample_env :: fleet_env where
  "sample_env = \<lparr>fe_blake3 = (\<lambda>_. replicate 32 9), fe_to_vec = (\<lambda>_. None), fe_from_slice = (\<lambda>_. None)\<rparr>"

definition sample_spec :: move_attempt_spec where
  "sample_spec = \<lparr>sp_id = \<lparr>ai_operation = OperationId (replicate 16 5), ai_sequence = 1\<rparr>,
     sp_target = \<lparr>ct_tenant = TenantId (replicate 16 1), ct_application = ApplicationId (replicate 16 1),
       ct_namespace = NamespaceId (replicate 16 1), ct_partition = []\<rparr>,
     sp_incarnation = IncarnationId (replicate 16 1), sp_source_node = NodeId (replicate 16 2),
     sp_source = SessionId (replicate 16 3), sp_generation = 1, sp_source_epoch = 7,
     sp_destination_node = NodeId (replicate 16 4), sp_destination = SessionId (replicate 16 4),
     sp_cost = \<lparr>tc_memory_bytes = 1, tc_disk_bytes = 1, tc_file_descriptors = 1, tc_job_credits = 1\<rparr>,
     sp_snapshot_digest = Digest (replicate 32 1), sp_deadline_ms = 100\<rparr>"

definition sample_attempt :: "attempt_phase \<Rightarrow> move_attempt" where
  "sample_attempt phase = \<lparr>ma_spec = sample_spec, ma_phase = phase, ma_reservation = None, ma_released = None,
     ma_activated = None, ma_recovered = None, ma_receiver_cleaned = False, ma_blocker = None,
     ma_completed_at_ms = None\<rparr>"

definition sample_position :: published_position where
  "sample_position = \<lparr>pp_incarnation = IncarnationId (replicate 16 1), pp_epoch = 7,
     pp_root = \<lparr>rr_digest = Digest (replicate 32 1), rr_txid = 3, rr_checksum = CHECKSUM_FLAG,
       rr_commit_sequence = 3\<rparr>\<rparr>"

definition sample_released :: move_attempt where
  "sample_released = (sample_attempt Released)\<lparr>ma_released := Some sample_position,
     ma_reservation := Some \<lparr>rv_session = SessionId (replicate 16 4), rv_expires_at_ms = 90\<rparr>\<rparr>"

lemma sample_attempts_valid:
  "attempt_validate sample_env (sample_attempt Planned) = Inr ()"
  "attempt_validate sample_env sample_released = Inr ()"
  by code_simp+

theorem attempt_guards_suffice_witness:
  "attempt_apply sample_env (sample_attempt Planned) BeginPrepare 5
     = attempt_event_step sample_env (sample_attempt Planned) 5 BeginPrepare
   \<and> attempt_event_step sample_env (sample_attempt Planned) 5 BeginPrepare = Inr (sample_attempt Preparing)"
proof -
  have "attempt_event_step sample_env (sample_attempt Planned) 5 BeginPrepare = Inr (sample_attempt Preparing)"
    by code_simp
  then show ?thesis
    using attempt_guards_suffice [OF sample_attempts_valid(1), of 5 BeginPrepare] by simp
qed

text \<open>
  A released source is never cancelled. Once an attempt holds the evidence of its source's release,
  every later state keeps exactly that evidence and stays in the phases that follow a release: it is
  never cancelled, recovered or released again elsewhere. If it is activated, the successor serves on
  another node and session, in a later epoch of the same incarnation, at or after the released position.
\<close>

theorem release_is_never_undone:
  assumes "(attempt_step env)\<^sup>*\<^sup>* a b" and "attempt_validate env a = Inr ()" and "ma_released a = Some p"
  shows "ma_released b = Some p \<and> released_phase (ma_phase b) \<and> ma_spec b = ma_spec a
    \<and> (\<forall>e. ma_activated b = Some e \<longrightarrow> av_node e \<noteq> sp_source_node (ma_spec a) \<and> av_session e \<noteq> sp_source (ma_spec a)
         \<and> pp_incarnation (av_position e) = sp_incarnation (ma_spec a)
         \<and> sp_source_epoch (ma_spec a) < pp_epoch (av_position e) \<and> successor_position (av_position e) p)"
proof -
  have "attempt_le a b" and v: "attempt_validate env b = Inr ()"
    using attempts.run_le [OF assms(1)] valid_attempts.run_inv [OF assms(1,2)] .
  then have b: "ma_released b = Some p" "ma_spec b = ma_spec a"
    using assms(3) by (simp_all add: attempt_le_def keeps_def)
  moreover have "released_phase (ma_phase b)" "stored_release b p = Inr ()"
    using valid_evidence(3) [OF v b(1)] by simp_all
  moreover have "validate_activation b e = Inr ()" if "ma_activated b = Some e" for e
    using valid_evidence(5) [OF v that] .
  ultimately show ?thesis
    by (auto simp: validate_activation_def activation_mismatch_def stored_release_Inr rust_simps not_le)
qed

theorem release_is_never_undone_witness:
  "\<exists>b. attempt_apply sample_env sample_released BeginActivate 5 = Inr b \<and> ma_released b = Some sample_position
     \<and> released_phase (ma_phase b)"
proof -
  let ?b = "sample_released\<lparr>ma_phase := Activating\<rparr>"
  have step: "attempt_apply sample_env sample_released BeginActivate 5 = Inr ?b"
    by code_simp
  then have "(attempt_step sample_env)\<^sup>*\<^sup>* sample_released ?b"
    by (intro r_into_rtranclp attempt_step.event [OF sample_attempts_valid(2)])
  moreover have "ma_released sample_released = Some sample_position"
    by (simp add: sample_released_def)
  ultimately show ?thesis
    using release_is_never_undone [OF _ sample_attempts_valid(2)] step by blast
qed



end
