(* ===== verification/Fleet_Codec.thy ===== *)
theory Fleet_Codec
  imports Attempt_Life
begin

text \<open>
  The bounded records of the fleet journal, \<^verbatim>\<open>crates/cellule-runtime/src/fleet/operations/codec\<close>:
  the envelope of a record and its shared fields (\<^verbatim>\<open>mod.rs\<close>), movement attempts (\<^verbatim>\<open>attempt.rs\<close>),
  recovery evidence (\<^verbatim>\<open>recovery.rs\<close>) and scopes (\<^verbatim>\<open>pages.rs\<close>), over the bounded wire codec.

  A writer appends fields in order and stops at the first error; \<open>write_all\<close> is that sequence.
  The contract of a record is the locale \<open>record_codec\<close>: writing a well-formed value appends its
  wire bytes, and reading accepts exactly the wire bytes of well-formed values. Each record of the
  journal is an interpretation.
\<close>

definition DOMAIN :: bytes where "DOMAIN = ascii ''cellule.fleet-operation'' @ [0]"
definition FORMAT_VERSION :: u8 where "FORMAT_VERSION = 1"
definition HEAD :: u8 where "HEAD = 1"
definition ATTEMPT :: u8 where "ATTEMPT = 2"
definition MAINTENANCE :: u8 where "MAINTENANCE = 3"
definition INTENT :: u8 where "INTENT = 4"
definition PROGRESS :: u8 where "PROGRESS = 5"
definition RECOVERY_BASIS :: u8 where "RECOVERY_BASIS = 10"
definition RECOVERY_EVIDENCE :: u8 where "RECOVERY_EVIDENCE = 11"

type_synonym op_writer = "encoder \<Rightarrow> encoder op_result"
type_synonym 'a op_reader = "decoder \<Rightarrow> ('a \<times> decoder) op_result"

subsection \<open>Envelope\<close>

definition opw :: "(encoder \<Rightarrow> encoder codec_result) \<Rightarrow> op_writer" where
  "opw w e = map_err Op_Codec (w e)"

definition opr :: "(decoder \<Rightarrow> ('a \<times> decoder) codec_result) \<Rightarrow> 'a op_reader" where
  "opr r d = map_err Op_Codec (r d)"

fun write_all :: "op_writer list \<Rightarrow> op_writer" where
  "write_all [] e = Inr e"
| "write_all (w # ws) e = bind_r (w e) (write_all ws)"

definition encoder_limited :: "u8 \<Rightarrow> u32 \<Rightarrow> encoder op_result" where
  "encoder_limited kind limit = bind_r (map_err Op_Codec (encoder_new limit))
     (write_all [opw (write_bytes DOMAIN), opw (write_u8 FORMAT_VERSION), opw (write_u8 kind)])"

definition unsupported_envelope :: operation_error where
  "unsupported_envelope = Op_Invalid ''unsupported fleet record envelope''"

definition decoder_limited :: "bytes \<Rightarrow> u8 \<Rightarrow> u32 \<Rightarrow> decoder op_result" where
  "decoder_limited bs kind limit =
     bind_r (map_err Op_Codec (decoder_new bs limit)) (\<lambda>d.
     bind_r (opr read_bytes d) (\<lambda>(domain, d).
     if domain \<noteq> DOMAIN then Inl unsupported_envelope else
     bind_r (opr read_u8 d) (\<lambda>(version, d).
     if version \<noteq> FORMAT_VERSION then Inl unsupported_envelope else
     bind_r (opr read_u8 d) (\<lambda>(k, d).
     if k \<noteq> kind then Inl unsupported_envelope else Inr d))))"

definition finish_record :: "decoder \<Rightarrow> unit op_result" where
  "finish_record d = map_err Op_Codec (decoder_finish d)"

definition encode_record :: "u8 \<Rightarrow> u32 \<Rightarrow> op_writer \<Rightarrow> bytes op_result" where
  "encode_record kind limit w =
     bind_r (encoder_limited kind limit) (\<lambda>e. bind_r (w e) (\<lambda>e. Inr (enc_bytes e)))"

definition decode_record :: "u8 \<Rightarrow> u32 \<Rightarrow> 'a op_reader \<Rightarrow> bytes \<Rightarrow> 'a op_result" where
  "decode_record kind limit r bs =
     bind_r (decoder_limited bs kind limit) (\<lambda>d.
     bind_r (r d) (\<lambda>(v, d).
     bind_r (finish_record d) (\<lambda>_. Inr v)))"

subsection \<open>Fields\<close>

definition read_id :: "nat \<Rightarrow> bytes op_reader" where
  "read_id n d = bind_r (opr read_bytes d) (\<lambda>(bs, d).
     if length bs = n then Inr (bs, d) else Inl (Op_Invalid ''fleet identity width''))"

definition write_operation_id :: "operation_id \<Rightarrow> op_writer" where
  "write_operation_id i = opw (write_bytes (operation_bytes i))"

definition read_operation_id :: "operation_id op_reader" where
  "read_operation_id d = bind_r (read_id 16 d) (\<lambda>(bs, d).
     bind_r (operation_id_from_bytes bs) (\<lambda>i. Inr (i, d)))"

fun blocker_code :: "drain_blocker option \<Rightarrow> u8" where
  "blocker_code None = 0"
| "blocker_code (Some IncompleteObservation) = 1"
| "blocker_code (Some StaleObservation) = 2"
| "blocker_code (Some IncompatibleRelease) = 3"
| "blocker_code (Some ReceiverCapacity) = 4"
| "blocker_code (Some BusyExecution) = 5"
| "blocker_code (Some ExternalLease) = 6"
| "blocker_code (Some Db_PendingPublication) = 7"
| "blocker_code (Some FollowerObligation) = 8"
| "blocker_code (Some UnknownInventory) = 9"
| "blocker_code (Some Db_MovementBudget) = 10"
| "blocker_code (Some OutcomeUnknown) = 11"
| "blocker_code (Some Db_Deadline) = 12"
| "blocker_code (Some FacilityFailure) = 13"
| "blocker_code (Some ReaderObligation) = 14"

definition write_blocker :: "drain_blocker option \<Rightarrow> op_writer" where
  "write_blocker b = opw (write_u8 (blocker_code b))"

definition blocker_of_code :: "u8 \<Rightarrow> drain_blocker option op_result" where
  "blocker_of_code n =
     (if n = 0 then Inr None
      else if n = 1 then Inr (Some IncompleteObservation)
      else if n = 2 then Inr (Some StaleObservation)
      else if n = 3 then Inr (Some IncompatibleRelease)
      else if n = 4 then Inr (Some ReceiverCapacity)
      else if n = 5 then Inr (Some BusyExecution)
      else if n = 6 then Inr (Some ExternalLease)
      else if n = 7 then Inr (Some Db_PendingPublication)
      else if n = 8 then Inr (Some FollowerObligation)
      else if n = 9 then Inr (Some UnknownInventory)
      else if n = 10 then Inr (Some Db_MovementBudget)
      else if n = 11 then Inr (Some OutcomeUnknown)
      else if n = 12 then Inr (Some Db_Deadline)
      else if n = 13 then Inr (Some FacilityFailure)
      else if n = 14 then Inr (Some ReaderObligation)
      else Inl (Op_Invalid ''unknown fleet blocker''))"

definition read_blocker :: "drain_blocker option op_reader" where
  "read_blocker d = bind_r (opr read_u8 d) (\<lambda>(n, d). bind_r (blocker_of_code n) (\<lambda>b. Inr (b, d)))"

text \<open>An optional field: a flag and, when it is set, the payload.\<close>

definition write_opt :: "('a \<Rightarrow> op_writer) \<Rightarrow> 'a option \<Rightarrow> op_writer" where
  "write_opt w x = (case x of None \<Rightarrow> opw (write_bool False)
     | Some v \<Rightarrow> write_all [opw (write_bool True), w v])"

definition read_opt :: "'a op_reader \<Rightarrow> 'a option op_reader" where
  "read_opt r d = bind_r (opr read_bool d) (\<lambda>(flag, d).
     if flag then bind_r (r d) (\<lambda>(v, d). Inr (Some v, d)) else Inr (None, d))"

definition write_position :: "published_position \<Rightarrow> op_writer" where
  "write_position p = write_all [
     opw (write_bytes (incarnation_bytes (pp_incarnation p))), opw (write_u64 (pp_epoch p)),
     opw (write_bytes (digest_bytes (rr_digest (pp_root p)))), opw (write_u64 (rr_txid (pp_root p))),
     opw (write_u64 (rr_checksum (pp_root p))), opw (write_u64 (rr_commit_sequence (pp_root p)))]"

definition read_position :: "published_position op_reader" where
  "read_position d =
     bind_r (read_id 16 d) (\<lambda>(incarnation, d).
     bind_r (opr read_u64 d) (\<lambda>(epoch, d).
     bind_r (read_id 32 d) (\<lambda>(digest, d).
     bind_r (opr read_u64 d) (\<lambda>(txid, d).
     bind_r (opr read_u64 d) (\<lambda>(checksum, d).
     bind_r (opr read_u64 d) (\<lambda>(sequence, d).
     let p = \<lparr>pp_incarnation = IncarnationId incarnation, pp_epoch = epoch,
              pp_root = \<lparr>rr_digest = Digest digest, rr_txid = txid, rr_checksum = checksum,
                         rr_commit_sequence = sequence\<rparr>\<rparr>
     in bind_r (position_validate p) (\<lambda>_. Inr (p, d))))))))"

definition write_scope :: "fleet_scope \<Rightarrow> op_writer" where
  "write_scope s = write_all [opw (write_bytes (digest_bytes (fs_fleet s))),
     opw (write_bytes (application_bytes (fs_application s)))]"

definition read_scope_fields :: "fleet_scope op_reader" where
  "read_scope_fields d =
     bind_r (read_id 32 d) (\<lambda>(fleet, d).
     bind_r (read_id 16 d) (\<lambda>(application, d).
     Inr (\<lparr>fs_fleet = Digest fleet, fs_application = ApplicationId application\<rparr>, d)))"

definition read_scope :: "fleet_scope op_reader" where
  "read_scope d = bind_r (read_scope_fields d) (\<lambda>(s, d). bind_r (scope_validate s) (\<lambda>_. Inr (s, d)))"

text \<open>A counted sequence; the caller bounds the count before it reads the elements.\<close>

definition write_list :: "('a \<Rightarrow> op_writer) \<Rightarrow> 'a list \<Rightarrow> op_writer" where
  "write_list w xs = write_all (opw (write_count (length xs)) # map w xs)"

fun read_n :: "'a op_reader \<Rightarrow> nat \<Rightarrow> 'a list op_reader" where
  "read_n r 0 d = Inr ([], d)"
| "read_n r (Suc n) d = bind_r (r d) (\<lambda>(x, d). bind_r (read_n r n d) (\<lambda>(xs, d). Inr (x # xs, d)))"

definition read_list :: "'a op_reader \<Rightarrow> (nat \<Rightarrow> bool) \<Rightarrow> 'a list op_reader" where
  "read_list r allowed d = bind_r (opr read_count d) (\<lambda>(n, d).
     if \<not> allowed n then Inl (Op_Codec Limit) else read_n r n d)"

subsection \<open>Maintenance\<close>

definition write_drain_evidence :: "drain_evidence \<Rightarrow> op_writer" where
  "write_drain_evidence v = write_all [
     opw (write_bytes (node_bytes (de_node v))), opw (write_bytes (session_bytes (de_session v))),
     opw (write_u64 (de_remaining_cells v)), opw (write_u32 (de_unresolved_attempts v)),
     opw (write_bool (de_relocated v)), opw (write_bool (de_readers_settled v)),
     opw (write_bool (de_followers_settled v)), opw (write_bool (de_facilities_closed v)),
     opw (write_bool (de_stopped v)), opw (write_bool (de_withdrawn v))]"

definition read_drain_evidence :: "drain_evidence op_reader" where
  "read_drain_evidence d =
     bind_r (read_id 16 d) (\<lambda>(node, d).
     bind_r (read_id 16 d) (\<lambda>(session, d).
     bind_r (opr read_u64 d) (\<lambda>(remaining, d).
     bind_r (opr read_u32 d) (\<lambda>(unresolved, d).
     bind_r (opr read_bool d) (\<lambda>(relocated, d).
     bind_r (opr read_bool d) (\<lambda>(readers, d).
     bind_r (opr read_bool d) (\<lambda>(followers, d).
     bind_r (opr read_bool d) (\<lambda>(facilities, d).
     bind_r (opr read_bool d) (\<lambda>(stopped, d).
     bind_r (opr read_bool d) (\<lambda>(withdrawn, d).
     Inr (\<lparr>de_node = NodeId node, de_session = SessionId session, de_remaining_cells = remaining,
           de_unresolved_attempts = unresolved, de_relocated = relocated, de_readers_settled = readers,
           de_followers_settled = followers, de_facilities_closed = facilities, de_stopped = stopped,
           de_withdrawn = withdrawn\<rparr>, d)))))))))))"

fun maintenance_phase_code :: "maintenance_phase \<Rightarrow> u8" where
  "maintenance_phase_code Mp_Requested = 1"
| "maintenance_phase_code Mp_Cordoned = 2"
| "maintenance_phase_code Mp_Evacuating = 3"
| "maintenance_phase_code Mp_Closing = 4"
| "maintenance_phase_code Mp_Completed = 5"

definition maintenance_phase_of_code :: "u8 \<Rightarrow> maintenance_phase op_result" where
  "maintenance_phase_of_code n =
     (if n = 1 then Inr Mp_Requested else if n = 2 then Inr Mp_Cordoned
      else if n = 3 then Inr Mp_Evacuating else if n = 4 then Inr Mp_Closing
      else if n = 5 then Inr Mp_Completed else Inl (Op_Invalid ''unknown maintenance phase''))"

definition write_maintenance :: "maintenance_operation \<Rightarrow> op_writer" where
  "write_maintenance m = write_all [
     write_operation_id (mo_id m), opw (write_bytes (digest_bytes (mo_request_digest m))),
     opw (write_bytes (node_bytes (mo_node m))), opw (write_bytes (session_bytes (mo_session m))),
     opw (write_u64 (mo_intent_revision m)), opw (write_i64 (mo_created_at_ms m)),
     opw (write_i64 (mo_deadline_ms m)), opw (write_u8 (maintenance_phase_code (mo_phase m))),
     write_blocker (mo_blocker m), write_opt write_drain_evidence (mo_drain_evidence m)]"

definition read_maintenance :: "maintenance_operation op_reader" where
  "read_maintenance d =
     bind_r (read_operation_id d) (\<lambda>(i, d).
     bind_r (read_id 32 d) (\<lambda>(digest, d).
     bind_r (read_id 16 d) (\<lambda>(node, d).
     bind_r (read_id 16 d) (\<lambda>(session, d).
     bind_r (opr read_u64 d) (\<lambda>(revision, d).
     bind_r (opr read_i64 d) (\<lambda>(created, d).
     bind_r (opr read_i64 d) (\<lambda>(deadline, d).
     bind_r (opr read_u8 d) (\<lambda>(code, d).
     bind_r (maintenance_phase_of_code code) (\<lambda>phase.
     bind_r (read_blocker d) (\<lambda>(blocker, d).
     bind_r (read_opt read_drain_evidence d) (\<lambda>(evidence, d).
     let m = \<lparr>mo_id = i, mo_request_digest = Digest digest, mo_node = NodeId node,
              mo_session = SessionId session, mo_intent_revision = revision, mo_created_at_ms = created,
              mo_deadline_ms = deadline, mo_phase = phase, mo_blocker = blocker,
              mo_drain_evidence = evidence\<rparr>
     in bind_r (maintenance_validate m) (\<lambda>_. Inr (m, d)))))))))))))"

subsection \<open>The contract of a record\<close>

named_theorems codec_writes \<open>what a writer of well-formed values appends\<close>
named_theorems codec_reads \<open>the values a reader accepts, and where it stops\<close>

definition puts :: "bytes \<Rightarrow> op_writer" where
  "puts bs e = map_err Op_Codec (enc_extend bs e)"

definition writes :: "op_writer \<Rightarrow> bytes \<Rightarrow> bool" where
  "writes w bs \<longleftrightarrow> (\<forall>e. within_limit e \<longrightarrow> w e = puts bs e)"

lemma puts_append: "bind_r (puts xs e) (puts ys) = puts (xs @ ys) e"
  by (auto simp: puts_def enc_extend_def)

lemma puts_within: "puts xs e = Inr e' \<Longrightarrow> within_limit e'"
  by (auto simp: puts_def enc_extend_def within_limit_def split: if_splits)

lemma write_all_writes: "list_all2 writes ws bss \<Longrightarrow> writes (write_all ws) (concat bss)"
proof (induction rule: list_all2_induct)
  case Nil
  then show ?case
    by (simp add: writes_def puts_def enc_extend_def within_limit_def)
next
  case (Cons w ws bs bss)
  have "bind_r (w e) (write_all ws) = puts (bs @ concat bss) e" if "within_limit e" for e
  proof -
    have "bind_r (puts bs e) (write_all ws) = bind_r (puts bs e) (puts (concat bss))"
      using Cons(3) puts_within [of bs e] by (cases "puts bs e") (auto simp: writes_def)
    then show ?thesis
      using Cons(1) that by (simp add: writes_def puts_append)
  qed
  then show ?case
    by (simp add: writes_def)
qed

lemma opw_writes:
  "writes (opw (write_u8 a)) [a]" "writes (opw (write_u32 b)) (u32_to_be_bytes b)"
  "writes (opw (write_u64 c)) (u64_to_be_bytes c)" "writes (opw (write_i64 i)) (i64_to_be_bytes i)"
  "writes (opw (write_bool f)) [if f then 1 else 0]"
  "fits_u32 bs \<Longrightarrow> writes (opw (write_bytes bs)) (bytes_wire bs)"
  by (simp_all add: writes_def opw_def puts_def write_u8_def write_u32_def write_u64_def write_i64_def
      write_bool_def bytes_value.encode_exact)

lemma fits_id: "length bs = 16 \<or> length bs = 32 \<Longrightarrow> fits_u32 bs"
  by (auto simp: fits_u32_def)

lemma read_bool_exact: "read_bool d = Inr (v, d') \<longleftrightarrow> at_bytes d [if v then 1 else 0] \<and> d' = advance 1 d"
  by (cases v; force simp: read_bool_def bind_r_Inr read_u8_exact split: if_splits)

lemma read_i64_exact:
  "read_i64 d = Inr (v, d') \<longleftrightarrow> is_i64 v \<and> at_bytes d (i64_to_be_bytes v) \<and> d' = advance 8 d"
  using read_exact [where put = i64_to_be_bytes and ok = is_i64 and get = i64_from_be_bytes and n = 8]
  by (simp add: read_i64_def i64_be_round i64_be_round' is_i64_from_be)

text \<open>\<open>follows d bs d'\<close>: the unread input starts with \<open>bs\<close>, and \<open>d'\<close> is the decoder past it.\<close>

definition skip :: "bytes \<Rightarrow> decoder \<Rightarrow> decoder" where
  "skip bs d = advance (length bs) d"

definition follows :: "decoder \<Rightarrow> bytes \<Rightarrow> decoder \<Rightarrow> bool" where
  "follows d bs d' \<longleftrightarrow> at_bytes d bs \<and> d' = skip bs d"

lemma at_append: "at_bytes d (xs @ ys) \<longleftrightarrow> at_bytes d xs \<and> at_bytes (skip xs d) ys"
  by (simp add: at_bytes_append skip_def)

lemma at_two: "at_bytes d (a # b # bs) \<longleftrightarrow> at_bytes d [a] \<and> at_bytes (skip [a] d) (b # bs)"
  using at_append [of d "[a]" "b # bs"] by simp

lemma skip_append: "skip (xs @ ys) d = skip ys (skip xs d)"
  by (simp add: skip_def)

lemma skip_two: "skip (a # b # bs) d = skip (b # bs) (skip [a] d)"
  using skip_append [of "[a]" "b # bs"] by simp

lemma at_skip_Nil: "at_bytes d bs \<Longrightarrow> at_bytes (skip bs d) []"
  using at_bytes_Nil by (simp add: skip_def)

lemmas follows_simps = follows_def at_append at_two skip_append skip_two

lemma opr_exact [codec_reads]:
  "opr read_u8 d = Inr (a, d') \<longleftrightarrow> follows d [a] d'"
  "opr read_u32 d = Inr (b, d') \<longleftrightarrow> follows d (u32_to_be_bytes b) d'"
  "opr read_u64 d = Inr (c, d') \<longleftrightarrow> follows d (u64_to_be_bytes c) d'"
  "opr read_i64 d = Inr (i, d') \<longleftrightarrow> is_i64 i \<and> follows d (i64_to_be_bytes i) d'"
  "opr read_bool d = Inr (f, d') \<longleftrightarrow> follows d [if f then 1 else 0] d'"
  "opr read_bytes d = Inr (bs, d') \<longleftrightarrow> fits_u32 bs \<and> follows d (bytes_wire bs) d'"
  by (auto simp: opr_def map_err_Inr read_u8_exact read_u32_exact read_u64_exact read_i64_exact
      read_bool_exact read_bytes_exact follows_def skip_def)

lemma read_id_exact [codec_reads]:
  "read_id 16 d = Inr (bs, d') \<longleftrightarrow> length bs = 16 \<and> follows d (bytes_wire bs) d'"
  "read_id 32 d = Inr (bs, d') \<longleftrightarrow> length bs = 32 \<and> follows d (bytes_wire bs) d'"
proof -
  have "read_id n d = Inr (bs, d') \<longleftrightarrow> opr read_bytes d = Inr (bs, d') \<and> length bs = n" for n
    by (auto simp: read_id_def bind_r_Inr split: if_splits)
  then show "read_id 16 d = Inr (bs, d') \<longleftrightarrow> length bs = 16 \<and> follows d (bytes_wire bs) d'"
    and "read_id 32 d = Inr (bs, d') \<longleftrightarrow> length bs = 32 \<and> follows d (bytes_wire bs) d'"
    by (auto simp: codec_reads fits_id)
qed

lemma read_count_exact [codec_reads]:
  "opr read_count d = Inr (n, d') \<longleftrightarrow> n < 2 ^ 32 \<and> follows d (u32_to_be_bytes (of_nat n)) d'"
proof -
  have "opr read_count d = Inr (n, d') \<longleftrightarrow> (\<exists>w. follows d (u32_to_be_bytes w) d' \<and> n = unat w)"
    by (auto simp: opr_def map_err_Inr read_count_def bind_r_Inr read_u32_exact follows_def skip_def)
  also have "\<dots> \<longleftrightarrow> n < 2 ^ 32 \<and> follows d (u32_to_be_bytes (of_nat n)) d'"
  proof
    assume "\<exists>w. follows d (u32_to_be_bytes w) d' \<and> n = unat w"
    then obtain w :: u32 where "follows d (u32_to_be_bytes w) d'" "n = unat w"
      by blast
    then show "n < 2 ^ 32 \<and> follows d (u32_to_be_bytes (of_nat n)) d'"
      using unat_bound [of w] by simp
  next
    assume "n < 2 ^ 32 \<and> follows d (u32_to_be_bytes (of_nat n)) d'"
    then show "\<exists>w. follows d (u32_to_be_bytes w) d' \<and> n = unat w"
      using unat_of_nat_u32 [of n] by (intro exI [of _ "of_nat n :: u32"]) simp
  qed
  finally show ?thesis .
qed

lemma bind_r_assoc: "bind_r (bind_r r f) g = bind_r r (\<lambda>x. bind_r (f x) g)"
  by (cases r) simp_all

lemma at_bytes_two: "at_bytes d (a # b # bs) \<longleftrightarrow> at_bytes d [a] \<and> at_bytes (advance 1 d) (b # bs)"
  using at_bytes_append [of d "[a]" "b # bs"] by simp

lemma advance_simps [simp]:
  "dec_position (advance n d) = dec_position d + n" "dec_bytes (advance n d) = dec_bytes d"
  by (simp_all add: advance_def)

lemma domain_fits: "fits_u32 DOMAIN"
  by (simp add: fits_u32_def DOMAIN_def ascii_def)

lemma envelope_writes:
  assumes "writes w bs"
  shows "encode_record kind limit w = Inr out \<longleftrightarrow> limit \<noteq> 0 \<and> unat limit \<le> MAX_WIRE_BYTES
    \<and> length out \<le> unat limit \<and> out = (bytes_wire DOMAIN @ [FORMAT_VERSION, kind]) @ bs"
proof -
  let ?e = "\<lparr>enc_bytes = [], enc_limit = unat limit\<rparr>"
  let ?hw = "[opw (write_bytes DOMAIN), opw (write_u8 FORMAT_VERSION), opw (write_u8 kind)]"
  have "writes (write_all (?hw @ [w])) (concat ([bytes_wire DOMAIN, [FORMAT_VERSION], [kind]] @ [bs]))"
    using assms by (intro write_all_writes) (simp add: opw_writes domain_fits)
  moreover have snoc: "write_all (ws @ [u]) e = bind_r (write_all ws e) u" for ws u e
    by (induction ws arbitrary: e) (auto simp: bind_r_def split: sum.splits)
  ultimately have "bind_r (write_all ?hw e) w = puts ((bytes_wire DOMAIN @ [FORMAT_VERSION, kind]) @ bs) e"
    if "within_limit e" for e
    unfolding snoc [symmetric] using that by (simp add: writes_def del: write_all.simps)
  then have "bind_r (write_all ?hw ?e) w = puts ((bytes_wire DOMAIN @ [FORMAT_VERSION, kind]) @ bs) ?e"
    by (simp add: within_limit_def)
  moreover have "encode_record kind limit w = (if limit = 0 \<or> unat limit > MAX_WIRE_BYTES then Inl (Op_Codec Limit)
      else bind_r (bind_r (write_all ?hw ?e) w) (\<lambda>e. Inr (enc_bytes e)))"
    by (simp add: encode_record_def encoder_limited_def encoder_new_def bind_r_assoc del: write_all.simps)
  ultimately show ?thesis
    by (auto simp: puts_def enc_extend_def not_less simp del: write_all.simps split: if_splits)
qed

locale record_codec =
  fixes put :: "'v \<Rightarrow> op_writer" and get :: "'v op_reader" and wire :: "'v \<Rightarrow> bytes" and ok :: "'v \<Rightarrow> bool"
  assumes put_writes: "ok v \<Longrightarrow> writes (put v) (wire v)"
    and get_exact: "get d = Inr (v, d') \<longleftrightarrow> ok v \<and> follows d (wire v) d'"
begin

lemma opt_codec:
  "record_codec (write_opt put) (read_opt get) (option_wire wire) (pred_option ok)"
proof
  show "writes (write_opt put v) (option_wire wire v)" if "pred_option ok v" for v
  proof (cases v)
    case None
    then show ?thesis
      using opw_writes(5) [of False] by (simp add: write_opt_def option_wire_def)
  next
    case (Some x)
    then have "writes (write_all [opw (write_bool True), put x]) (concat [[1], wire x])"
      using that opw_writes(5) [of True] by (intro write_all_writes) (simp add: put_writes)
    then show ?thesis
      using Some by (simp add: write_opt_def option_wire_def)
  qed
  have tag: "at_bytes d (1 # wire x) \<longleftrightarrow> at_bytes d [1] \<and> at_bytes (skip [1] d) (wire x)"
      "skip (1 # wire x) d = skip (wire x) (skip [1] d)" for d x
    using at_append [of d "[1]" "wire x"] skip_append [of "[1]" "wire x" d] by simp_all
  show "read_opt get d = Inr (v, d') \<longleftrightarrow> pred_option ok v \<and> follows d (option_wire wire v) d'" for d v d'
    by (cases v) (auto simp: read_opt_def bind_r_Inr codec_reads get_exact option_wire_def tag
        follows_def split: if_splits)
qed

definition list_wire :: "'v list \<Rightarrow> bytes" where
  "list_wire vs = u32_to_be_bytes (of_nat (length vs)) @ concat (map wire vs)"

lemma read_n_exact:
  "at_bytes d [] \<Longrightarrow> read_n get n d = Inr (vs, d') \<longleftrightarrow> length vs = n \<and> list_all ok vs \<and> follows d (concat (map wire vs)) d'"
proof (induction n arbitrary: d vs d')
  case (Suc n)
  show ?case
  proof (cases vs)
    case (Cons v us)
    then show ?thesis
      using Suc.IH [OF at_skip_Nil, of d "wire v"] by (auto simp: bind_r_Inr get_exact follows_simps)
  qed (auto simp: bind_r_Inr)
qed (auto simp: follows_def skip_def)

lemma list_codec:
  assumes "\<And>n. allowed n \<Longrightarrow> n < 2 ^ 32"
  shows "record_codec (write_list put) (read_list get allowed) list_wire
     (\<lambda>vs. allowed (length vs) \<and> list_all ok vs)"
proof
  fix vs :: "'v list" and d d'
  show "writes (write_list put vs) (list_wire vs)" if "allowed (length vs) \<and> list_all ok vs"
  proof -
    have "writes (opw (write_count (length vs))) (u32_to_be_bytes (of_nat (length vs)))"
      using assms [of "length vs"] that opw_writes(2) by (simp add: writes_def opw_def write_count_def)
    moreover have "list_all2 writes (map put vs) (map wire vs)"
      using conjunct2 [OF that] by (induction vs) (auto simp: put_writes)
    ultimately show ?thesis
      using write_all_writes [of "opw (write_count (length vs)) # map put vs"
          "u32_to_be_bytes (of_nat (length vs)) # map wire vs"]
      by (simp add: write_list_def list_wire_def)
  qed
  show "read_list get allowed d = Inr (vs, d') \<longleftrightarrow> (allowed (length vs) \<and> list_all ok vs) \<and> follows d (list_wire vs) d'"
    using read_n_exact [OF at_skip_Nil] assms
    by (auto simp: read_list_def bind_r_Inr codec_reads list_wire_def follows_simps split: if_splits)
qed

text \<open>A record in its envelope: the domain, the format version and the kind come first.\<close>

lemma record_exact:
  "decode_record kind limit get bs = Inr v \<longleftrightarrow> ok v \<and> encode_record kind limit (put v) = Inr bs"
proof -
  define h where "h = bytes_wire DOMAIN @ [FORMAT_VERSION, kind]"
  let ?d = "\<lparr>dec_bytes = bs, dec_position = 0\<rparr>"
  have limits: "decoder_limited bs kind limit = Inr d \<longleftrightarrow> limit \<noteq> 0 \<and> unat limit \<le> MAX_WIRE_BYTES
      \<and> length bs \<le> unat limit \<and> follows ?d h d" for d
    by (auto simp: decoder_limited_def decoder_new_def bind_r_Inr codec_reads domain_fits follows_simps
        unsupported_envelope_def h_def not_less not_le split: if_splits)
  have whole: "at_bytes ?d (h @ wire v) \<and> length (h @ wire v) = length bs \<longleftrightarrow> bs = h @ wire v"
    by (auto simp: at_bytes_def)
  have "decode_record kind limit get bs = Inr v \<longleftrightarrow> limit \<noteq> 0 \<and> unat limit \<le> MAX_WIRE_BYTES
      \<and> length bs \<le> unat limit \<and> ok v \<and> at_bytes ?d (h @ wire v) \<and> length (h @ wire v) = length bs"
    unfolding decode_record_def
    by (auto simp: bind_r_Inr limits get_exact finish_record_def map_err_Inr decoder_finish_def at_bytes_append
        follows_def skip_def split: if_splits)
  also have "\<dots> \<longleftrightarrow> ok v \<and> limit \<noteq> 0 \<and> unat limit \<le> MAX_WIRE_BYTES \<and> length bs \<le> unat limit \<and> bs = h @ wire v"
    using whole by blast
  also have "\<dots> \<longleftrightarrow> ok v \<and> encode_record kind limit (put v) = Inr bs"
  proof -
    have "encode_record kind limit (put v) = Inr bs \<longleftrightarrow>
        limit \<noteq> 0 \<and> unat limit \<le> MAX_WIRE_BYTES \<and> length bs \<le> unat limit \<and> bs = h @ wire v" if "ok v"
      using envelope_writes [of "put v" "wire v"] put_writes [OF that] by (auto simp: h_def)
    then show ?thesis
      by blast
  qed
  finally show ?thesis .
qed

end

subsection \<open>The shared fields and maintenance are codecs\<close>

definition operation_id_ok :: "operation_id \<Rightarrow> bool" where
  "operation_id_ok i \<longleftrightarrow> length (operation_bytes i) = 16 \<and> nonzero (operation_bytes i)"

definition operation_id_wire :: "operation_id \<Rightarrow> bytes" where
  "operation_id_wire i = bytes_wire (operation_bytes i)"

interpretation operation_id: record_codec write_operation_id read_operation_id operation_id_wire operation_id_ok
proof
  show "read_operation_id d = Inr (v, d') \<longleftrightarrow> operation_id_ok v \<and> follows d (operation_id_wire v) d'" for d v d'
    by (cases v) (auto simp: read_operation_id_def bind_r_Inr codec_reads operation_id_from_bytes_def
        operation_id_ok_def operation_id_wire_def split: if_splits)
qed (simp add: operation_id_ok_def operation_id_wire_def write_operation_id_def opw_writes fits_id)

lemma blocker_of_code_exact: "blocker_of_code n = Inr b \<longleftrightarrow> n = blocker_code b"
proof
  show "blocker_of_code n = Inr b \<Longrightarrow> n = blocker_code b"
    by (auto simp: blocker_of_code_def split: if_splits)
  show "n = blocker_code b \<Longrightarrow> blocker_of_code n = Inr b"
    by (cases b rule: blocker_code.cases) (simp_all add: blocker_of_code_def)
qed

interpretation blocker: record_codec write_blocker read_blocker "\<lambda>b. [blocker_code b]" "\<lambda>_. True"
  by unfold_locales (auto simp: write_blocker_def opw_writes read_blocker_def bind_r_Inr codec_reads
      blocker_of_code_exact)

definition position_wire :: "published_position \<Rightarrow> bytes" where
  "position_wire p = concat [bytes_wire (incarnation_bytes (pp_incarnation p)), u64_to_be_bytes (pp_epoch p),
     bytes_wire (digest_bytes (rr_digest (pp_root p))), u64_to_be_bytes (rr_txid (pp_root p)),
     u64_to_be_bytes (rr_checksum (pp_root p)), u64_to_be_bytes (rr_commit_sequence (pp_root p))]"

definition position_ok :: "published_position \<Rightarrow> bool" where
  "position_ok p \<longleftrightarrow> length (incarnation_bytes (pp_incarnation p)) = 16
     \<and> length (digest_bytes (rr_digest (pp_root p))) = 32 \<and> position_validate p = Inr ()"

lemma position_cases:
  obtains i e g t c q where "p = \<lparr>pp_incarnation = IncarnationId i, pp_epoch = e, pp_root = \<lparr>rr_digest = Digest g,
     rr_txid = t, rr_checksum = c, rr_commit_sequence = q\<rparr>\<rparr>"
  by (metis published_position.cases root_ref.cases incarnation_id.exhaust digest.exhaust old.unit.exhaust)

interpretation position: record_codec write_position read_position position_wire position_ok
proof
  show "writes (write_position v) (position_wire v)" if "position_ok v" for v
    unfolding write_position_def position_wire_def using that
    by (intro write_all_writes) (simp add: opw_writes fits_id position_ok_def)
  show "read_position d = Inr (v, d') \<longleftrightarrow> position_ok v \<and> follows d (position_wire v) d'" for d v d'
    by (cases v rule: position_cases)
      (auto simp: read_position_def bind_r_Inr codec_reads position_ok_def position_wire_def follows_simps Let_def)
qed

definition scope_wire :: "fleet_scope \<Rightarrow> bytes" where
  "scope_wire s = concat [bytes_wire (digest_bytes (fs_fleet s)), bytes_wire (application_bytes (fs_application s))]"

definition scope_wf :: "fleet_scope \<Rightarrow> bool" where
  "scope_wf s \<longleftrightarrow> length (digest_bytes (fs_fleet s)) = 32 \<and> length (application_bytes (fs_application s)) = 16"

definition scope_ok :: "fleet_scope \<Rightarrow> bool" where
  "scope_ok s \<longleftrightarrow> scope_wf s \<and> scope_validate s = Inr ()"

lemma scope_cases: obtains f a where "s = \<lparr>fs_fleet = Digest f, fs_application = ApplicationId a\<rparr>"
  by (metis fleet_scope.cases digest.exhaust application_id.exhaust old.unit.exhaust)

interpretation scope_fields: record_codec write_scope read_scope_fields scope_wire scope_wf
proof
  show "writes (write_scope v) (scope_wire v)" if "scope_wf v" for v
    unfolding write_scope_def scope_wire_def using that
    by (intro write_all_writes) (simp add: opw_writes fits_id scope_wf_def)
  show "read_scope_fields d = Inr (v, d') \<longleftrightarrow> scope_wf v \<and> follows d (scope_wire v) d'" for d v d'
    by (cases v rule: scope_cases)
      (auto simp: read_scope_fields_def bind_r_Inr codec_reads scope_wf_def scope_wire_def follows_simps)
qed

interpretation scope: record_codec write_scope read_scope scope_wire scope_ok
  by unfold_locales (auto simp: scope_ok_def scope_fields.put_writes read_scope_def bind_r_Inr scope_fields.get_exact)

definition drain_evidence_wire :: "drain_evidence \<Rightarrow> bytes" where
  "drain_evidence_wire v = concat [bytes_wire (node_bytes (de_node v)), bytes_wire (session_bytes (de_session v)),
     u64_to_be_bytes (de_remaining_cells v), u32_to_be_bytes (de_unresolved_attempts v),
     [if de_relocated v then 1 else 0], [if de_readers_settled v then 1 else 0],
     [if de_followers_settled v then 1 else 0], [if de_facilities_closed v then 1 else 0],
     [if de_stopped v then 1 else 0], [if de_withdrawn v then 1 else 0]]"

definition drain_evidence_ok :: "drain_evidence \<Rightarrow> bool" where
  "drain_evidence_ok v \<longleftrightarrow> length (node_bytes (de_node v)) = 16 \<and> length (session_bytes (de_session v)) = 16"

lemma drain_evidence_cases:
  obtains n t c u r e f a p w where "v = \<lparr>de_node = NodeId n, de_session = SessionId t, de_remaining_cells = c,
     de_unresolved_attempts = u, de_relocated = r, de_readers_settled = e, de_followers_settled = f,
     de_facilities_closed = a, de_stopped = p, de_withdrawn = w\<rparr>"
  by (metis drain_evidence.cases node_id.exhaust session_id.exhaust old.unit.exhaust)

interpretation drain_evidence: record_codec write_drain_evidence read_drain_evidence drain_evidence_wire drain_evidence_ok
proof
  show "writes (write_drain_evidence v) (drain_evidence_wire v)" if "drain_evidence_ok v" for v
    unfolding write_drain_evidence_def drain_evidence_wire_def using that
    by (intro write_all_writes) (simp add: opw_writes fits_id drain_evidence_ok_def)
  show "read_drain_evidence d = Inr (v, d') \<longleftrightarrow> drain_evidence_ok v \<and> follows d (drain_evidence_wire v) d'" for d v d'
    by (cases v rule: drain_evidence_cases)
      (auto simp: read_drain_evidence_def bind_r_Inr codec_reads drain_evidence_ok_def drain_evidence_wire_def
        follows_simps split del: if_split)
qed

lemma maintenance_phase_exact: "maintenance_phase_of_code n = Inr p \<longleftrightarrow> n = maintenance_phase_code p"
  by (cases p) (auto simp: maintenance_phase_of_code_def split: if_splits)

definition maintenance_wire :: "maintenance_operation \<Rightarrow> bytes" where
  "maintenance_wire m = concat [operation_id_wire (mo_id m), bytes_wire (digest_bytes (mo_request_digest m)),
     bytes_wire (node_bytes (mo_node m)), bytes_wire (session_bytes (mo_session m)),
     u64_to_be_bytes (mo_intent_revision m), i64_to_be_bytes (mo_created_at_ms m),
     i64_to_be_bytes (mo_deadline_ms m), [maintenance_phase_code (mo_phase m)], [blocker_code (mo_blocker m)],
     option_wire drain_evidence_wire (mo_drain_evidence m)]"

definition maintenance_wf :: "maintenance_operation \<Rightarrow> bool" where
  "maintenance_wf m \<longleftrightarrow> operation_id_ok (mo_id m) \<and> length (digest_bytes (mo_request_digest m)) = 32
     \<and> length (node_bytes (mo_node m)) = 16 \<and> length (session_bytes (mo_session m)) = 16
     \<and> is_i64 (mo_created_at_ms m) \<and> is_i64 (mo_deadline_ms m)
     \<and> pred_option drain_evidence_ok (mo_drain_evidence m)"

definition maintenance_ok :: "maintenance_operation \<Rightarrow> bool" where
  "maintenance_ok m \<longleftrightarrow> maintenance_wf m \<and> maintenance_validate m = Inr ()"

lemma maintenance_cases:
  obtains i g n t r c l p b e where "m = \<lparr>mo_id = i, mo_request_digest = Digest g, mo_node = NodeId n,
     mo_session = SessionId t, mo_intent_revision = r, mo_created_at_ms = c, mo_deadline_ms = l, mo_phase = p,
     mo_blocker = b, mo_drain_evidence = e\<rparr>"
  by (metis maintenance_operation.cases digest.exhaust node_id.exhaust session_id.exhaust old.unit.exhaust)

interpretation drain_evidence_opt: record_codec "write_opt write_drain_evidence" "read_opt read_drain_evidence"
  "option_wire drain_evidence_wire" "pred_option drain_evidence_ok"
  by (rule drain_evidence.opt_codec)

interpretation maintenance_record: record_codec write_maintenance read_maintenance maintenance_wire maintenance_ok
proof
  show "writes (write_maintenance v) (maintenance_wire v)" if "maintenance_ok v" for v
    unfolding write_maintenance_def maintenance_wire_def using that
    by (intro write_all_writes) (simp add: opw_writes fits_id maintenance_ok_def maintenance_wf_def
        operation_id.put_writes blocker.put_writes drain_evidence_opt.put_writes)
  have two: "at_bytes d (a # b # bs) \<longleftrightarrow> at_bytes d [a] \<and> at_bytes (skip [a] d) [b] \<and> at_bytes (skip [b] (skip [a] d)) bs"
      "skip (a # b # bs) d = skip bs (skip [b] (skip [a] d))" for a b bs d
    using at_append [of d "[a, b]" bs] at_append [of d "[a]" "[b]"] skip_append [of "[a, b]" bs] skip_append [of "[a]" "[b]"]
    by simp_all
  show "read_maintenance d = Inr (v, d') \<longleftrightarrow> maintenance_ok v \<and> follows d (maintenance_wire v) d'" for d v d'
    by (cases v rule: maintenance_cases)
      (auto simp: read_maintenance_def bind_r_Inr codec_reads maintenance_ok_def maintenance_wf_def
        maintenance_wire_def follows_def at_append skip_append two operation_id.get_exact blocker.get_exact
        drain_evidence_opt.get_exact maintenance_phase_exact Let_def)
qed

end
