(* ===== verification/Attempt_Codec.thy ===== *)
theory Attempt_Codec
  imports Fleet_Codec
begin

text \<open>
  The records of a movement, \<^verbatim>\<open>crates/cellule-runtime/src/fleet/operations/codec/attempt.rs\<close> and
  \<^verbatim>\<open>codec/recovery.rs\<close>: the immutable specification of an attempt, the evidence of a recovery
  with the control records it pins, and the attempt itself. Each is a \<open>record_codec\<close>; those that
  hold control records are codecs whenever the JSON parser reads back what the serialiser wrote.
\<close>

subsection \<open>Specifications\<close>

definition write_spec :: "move_attempt_spec \<Rightarrow> op_writer" where
  "write_spec s = write_all [
     write_operation_id (ai_operation (sp_id s)), opw (write_u64 (ai_sequence (sp_id s))),
     opw (write_bytes (tenant_bytes (ct_tenant (sp_target s)))),
     opw (write_bytes (application_bytes (ct_application (sp_target s)))),
     opw (write_bytes (namespace_bytes (ct_namespace (sp_target s)))),
     opw (write_bytes (ct_partition (sp_target s))),
     opw (write_bytes (incarnation_bytes (sp_incarnation s))),
     opw (write_bytes (node_bytes (sp_source_node s))), opw (write_bytes (session_bytes (sp_source s))),
     opw (write_u64 (sp_generation s)), opw (write_u64 (sp_source_epoch s)),
     opw (write_bytes (node_bytes (sp_destination_node s))),
     opw (write_bytes (session_bytes (sp_destination s))),
     opw (write_u64 (tc_memory_bytes (sp_cost s))), opw (write_u64 (tc_disk_bytes (sp_cost s))),
     opw (write_u32 (tc_file_descriptors (sp_cost s))), opw (write_u32 (tc_job_credits (sp_cost s))),
     opw (write_bytes (digest_bytes (sp_snapshot_digest s))), opw (write_i64 (sp_deadline_ms s))]"

definition read_spec :: "move_attempt_spec op_reader" where
  "read_spec d =
     bind_r (read_operation_id d) (\<lambda>(operation, d).
     bind_r (opr read_u64 d) (\<lambda>(sequence, d).
     bind_r (read_id 16 d) (\<lambda>(tenant, d).
     bind_r (read_id 16 d) (\<lambda>(application, d).
     bind_r (read_id 16 d) (\<lambda>(namespace, d).
     bind_r (opr read_bytes d) (\<lambda>(key, d).
     bind_r (map_err Op_Identity (cell_target_new (TenantId tenant) (ApplicationId application)
       (NamespaceId namespace) key)) (\<lambda>target.
     bind_r (read_id 16 d) (\<lambda>(incarnation, d).
     bind_r (read_id 16 d) (\<lambda>(source_node, d).
     bind_r (read_id 16 d) (\<lambda>(source, d).
     bind_r (opr read_u64 d) (\<lambda>(generation, d).
     bind_r (opr read_u64 d) (\<lambda>(source_epoch, d).
     bind_r (read_id 16 d) (\<lambda>(destination_node, d).
     bind_r (read_id 16 d) (\<lambda>(destination, d).
     bind_r (opr read_u64 d) (\<lambda>(memory, d).
     bind_r (opr read_u64 d) (\<lambda>(disk, d).
     bind_r (opr read_u32 d) (\<lambda>(descriptors, d).
     bind_r (opr read_u32 d) (\<lambda>(credits, d).
     bind_r (read_id 32 d) (\<lambda>(snapshot, d).
     bind_r (opr read_i64 d) (\<lambda>(deadline, d).
     Inr (\<lparr>sp_id = \<lparr>ai_operation = operation, ai_sequence = sequence\<rparr>, sp_target = target,
           sp_incarnation = IncarnationId incarnation, sp_source_node = NodeId source_node,
           sp_source = SessionId source, sp_generation = generation, sp_source_epoch = source_epoch,
           sp_destination_node = NodeId destination_node, sp_destination = SessionId destination,
           sp_cost = \<lparr>tc_memory_bytes = memory, tc_disk_bytes = disk, tc_file_descriptors = descriptors,
                      tc_job_credits = credits\<rparr>,
           sp_snapshot_digest = Digest snapshot, sp_deadline_ms = deadline\<rparr>, d)))))))))))))))))))))"

subsection \<open>Recovery evidence\<close>

definition write_control :: "fleet_env \<Rightarrow> control \<Rightarrow> op_writer" where
  "write_control env c e = bind_r (encodable env c) (\<lambda>body. opw (write_bytes body) e)"

definition read_control :: "fleet_env \<Rightarrow> control op_reader" where
  "read_control env d = bind_r (opr read_bytes d) (\<lambda>(body, d).
     bind_r (map_err Op_Control (control_decode (fe_to_vec env) (fe_from_slice env) body)) (\<lambda>c. Inr (c, d)))"

definition write_basis :: "fleet_env \<Rightarrow> recovery_basis \<Rightarrow> op_writer" where
  "write_basis env b = write_all [write_spec (rb_spec b), write_scope (rb_scope b),
     opw (write_bytes (digest_bytes (rb_action_key b))), opw (write_bytes (node_bytes (rb_node b))),
     opw (write_bytes (session_bytes (rb_session b))), opw (write_i64 (rb_accepted_at_ms b)),
     write_control env (rb_control b), opw (write_i64 (rb_observed_at_ms b))]"

definition read_basis :: "fleet_env \<Rightarrow> recovery_basis op_reader" where
  "read_basis env d =
     bind_r (read_spec d) (\<lambda>(spec, d).
     bind_r (read_scope d) (\<lambda>(scope, d).
     bind_r (read_id 32 d) (\<lambda>(key, d).
     bind_r (read_id 16 d) (\<lambda>(node, d).
     bind_r (read_id 16 d) (\<lambda>(session, d).
     bind_r (opr read_i64 d) (\<lambda>(accepted, d).
     bind_r (read_control env d) (\<lambda>(control, d).
     bind_r (opr read_i64 d) (\<lambda>(observed, d).
     let b = \<lparr>rb_spec = spec, rb_scope = scope, rb_action_key = Digest key, rb_node = NodeId node,
              rb_session = SessionId session, rb_accepted_at_ms = accepted, rb_control = control,
              rb_observed_at_ms = observed\<rparr>
     in bind_r (basis_validate env b) (\<lambda>_. Inr (b, d))))))))))"

definition write_evidence :: "fleet_env \<Rightarrow> recovery_evidence \<Rightarrow> op_writer" where
  "write_evidence env v = write_all [write_basis env (re_basis v), write_control env (re_restored v),
     opw (write_i64 (re_recorded_at_ms v))]"

definition read_evidence :: "fleet_env \<Rightarrow> recovery_evidence op_reader" where
  "read_evidence env d =
     bind_r (read_basis env d) (\<lambda>(basis, d).
     bind_r (read_control env d) (\<lambda>(restored, d).
     bind_r (opr read_i64 d) (\<lambda>(recorded, d).
     bind_r (evidence_new env basis restored recorded) (\<lambda>v. Inr (v, d)))))"

definition write_activation :: "activation_evidence \<Rightarrow> op_writer" where
  "write_activation v = write_all [opw (write_bytes (node_bytes (av_node v))),
     opw (write_bytes (session_bytes (av_session v))), write_position (av_position v)]"

definition read_activation :: "activation_evidence op_reader" where
  "read_activation d =
     bind_r (read_id 16 d) (\<lambda>(node, d).
     bind_r (read_id 16 d) (\<lambda>(session, d).
     bind_r (read_position d) (\<lambda>(position, d).
     Inr (\<lparr>av_node = NodeId node, av_session = SessionId session, av_position = position\<rparr>, d))))"

definition write_recovered :: "fleet_env \<Rightarrow> recovered_activation \<Rightarrow> op_writer" where
  "write_recovered env r = write_all [write_evidence env (ra_recovery r), write_activation (ra_serving r)]"

definition read_recovered :: "fleet_env \<Rightarrow> recovered_activation op_reader" where
  "read_recovered env d =
     bind_r (read_evidence env d) (\<lambda>(recovery, d).
     bind_r (read_activation d) (\<lambda>(serving, d).
     let r = \<lparr>ra_recovery = recovery, ra_serving = serving\<rparr>
     in bind_r (recovered_validate env r) (\<lambda>_. Inr (r, d))))"

definition recovery_basis_to_bytes :: "fleet_env \<Rightarrow> recovery_basis \<Rightarrow> bytes op_result" where
  "recovery_basis_to_bytes env b = bind_r (basis_validate env b) (\<lambda>_.
     encode_record RECOVERY_BASIS MAX_RECORD_BYTES (write_basis env b))"

definition recovery_basis_from_bytes :: "fleet_env \<Rightarrow> bytes \<Rightarrow> recovery_basis op_result" where
  "recovery_basis_from_bytes env = decode_record RECOVERY_BASIS MAX_RECORD_BYTES (read_basis env)"

definition recovery_evidence_to_bytes :: "fleet_env \<Rightarrow> recovery_evidence \<Rightarrow> bytes op_result" where
  "recovery_evidence_to_bytes env v = bind_r (evidence_validate env v) (\<lambda>_.
     encode_record RECOVERY_EVIDENCE MAX_RECORD_BYTES (write_evidence env v))"

definition recovery_evidence_from_bytes :: "fleet_env \<Rightarrow> bytes \<Rightarrow> recovery_evidence op_result" where
  "recovery_evidence_from_bytes env = decode_record RECOVERY_EVIDENCE MAX_RECORD_BYTES (read_evidence env)"

subsection \<open>Attempts\<close>

fun attempt_phase_code :: "attempt_phase \<Rightarrow> u8" where
  "attempt_phase_code Planned = 1"
| "attempt_phase_code Preparing = 2"
| "attempt_phase_code Reserved = 3"
| "attempt_phase_code Releasing = 4"
| "attempt_phase_code Released = 5"
| "attempt_phase_code Activating = 6"
| "attempt_phase_code Activated = 7"
| "attempt_phase_code Cancelling = 8"
| "attempt_phase_code Cancelled = 9"
| "attempt_phase_code CleaningReceiver = 10"
| "attempt_phase_code Ap_Recovering = 11"
| "attempt_phase_code Recovered = 12"
| "attempt_phase_code MaintenanceReleasing = 13"

definition attempt_phase_of_code :: "u8 \<Rightarrow> attempt_phase op_result" where
  "attempt_phase_of_code n =
     (if n = 1 then Inr Planned
      else if n = 2 then Inr Preparing
      else if n = 3 then Inr Reserved
      else if n = 4 then Inr Releasing
      else if n = 5 then Inr Released
      else if n = 6 then Inr Activating
      else if n = 7 then Inr Activated
      else if n = 8 then Inr Cancelling
      else if n = 9 then Inr Cancelled
      else if n = 10 then Inr CleaningReceiver
      else if n = 11 then Inr Ap_Recovering
      else if n = 12 then Inr Recovered
      else if n = 13 then Inr MaintenanceReleasing
      else Inl (Op_Invalid ''unknown movement phase''))"

definition write_reservation :: "receiver_reservation \<Rightarrow> op_writer" where
  "write_reservation r = write_all [opw (write_bytes (session_bytes (rv_session r))),
     opw (write_i64 (rv_expires_at_ms r))]"

definition read_reservation :: "receiver_reservation op_reader" where
  "read_reservation d =
     bind_r (read_id 16 d) (\<lambda>(session, d).
     bind_r (opr read_i64 d) (\<lambda>(expires, d).
     Inr (\<lparr>rv_session = SessionId session, rv_expires_at_ms = expires\<rparr>, d)))"

definition write_attempt :: "fleet_env \<Rightarrow> move_attempt \<Rightarrow> op_writer" where
  "write_attempt env a = write_all ([
     write_spec (ma_spec a), opw (write_u8 (attempt_phase_code (ma_phase a))),
     write_opt write_reservation (ma_reservation a), write_opt write_position (ma_released a),
     write_opt write_activation (ma_activated a), opw (write_bool (ma_receiver_cleaned a)),
     write_blocker (ma_blocker a), write_opt (\<lambda>at. opw (write_i64 at)) (ma_completed_at_ms a)]
     @ (case ma_recovered a of None \<Rightarrow> [] | Some r \<Rightarrow> [write_recovered env r]))"

definition read_attempt :: "fleet_env \<Rightarrow> move_attempt op_reader" where
  "read_attempt env d =
     bind_r (read_spec d) (\<lambda>(spec, d).
     bind_r (opr read_u8 d) (\<lambda>(code, d).
     bind_r (attempt_phase_of_code code) (\<lambda>phase.
     bind_r (read_opt read_reservation d) (\<lambda>(reservation, d).
     bind_r (read_opt read_position d) (\<lambda>(released, d).
     bind_r (read_opt read_activation d) (\<lambda>(activated, d).
     bind_r (opr read_bool d) (\<lambda>(cleaned, d).
     bind_r (read_blocker d) (\<lambda>(blocker, d).
     bind_r (read_opt (opr read_i64) d) (\<lambda>(completed, d).
     bind_r (if phase = Recovered then bind_r (read_recovered env d) (\<lambda>(r, d). Inr (Some r, d))
             else Inr (None, d)) (\<lambda>(recovered, d).
     let a = \<lparr>ma_spec = spec, ma_phase = phase, ma_reservation = reservation, ma_released = released,
              ma_activated = activated, ma_recovered = recovered, ma_receiver_cleaned = cleaned,
              ma_blocker = blocker, ma_completed_at_ms = completed\<rparr>
     in bind_r (attempt_validate env a) (\<lambda>_. Inr (a, d))))))))))))"

definition attempt_to_bytes :: "fleet_env \<Rightarrow> move_attempt \<Rightarrow> bytes op_result" where
  "attempt_to_bytes env a = bind_r (attempt_validate env a) (\<lambda>_.
     encode_record ATTEMPT MAX_RECORD_BYTES (write_attempt env a))"

definition attempt_from_bytes :: "fleet_env \<Rightarrow> bytes \<Rightarrow> move_attempt op_result" where
  "attempt_from_bytes env = decode_record ATTEMPT MAX_RECORD_BYTES (read_attempt env)"

definition maintenance_to_bytes :: "maintenance_operation \<Rightarrow> bytes op_result" where
  "maintenance_to_bytes m = bind_r (maintenance_validate m) (\<lambda>_.
     encode_record MAINTENANCE MAX_RECORD_BYTES (write_maintenance m))"

definition maintenance_from_bytes :: "bytes \<Rightarrow> maintenance_operation op_result" where
  "maintenance_from_bytes = decode_record MAINTENANCE MAX_RECORD_BYTES read_maintenance"

subsection \<open>Specifications are a codec\<close>

definition spec_wire :: "move_attempt_spec \<Rightarrow> bytes" where
  "spec_wire s = concat [operation_id_wire (ai_operation (sp_id s)), u64_to_be_bytes (ai_sequence (sp_id s)),
     bytes_wire (tenant_bytes (ct_tenant (sp_target s))),
     bytes_wire (application_bytes (ct_application (sp_target s))),
     bytes_wire (namespace_bytes (ct_namespace (sp_target s))), bytes_wire (ct_partition (sp_target s)),
     bytes_wire (incarnation_bytes (sp_incarnation s)),
     bytes_wire (node_bytes (sp_source_node s)), bytes_wire (session_bytes (sp_source s)),
     u64_to_be_bytes (sp_generation s), u64_to_be_bytes (sp_source_epoch s),
     bytes_wire (node_bytes (sp_destination_node s)), bytes_wire (session_bytes (sp_destination s)),
     u64_to_be_bytes (tc_memory_bytes (sp_cost s)), u64_to_be_bytes (tc_disk_bytes (sp_cost s)),
     u32_to_be_bytes (tc_file_descriptors (sp_cost s)), u32_to_be_bytes (tc_job_credits (sp_cost s)),
     bytes_wire (digest_bytes (sp_snapshot_digest s)), i64_to_be_bytes (sp_deadline_ms s)]"

definition spec_wf :: "move_attempt_spec \<Rightarrow> bool" where
  "spec_wf s \<longleftrightarrow> operation_id_ok (ai_operation (sp_id s)) \<and> target_wf (sp_target s)
     \<and> length (incarnation_bytes (sp_incarnation s)) = 16
     \<and> length (node_bytes (sp_source_node s)) = 16 \<and> length (session_bytes (sp_source s)) = 16
     \<and> length (node_bytes (sp_destination_node s)) = 16 \<and> length (session_bytes (sp_destination s)) = 16
     \<and> length (digest_bytes (sp_snapshot_digest s)) = 32 \<and> is_i64 (sp_deadline_ms s)"

lemma target_cases:
  obtains t a n k where "x = \<lparr>ct_tenant = TenantId t, ct_application = ApplicationId a,
     ct_namespace = NamespaceId n, ct_partition = k\<rparr>"
  by (metis cell_target.cases tenant_id.exhaust application_id.exhaust namespace_id.exhaust old.unit.exhaust)

lemma spec_cases:
  obtains i q t a n k c sn s g e dn de m b f j h l where "x = \<lparr>sp_id = \<lparr>ai_operation = i, ai_sequence = q\<rparr>,
     sp_target = \<lparr>ct_tenant = TenantId t, ct_application = ApplicationId a, ct_namespace = NamespaceId n,
       ct_partition = k\<rparr>,
     sp_incarnation = IncarnationId c, sp_source_node = NodeId sn, sp_source = SessionId s, sp_generation = g,
     sp_source_epoch = e, sp_destination_node = NodeId dn, sp_destination = SessionId de,
     sp_cost = \<lparr>tc_memory_bytes = m, tc_disk_bytes = b, tc_file_descriptors = f, tc_job_credits = j\<rparr>,
     sp_snapshot_digest = Digest h, sp_deadline_ms = l\<rparr>"
  by (cases x; cases "sp_id x"; cases "sp_target x" rule: target_cases; cases "sp_incarnation x";
      cases "sp_source_node x"; cases "sp_source x"; cases "sp_destination_node x"; cases "sp_destination x";
      cases "sp_cost x"; cases "sp_snapshot_digest x") simp

lemma fits_partition: "length k \<le> 1024 \<Longrightarrow> fits_u32 k"
  by (simp add: fits_u32_def)

lemma cell_target_new_Inr:
  "cell_target_new t a n k = Inr x \<longleftrightarrow> length k \<le> 1024
     \<and> \<lparr>ct_tenant = t, ct_application = a, ct_namespace = n, ct_partition = k\<rparr> = x"
  by (auto simp: cell_target_new_def)

interpretation spec: record_codec write_spec read_spec spec_wire spec_wf
proof
  show "writes (write_spec v) (spec_wire v)" if "spec_wf v" for v
    unfolding write_spec_def spec_wire_def using that
    by (intro write_all_writes) (simp add: opw_writes fits_id fits_partition spec_wf_def target_wf_def
        operation_id.put_writes)
  show "read_spec d = Inr (v, d') \<longleftrightarrow> spec_wf v \<and> follows d (spec_wire v) d'" for d v d'
    by (cases v rule: spec_cases)
      (auto simp: read_spec_def bind_r_Inr codec_reads spec_wf_def target_wf_def spec_wire_def follows_simps
        operation_id.get_exact map_err_Inr cell_target_new_Inr fits_partition)
qed

subsection \<open>Recovery evidence is a codec\<close>

text \<open>What the decoder relies on of the JSON library: it parses what it serialised.\<close>

definition json_reads_back :: "fleet_env \<Rightarrow> bool" where
  "json_reads_back env \<longleftrightarrow> (\<forall>raw bs. fe_to_vec env raw = Some bs \<longrightarrow> fe_from_slice env bs = Some raw)"

definition control_body :: "fleet_env \<Rightarrow> control \<Rightarrow> bytes" where
  "control_body env c = (case control_encode (fe_to_vec env) c of Inr body \<Rightarrow> body | Inl _ \<Rightarrow> [])"

definition control_ok :: "fleet_env \<Rightarrow> control \<Rightarrow> bool" where
  "control_ok env c \<longleftrightarrow> control_wf c \<and> control_encode (fe_to_vec env) c = Inr (control_body env c)"

lemma control_encode_short: "control_encode f c = Inr body \<Longrightarrow> fits_u32 body"
  by (auto simp: control_encode_def bind_r_Inr fits_u32_def MAX_CONTROL_BYTES_def split: if_splits)

lemma control_decode_exact:
  assumes "json_reads_back env"
  shows "control_decode (fe_to_vec env) (fe_from_slice env) body = Inr c
    \<longleftrightarrow> control_ok env c \<and> body = control_body env c"
proof
  assume "control_decode (fe_to_vec env) (fe_from_slice env) body = Inr c"
  then show "control_ok env c \<and> body = control_body env c"
    by (auto simp: control_decode_def rust_simps control_ok_def control_body_def
        dest: control_field.get_sound split: if_splits)
next
  assume h: "control_ok env c \<and> body = control_body env c"
  then have e: "control_encode (fe_to_vec env) c = Inr body"
    by (simp add: control_ok_def)
  then have "fe_to_vec env (raw_from c) = Some body" "validate c = Inr ()" "length body \<le> MAX_CONTROL_BYTES"
    by (auto simp: control_encode_def rust_simps split: if_splits)
  then show "control_decode (fe_to_vec env) (fe_from_slice env) body = Inr c"
    using h e assms by (simp add: control_decode_def control_field.get_put control_ok_def json_reads_back_def)
qed

lemma control_record:
  assumes "json_reads_back env"
  shows "record_codec (write_control env) (read_control env) (\<lambda>c. bytes_wire (control_body env c)) (control_ok env)"
proof
  show "writes (write_control env v) (bytes_wire (control_body env v))" if "control_ok env v" for v
    using that opw_writes(6) [OF control_encode_short, of "fe_to_vec env" v "control_body env v"]
    by (simp add: control_ok_def writes_def write_control_def encodable_def)
  show "read_control env d = Inr (v, d') \<longleftrightarrow> control_ok env v \<and> follows d (bytes_wire (control_body env v)) d'"
    for d v d'
    by (auto simp: read_control_def bind_r_Inr codec_reads map_err_Inr control_decode_exact [OF assms]
        control_ok_def intro: control_encode_short)
qed

definition basis_wire :: "fleet_env \<Rightarrow> recovery_basis \<Rightarrow> bytes" where
  "basis_wire env b = concat [spec_wire (rb_spec b), scope_wire (rb_scope b),
     bytes_wire (digest_bytes (rb_action_key b)), bytes_wire (node_bytes (rb_node b)),
     bytes_wire (session_bytes (rb_session b)), i64_to_be_bytes (rb_accepted_at_ms b),
     bytes_wire (control_body env (rb_control b)), i64_to_be_bytes (rb_observed_at_ms b)]"

definition basis_ok :: "fleet_env \<Rightarrow> recovery_basis \<Rightarrow> bool" where
  "basis_ok env b \<longleftrightarrow> spec_wf (rb_spec b) \<and> scope_ok (rb_scope b) \<and> length (digest_bytes (rb_action_key b)) = 32
     \<and> length (node_bytes (rb_node b)) = 16 \<and> length (session_bytes (rb_session b)) = 16
     \<and> is_i64 (rb_accepted_at_ms b) \<and> control_ok env (rb_control b) \<and> is_i64 (rb_observed_at_ms b)
     \<and> basis_validate env b = Inr ()"

lemma basis_cases:
  obtains s c k n t a r l where "b = \<lparr>rb_spec = s, rb_scope = c, rb_action_key = Digest k, rb_node = NodeId n,
     rb_session = SessionId t, rb_accepted_at_ms = a, rb_control = r, rb_observed_at_ms = l\<rparr>"
  by (cases b; cases "rb_action_key b"; cases "rb_node b"; cases "rb_session b") simp

lemma basis_record:
  assumes "json_reads_back env"
  shows "record_codec (write_basis env) (read_basis env) (basis_wire env) (basis_ok env)"
proof
  note control = record_codec.put_writes [OF control_record [OF assms]] record_codec.get_exact [OF control_record [OF assms]]
  show "writes (write_basis env v) (basis_wire env v)" if "basis_ok env v" for v
    unfolding write_basis_def basis_wire_def using that
    by (intro write_all_writes) (simp add: opw_writes fits_id basis_ok_def spec.put_writes scope.put_writes control)
  show "read_basis env d = Inr (v, d') \<longleftrightarrow> basis_ok env v \<and> follows d (basis_wire env v) d'" for d v d'
    by (cases v rule: basis_cases)
      (auto simp: read_basis_def bind_r_Inr codec_reads basis_ok_def basis_wire_def follows_simps
        spec.get_exact scope.get_exact control Let_def)
qed

definition evidence_wire :: "fleet_env \<Rightarrow> recovery_evidence \<Rightarrow> bytes" where
  "evidence_wire env v = concat [basis_wire env (re_basis v), bytes_wire (control_body env (re_restored v)),
     i64_to_be_bytes (re_recorded_at_ms v)]"

definition evidence_ok :: "fleet_env \<Rightarrow> recovery_evidence \<Rightarrow> bool" where
  "evidence_ok env v \<longleftrightarrow> basis_ok env (re_basis v) \<and> control_ok env (re_restored v)
     \<and> is_i64 (re_recorded_at_ms v) \<and> evidence_validate env v = Inr ()"

lemma evidence_record:
  assumes "json_reads_back env"
  shows "record_codec (write_evidence env) (read_evidence env) (evidence_wire env) (evidence_ok env)"
proof
  note control = record_codec.put_writes [OF control_record [OF assms]] record_codec.get_exact [OF control_record [OF assms]]
  note basis = record_codec.put_writes [OF basis_record [OF assms]] record_codec.get_exact [OF basis_record [OF assms]]
  show "writes (write_evidence env v) (evidence_wire env v)" if "evidence_ok env v" for v
    unfolding write_evidence_def evidence_wire_def using that
    by (intro write_all_writes) (simp add: opw_writes evidence_ok_def control basis)
  show "read_evidence env d = Inr (v, d') \<longleftrightarrow> evidence_ok env v \<and> follows d (evidence_wire env v) d'" for d v d'
    by (cases v) (auto simp: read_evidence_def bind_r_Inr codec_reads evidence_ok_def evidence_wire_def follows_simps
        evidence_new_def control basis Let_def)
qed

definition activation_wire :: "activation_evidence \<Rightarrow> bytes" where
  "activation_wire v = concat [bytes_wire (node_bytes (av_node v)), bytes_wire (session_bytes (av_session v)),
     position_wire (av_position v)]"

definition activation_ok :: "activation_evidence \<Rightarrow> bool" where
  "activation_ok v \<longleftrightarrow> length (node_bytes (av_node v)) = 16 \<and> length (session_bytes (av_session v)) = 16
     \<and> position_ok (av_position v)"

lemma activation_cases:
  obtains n s p where "v = \<lparr>av_node = NodeId n, av_session = SessionId s, av_position = p\<rparr>"
  by (cases v; cases "av_node v"; cases "av_session v") simp

interpretation activation: record_codec write_activation read_activation activation_wire activation_ok
proof
  show "writes (write_activation v) (activation_wire v)" if "activation_ok v" for v
    unfolding write_activation_def activation_wire_def using that
    by (intro write_all_writes) (simp add: opw_writes fits_id activation_ok_def position.put_writes)
  show "read_activation d = Inr (v, d') \<longleftrightarrow> activation_ok v \<and> follows d (activation_wire v) d'" for d v d'
    by (cases v rule: activation_cases)
      (auto simp: read_activation_def bind_r_Inr codec_reads activation_ok_def activation_wire_def follows_simps
        position.get_exact)
qed

definition recovered_wire :: "fleet_env \<Rightarrow> recovered_activation \<Rightarrow> bytes" where
  "recovered_wire env r = concat [evidence_wire env (ra_recovery r), activation_wire (ra_serving r)]"

definition recovered_ok :: "fleet_env \<Rightarrow> recovered_activation \<Rightarrow> bool" where
  "recovered_ok env r \<longleftrightarrow> evidence_ok env (ra_recovery r) \<and> activation_ok (ra_serving r)
     \<and> recovered_validate env r = Inr ()"

lemma recovered_record:
  assumes "json_reads_back env"
  shows "record_codec (write_recovered env) (read_recovered env) (recovered_wire env) (recovered_ok env)"
proof
  note evidence = record_codec.put_writes [OF evidence_record [OF assms]] record_codec.get_exact [OF evidence_record [OF assms]]
  show "writes (write_recovered env v) (recovered_wire env v)" if "recovered_ok env v" for v
    unfolding write_recovered_def recovered_wire_def using that
    by (intro write_all_writes) (simp add: recovered_ok_def evidence activation.put_writes)
  show "read_recovered env d = Inr (v, d') \<longleftrightarrow> recovered_ok env v \<and> follows d (recovered_wire env v) d'" for d v d'
    by (cases v) (auto simp: read_recovered_def bind_r_Inr recovered_ok_def recovered_wire_def follows_simps
        evidence activation.get_exact Let_def)
qed

subsection \<open>Attempts are a codec\<close>

lemma attempt_phase_exact: "attempt_phase_of_code n = Inr p \<longleftrightarrow> n = attempt_phase_code p"
  by (cases p) (auto simp: attempt_phase_of_code_def split: if_splits)

definition reservation_wire :: "receiver_reservation \<Rightarrow> bytes" where
  "reservation_wire r = concat [bytes_wire (session_bytes (rv_session r)), i64_to_be_bytes (rv_expires_at_ms r)]"

definition reservation_ok :: "receiver_reservation \<Rightarrow> bool" where
  "reservation_ok r \<longleftrightarrow> length (session_bytes (rv_session r)) = 16 \<and> is_i64 (rv_expires_at_ms r)"

lemma reservation_cases: obtains s x where "r = \<lparr>rv_session = SessionId s, rv_expires_at_ms = x\<rparr>"
  by (cases r; cases "rv_session r") simp

interpretation reservation: record_codec write_reservation read_reservation reservation_wire reservation_ok
proof
  show "writes (write_reservation v) (reservation_wire v)" if "reservation_ok v" for v
    unfolding write_reservation_def reservation_wire_def using that
    by (intro write_all_writes) (simp add: opw_writes fits_id reservation_ok_def)
  show "read_reservation d = Inr (v, d') \<longleftrightarrow> reservation_ok v \<and> follows d (reservation_wire v) d'" for d v d'
    by (cases v rule: reservation_cases)
      (auto simp: read_reservation_def bind_r_Inr codec_reads reservation_ok_def reservation_wire_def follows_simps)
qed

interpretation timestamp: record_codec "\<lambda>at. opw (write_i64 at)" "opr read_i64" i64_to_be_bytes is_i64
  by unfold_locales (auto simp: opw_writes codec_reads)

lemmas attempt_options = reservation.opt_codec position.opt_codec activation.opt_codec timestamp.opt_codec

lemmas attempt_option_writes = attempt_options [THEN record_codec.put_writes]
lemmas attempt_option_reads = attempt_options [THEN record_codec.get_exact]

definition recovered_tail :: "fleet_env \<Rightarrow> recovered_activation option \<Rightarrow> bytes" where
  "recovered_tail env x = (case x of None \<Rightarrow> [] | Some r \<Rightarrow> recovered_wire env r)"

definition attempt_wire :: "fleet_env \<Rightarrow> move_attempt \<Rightarrow> bytes" where
  "attempt_wire env a = concat [spec_wire (ma_spec a), [attempt_phase_code (ma_phase a)],
     option_wire reservation_wire (ma_reservation a), option_wire position_wire (ma_released a),
     option_wire activation_wire (ma_activated a), [if ma_receiver_cleaned a then 1 else 0],
     [blocker_code (ma_blocker a)], option_wire i64_to_be_bytes (ma_completed_at_ms a),
     recovered_tail env (ma_recovered a)]"

definition attempt_wf :: "fleet_env \<Rightarrow> move_attempt \<Rightarrow> bool" where
  "attempt_wf env a \<longleftrightarrow> spec_wf (ma_spec a) \<and> pred_option reservation_ok (ma_reservation a)
     \<and> pred_option position_ok (ma_released a) \<and> pred_option activation_ok (ma_activated a)
     \<and> pred_option is_i64 (ma_completed_at_ms a) \<and> pred_option (recovered_ok env) (ma_recovered a)"

definition attempt_ok :: "fleet_env \<Rightarrow> move_attempt \<Rightarrow> bool" where
  "attempt_ok env a \<longleftrightarrow> attempt_wf env a \<and> attempt_validate env a = Inr ()"

lemma attempt_writes:
  assumes "json_reads_back env" and "attempt_ok env a"
  shows "writes (write_attempt env a) (attempt_wire env a)"
proof -
  note recovered = record_codec.put_writes [OF recovered_record [OF assms(1)]]
  have "writes (write_attempt env a) (concat ([spec_wire (ma_spec a), [attempt_phase_code (ma_phase a)],
     option_wire reservation_wire (ma_reservation a), option_wire position_wire (ma_released a),
     option_wire activation_wire (ma_activated a), [if ma_receiver_cleaned a then 1 else 0],
     [blocker_code (ma_blocker a)], option_wire i64_to_be_bytes (ma_completed_at_ms a)]
     @ (case ma_recovered a of None \<Rightarrow> [] | Some r \<Rightarrow> [recovered_wire env r])))"
    unfolding write_attempt_def using assms(2)
    by (intro write_all_writes, cases "ma_recovered a") (simp_all add: opw_writes attempt_ok_def attempt_wf_def
        spec.put_writes blocker.put_writes attempt_option_writes recovered)
  then show ?thesis
    by (cases "ma_recovered a") (simp_all add: attempt_wire_def recovered_tail_def split del: if_split)
qed

lemma attempt_record:
  assumes "json_reads_back env"
  shows "record_codec (write_attempt env) (read_attempt env) (attempt_wire env) (attempt_ok env)"
proof
  show "writes (write_attempt env v) (attempt_wire env v)" if "attempt_ok env v" for v
    using assms that by (rule attempt_writes)
  note recovered = record_codec.get_exact [OF recovered_record [OF assms]]
  have phase: "(ma_phase a = Recovered) = (ma_recovered a \<noteq> None)" if "attempt_validate env a = Inr ()" for a
    using that [unfolded attempt_validate_Inr] by blast
  show "read_attempt env d = Inr (v, d') \<longleftrightarrow> attempt_ok env v \<and> follows d (attempt_wire env v) d'" for d v d'
  proof (cases "ma_recovered v")
    case None
    then show ?thesis
      using phase [of v]
      by (cases v) (auto simp: read_attempt_def bind_r_Inr codec_reads attempt_ok_def attempt_wf_def attempt_wire_def
          recovered_tail_def follows_simps spec.get_exact blocker.get_exact attempt_option_reads attempt_phase_exact
          Let_def simp del: append.simps(2) split del: if_split split: if_split_asm)
  next
    case (Some r)
    then show ?thesis
      using phase [of v]
      by (cases v) (auto simp: read_attempt_def bind_r_Inr codec_reads attempt_ok_def attempt_wf_def attempt_wire_def
          recovered_tail_def follows_simps spec.get_exact blocker.get_exact attempt_option_reads attempt_phase_exact
          recovered Let_def simp del: append.simps(2) split del: if_split split: if_split_asm)
  qed
qed

end
