(* ===== verification/Fleet_Journal.thy ===== *)
theory Fleet_Journal
  imports Attempt_Codec
begin

text \<open>
  The fleet journal, \<^verbatim>\<open>crates/cellule-runtime/src/fleet/operations/journal.rs\<close>, with its history
  pages (\<^verbatim>\<open>history.rs\<close>) and their records (\<^verbatim>\<open>codec/mod.rs\<close>, \<^verbatim>\<open>codec/pages.rs\<close>). One head, published
  by compare-and-swap, holds the controller lease, the maintenance in progress and every unresolved
  movement attempt with its permit of the fleet's budget; retired attempts move into a chain of
  immutable pages. Every operation computes a successor of the head and leaves the head alone.

  The specification of the head is a book of permits: a permit is granted once under a fresh
  number, within the fleet's count and byte budget and to one movement of a Cell at a time, it is
  settled by its own movement only, and only settled permits are returned.
\<close>

subsection \<open>History pages\<close>

record progress_head =
  ph_digest :: digest
  ph_sequence :: u64

definition progress_validate :: "progress_head \<Rightarrow> unit op_result" where
  "progress_validate p = reject_if (ph_sequence p = 0 \<or> \<not> nonzero (digest_bytes (ph_digest p)))
     (Op_Invalid ''invalid progress head'')"

record progress_page =
  pg_scope :: fleet_scope
  pg_operation :: operation_id
  pg_sequence :: u64
  pg_previous :: "digest option"
  pg_entries :: "move_attempt list"

definition foreign_recovery :: "fleet_scope \<Rightarrow> move_attempt \<Rightarrow> bool" where
  "foreign_recovery scope a = (case ma_recovered a of None \<Rightarrow> False
     | Some r \<Rightarrow> rb_scope (re_basis (ra_recovery r)) \<noteq> scope)"

fun page_entries_validate :: "fleet_env \<Rightarrow> fleet_scope \<Rightarrow> operation_id \<Rightarrow> u64 \<Rightarrow> move_attempt list
    \<Rightarrow> unit op_result" where
  "page_entries_validate env scope operation previous [] = Inr ()"
| "page_entries_validate env scope operation previous (a # as) =
     bind_r (attempt_validate env a) (\<lambda>_.
     bind_r (reject_if (foreign_recovery scope a) (Op_Invalid ''recovery history belongs to another fleet'')) (\<lambda>_.
     bind_r (reject_if (\<not> can_retire a \<or> ai_operation (sp_id (ma_spec a)) \<noteq> operation
         \<or> ct_application (sp_target (ma_spec a)) \<noteq> fs_application scope
         \<or> ai_sequence (sp_id (ma_spec a)) \<le> previous)
       (Op_Invalid ''unproven or unordered historical attempt'')) (\<lambda>_.
     page_entries_validate env scope operation (ai_sequence (sp_id (ma_spec a))) as)))"

definition page_validate :: "fleet_env \<Rightarrow> progress_page \<Rightarrow> unit op_result" where
  "page_validate env p =
     bind_r (scope_validate (pg_scope p)) (\<lambda>_.
     bind_r (reject_if (\<not> nonzero (operation_bytes (pg_operation p)) \<or> pg_sequence p = 0
         \<or> (pg_sequence p = 1) \<noteq> (pg_previous p = None)
         \<or> (case pg_previous p of None \<Rightarrow> False | Some digest \<Rightarrow> \<not> nonzero (digest_bytes digest))
         \<or> pg_entries p = [] \<or> length (pg_entries p) > MAX_PAGE_ENTRIES)
       (Op_Invalid ''invalid progress page'')) (\<lambda>_.
     page_entries_validate env (pg_scope p) (pg_operation p) 0 (pg_entries p)))"

definition page_new :: "fleet_env \<Rightarrow> fleet_scope \<Rightarrow> operation_id \<Rightarrow> u64 \<Rightarrow> digest option \<Rightarrow> move_attempt list
    \<Rightarrow> progress_page op_result" where
  "page_new env scope operation sequence previous entries =
     (let p = \<lparr>pg_scope = scope, pg_operation = operation, pg_sequence = sequence, pg_previous = previous,
               pg_entries = entries\<rparr>
      in bind_r (page_validate env p) (\<lambda>_. Inr p))"

definition write_digest :: "digest \<Rightarrow> op_writer" where
  "write_digest g = opw (write_bytes (digest_bytes g))"

definition read_digest :: "digest op_reader" where
  "read_digest d = bind_r (read_id 32 d) (\<lambda>(bs, d). Inr (Digest bs, d))"

definition write_page :: "fleet_env \<Rightarrow> progress_page \<Rightarrow> op_writer" where
  "write_page env p = write_all [write_scope (pg_scope p), write_operation_id (pg_operation p),
     opw (write_u64 (pg_sequence p)), write_opt write_digest (pg_previous p),
     write_list (write_attempt env) (pg_entries p)]"

definition page_count :: "nat \<Rightarrow> bool" where
  "page_count n \<longleftrightarrow> \<not> (n = 0 \<or> n > MAX_PAGE_ENTRIES)"

definition read_page :: "fleet_env \<Rightarrow> progress_page op_reader" where
  "read_page env d =
     bind_r (read_scope d) (\<lambda>(scope, d).
     bind_r (read_operation_id d) (\<lambda>(operation, d).
     bind_r (opr read_u64 d) (\<lambda>(sequence, d).
     bind_r (read_opt read_digest d) (\<lambda>(previous, d).
     bind_r (read_list (read_attempt env) page_count d) (\<lambda>(entries, d).
     Inr (\<lparr>pg_scope = scope, pg_operation = operation, pg_sequence = sequence, pg_previous = previous,
           pg_entries = entries\<rparr>, d))))))"

definition page_to_bytes :: "fleet_env \<Rightarrow> progress_page \<Rightarrow> bytes op_result" where
  "page_to_bytes env p = bind_r (page_validate env p) (\<lambda>_.
     encode_record PROGRESS MAX_PAGE_BYTES (write_page env p))"

definition page_from_bytes :: "fleet_env \<Rightarrow> bytes \<Rightarrow> progress_page op_result" where
  "page_from_bytes env bs = bind_r (decode_record PROGRESS MAX_PAGE_BYTES (read_page env) bs) (\<lambda>p.
     page_new env (pg_scope p) (pg_operation p) (pg_sequence p) (pg_previous p) (pg_entries p))"

definition page_digest :: "fleet_env \<Rightarrow> progress_page \<Rightarrow> digest op_result" where
  "page_digest env p = bind_r (page_to_bytes env p) (\<lambda>bs. Inr (Digest (fe_blake3 env bs)))"

subsection \<open>The head\<close>

record controller_lease =
  cl_claimant :: session_id
  cl_epoch :: u64
  cl_expires_at_ms :: i64

datatype journal_transition =
    BeginMaintenance maintenance_operation
  | Jt_Maintenance maintenance_event
  | Allocate move_attempt_spec
  | Jt_Attempt attempt_id attempt_event
  | ResolveUnaccepted attempt_id movement_action
  | Jt_Retire progress_page

record fleet_head =
  fh_scope :: fleet_scope
  fh_revision :: u64
  fh_last_observed_ms :: i64
  fh_controller :: "controller_lease option"
  fh_maintenance :: "maintenance_operation option"
  fh_next_sequence :: u64
  fh_attempts :: "move_attempt list"
  fh_progress :: "progress_head option"

definition head_new :: "fleet_scope \<Rightarrow> i64 \<Rightarrow> fleet_head op_result" where
  "head_new scope now =
     bind_r (scope_validate scope) (\<lambda>_.
     if now < 0 then Inl (Op_Invalid ''negative journal time'')
     else Inr \<lparr>fh_scope = scope, fh_revision = 0, fh_last_observed_ms = now, fh_controller = None,
               fh_maintenance = None, fh_next_sequence = 1, fh_attempts = [], fh_progress = None\<rparr>)"

definition head_node_intent :: "fleet_head \<Rightarrow> node_intent option op_result" where
  "head_node_intent h = transpose_opt (intent_maintenance (fh_scope h)) (fh_maintenance h)"

definition next_progress_sequence :: "fleet_head \<Rightarrow> u64 op_result" where
  "next_progress_sequence h = (case fh_progress h of None \<Rightarrow> Inr 1
     | Some p \<Rightarrow> ok_or (Op_Invalid ''progress sequence overflow'') (checked_add (ph_sequence p) 1))"

definition retirement_page :: "fleet_env \<Rightarrow> fleet_head \<Rightarrow> attempt_id list \<Rightarrow> progress_page op_result" where
  "retirement_page env h ids =
     (if ids = [] \<or> length ids > MAX_ACTIVE_ATTEMPTS then Inl (Op_Invalid ''invalid retirement batch'')
      else let entries = filter (\<lambda>a. sp_id (ma_spec a) \<in> set ids) (fh_attempts h) in
        if length entries \<noteq> length ids then Inl Op_NotFound
        else bind_r (next_progress_sequence h) (\<lambda>sequence.
          page_new env (fh_scope h) (ai_operation (sp_id (ma_spec (hd entries)))) sequence
            (map_option ph_digest (fh_progress h)) entries))"

definition reserved_restore_bytes :: "fleet_head \<Rightarrow> u64" where
  "reserved_restore_bytes h = sum_list (map (\<lambda>a. tc_disk_bytes (sp_cost (ma_spec a))) (fh_attempts h))"

text \<open>The validation loop over the active attempts; \<open>seen\<close> is the slice before the current index.\<close>

fun attempts_validate :: "fleet_env \<Rightarrow> fleet_head \<Rightarrow> move_attempt list \<Rightarrow> u64 \<Rightarrow> u64 \<Rightarrow> move_attempt list
    \<Rightarrow> u64 op_result" where
  "attempts_validate env h seen previous charged [] = Inr charged"
| "attempts_validate env h seen previous charged (a # as) =
     bind_r (attempt_validate env a) (\<lambda>_.
     bind_r (reject_if (foreign_recovery (fh_scope h) a) (Op_Invalid ''recovery belongs to another fleet'')) (\<lambda>_.
     bind_r (reject_if (case ma_completed_at_ms a of None \<Rightarrow> False | Some at \<Rightarrow> at > fh_last_observed_ms h)
       (Op_Invalid ''attempt result is ahead of its head'')) (\<lambda>_.
     bind_r (reject_if (ct_application (sp_target (ma_spec a)) \<noteq> fs_application (fh_scope h)
         \<or> ai_sequence (sp_id (ma_spec a)) \<ge> fh_next_sequence h \<or> ai_sequence (sp_id (ma_spec a)) \<le> previous
         \<or> list_ex (\<lambda>b. cell_id_of (fe_blake3 env) (sp_target (ma_spec b))
                        = cell_id_of (fe_blake3 env) (sp_target (ma_spec a))) seen)
       (Op_Invalid ''duplicate or unordered active attempt'')) (\<lambda>_.
     bind_r (ok_or Op_Budget (checked_add charged (tc_disk_bytes (sp_cost (ma_spec a))))) (\<lambda>charged.
     attempts_validate env h (seen @ [a]) (ai_sequence (sp_id (ma_spec a))) charged as)))))"

definition controller_validate :: "fleet_head \<Rightarrow> unit op_result" where
  "controller_validate h = (case fh_controller h of
       Some lease \<Rightarrow> reject_if (\<not> nonzero (session_bytes (cl_claimant lease)) \<or> cl_epoch lease = 0
           \<or> cl_expires_at_ms lease \<le> fh_last_observed_ms h \<or> fh_revision h = 0)
         (Op_Invalid ''invalid stored controller lease'')
     | None \<Rightarrow> reject_if (fh_revision h \<noteq> 0 \<or> fh_attempts h \<noteq> [] \<or> fh_maintenance h \<noteq> None
           \<or> fh_next_sequence h \<noteq> 1 \<or> fh_progress h \<noteq> None)
         (Op_Invalid ''journal state lacks controller epoch''))"

definition head_validate :: "fleet_env \<Rightarrow> fleet_head \<Rightarrow> unit op_result" where
  "head_validate env h =
     bind_r (scope_validate (fh_scope h)) (\<lambda>_.
     bind_r (reject_if (fh_last_observed_ms h < 0 \<or> fh_next_sequence h = 0
         \<or> length (fh_attempts h) > MAX_ACTIVE_ATTEMPTS) (Op_Invalid ''invalid fleet head'')) (\<lambda>_.
     bind_r (controller_validate h) (\<lambda>_.
     bind_r (check_opt (\<lambda>p. bind_r (progress_validate p) (\<lambda>_.
         reject_if (ph_sequence p \<ge> fh_next_sequence h \<or> ph_sequence p > fh_revision h)
           (Op_Invalid ''progress chain is ahead of journal allocations''))) (fh_progress h)) (\<lambda>_.
     bind_r (check_opt (\<lambda>m. bind_r (maintenance_validate m) (\<lambda>_.
         reject_if (mo_created_at_ms m > fh_last_observed_ms h)
           (Op_Invalid ''maintenance record is ahead of its head''))) (fh_maintenance h)) (\<lambda>_.
     bind_r (attempts_validate env h [] 0 0 (fh_attempts h)) (\<lambda>charged.
     reject_if (charged > MAX_RESTORE_BYTES) Op_Budget))))))"

definition check_revision_and_time :: "fleet_head \<Rightarrow> u64 \<Rightarrow> i64 \<Rightarrow> unit op_result" where
  "check_revision_and_time h expected now =
     bind_r (reject_if (expected \<noteq> fh_revision h) Op_Conflict) (\<lambda>_.
     reject_if (now < fh_last_observed_ms h) (Op_Invalid ''journal observation time regressed''))"

definition finish_transition :: "fleet_env \<Rightarrow> fleet_head \<Rightarrow> i64 \<Rightarrow> fleet_head op_result" where
  "finish_transition env h now =
     bind_r (ok_or (Op_Invalid ''journal revision overflow'') (checked_add (fh_revision h) 1)) (\<lambda>revision.
     let next = h\<lparr>fh_revision := revision, fh_last_observed_ms := now\<rparr>
     in bind_r (head_validate env next) (\<lambda>_. Inr next))"

definition claim_epoch :: "fleet_head \<Rightarrow> session_id \<Rightarrow> i64 \<Rightarrow> u64 op_result" where
  "claim_epoch h claimant now = (case fh_controller h of
       Some current \<Rightarrow> (if now < cl_expires_at_ms current
          then if cl_claimant current \<noteq> claimant then Inl Op_Fenced else Inr (cl_epoch current)
          else ok_or (Op_Invalid ''controller epoch overflow'') (checked_add (cl_epoch current) 1))
     | None \<Rightarrow> Inr 1)"

definition claim :: "fleet_env \<Rightarrow> fleet_head \<Rightarrow> fleet_profile \<Rightarrow> u64 \<Rightarrow> session_id \<Rightarrow> i64 \<Rightarrow> fleet_head op_result" where
  "claim env h profile expected claimant now =
     bind_r (profile_validate profile) (\<lambda>profile.
     bind_r (check_revision_and_time h expected now) (\<lambda>_.
     if \<not> nonzero (session_bytes claimant) then Inl (Op_Invalid ''zero controller claimant'') else
     bind_r (claim_epoch h claimant now) (\<lambda>epoch.
     bind_r (ok_or (Op_Invalid ''controller lease time overflow'')
       (i64_checked_add now (fp_controller_lease_ms profile))) (\<lambda>expires.
     finish_transition env (h\<lparr>fh_controller := Some \<lparr>cl_claimant = claimant, cl_epoch = epoch,
       cl_expires_at_ms = expires\<rparr>\<rparr>) now))))"

subsection \<open>Transitions\<close>

definition touches :: "node_id \<Rightarrow> move_attempt \<Rightarrow> bool" where
  "touches node a \<longleftrightarrow> sp_source_node (ma_spec a) = node \<or> sp_destination_node (ma_spec a) = node"

definition closing_event :: "maintenance_event \<Rightarrow> bool" where
  "closing_event event = (case event of ReadyToClose _ \<Rightarrow> True | Me_Stopped _ \<Rightarrow> True | _ \<Rightarrow> False)"

definition same_request :: "maintenance_operation \<Rightarrow> maintenance_operation \<Rightarrow> bool" where
  "same_request old m \<longleftrightarrow> mo_request_digest old = mo_request_digest m \<and> mo_node old = mo_node m
     \<and> mo_created_at_ms old = mo_created_at_ms m"

definition begin_maintenance :: "fleet_head \<Rightarrow> i64 \<Rightarrow> maintenance_operation \<Rightarrow> fleet_head op_result" where
  "begin_maintenance h now m =
     bind_r (maintenance_validate m) (\<lambda>_.
     bind_r (reject_if (mo_phase m \<noteq> Mp_Requested \<or> mo_created_at_ms m > now)
       (Op_Invalid ''maintenance request is not initial'')) (\<lambda>_.
     let install = (if now \<ge> mo_deadline_ms m then Inl Op_Deadline else Inr (h\<lparr>fh_maintenance := Some m\<rparr>))
     in case fh_maintenance h of None \<Rightarrow> install
        | Some old \<Rightarrow> (if mo_id old = mo_id m then if same_request old m then Inr h else Inl Op_Conflict
            else if mo_phase old \<noteq> Mp_Completed then Inl Op_Busy else install)))"

definition maintain :: "fleet_head \<Rightarrow> i64 \<Rightarrow> maintenance_event \<Rightarrow> fleet_head op_result" where
  "maintain h now event =
     bind_r (ok_or Op_NotFound (fh_maintenance h)) (\<lambda>m.
     bind_r (reject_if (closing_event event \<and> list_ex (touches (mo_node m)) (fh_attempts h))
       (Op_Invalid ''node still has unresolved movement'')) (\<lambda>_.
     bind_r (maintenance_apply m event now) (\<lambda>n. Inr (h\<lparr>fh_maintenance := Some n\<rparr>))))"

definition allocation_allowed :: "maintenance_operation \<Rightarrow> i64 \<Rightarrow> move_attempt_spec \<Rightarrow> unit op_result" where
  "allocation_allowed m now spec =
     bind_r (reject_if (sp_destination_node spec = mo_node m)
       (Op_Invalid ''receiver has durable maintenance intent'')) (\<lambda>_.
     if sp_source_node spec = mo_node m then
       bind_r (reject_if (ai_operation (sp_id spec) \<noteq> mo_id m \<or> sp_source spec \<noteq> mo_session m
           \<or> mo_phase m \<noteq> Mp_Evacuating) (Op_Invalid ''maintenance source identity or phase mismatch'')) (\<lambda>_.
       reject_if (now \<ge> mo_deadline_ms m) Op_Deadline)
     else Inr ())"

definition allocate :: "fleet_env \<Rightarrow> fleet_head \<Rightarrow> fleet_profile \<Rightarrow> i64 \<Rightarrow> move_attempt_spec \<Rightarrow> fleet_head op_result" where
  "allocate env h profile now spec =
     bind_r (spec_validate spec) (\<lambda>_.
     bind_r (reject_if (ct_application (sp_target spec) \<noteq> fs_application (fh_scope h)
         \<or> ai_sequence (sp_id spec) \<noteq> fh_next_sequence h)
       (Op_Invalid ''attempt sequence or application mismatch'')) (\<lambda>_.
     bind_r (reject_if (now \<ge> sp_deadline_ms spec) Op_Deadline) (\<lambda>_.
     bind_r (check_opt (\<lambda>m. allocation_allowed m now spec) (fh_maintenance h)) (\<lambda>_.
     bind_r (reject_if (list_ex (\<lambda>a. cell_id_of (fe_blake3 env) (sp_target (ma_spec a))
         = cell_id_of (fe_blake3 env) (sp_target spec)) (fh_attempts h)) Op_Busy) (\<lambda>_.
     bind_r (ok_or Op_Budget (checked_add (reserved_restore_bytes h) (tc_disk_bytes (sp_cost spec)))) (\<lambda>charged.
     bind_r (reject_if (length (fh_attempts h) \<ge> fp_max_inflight profile
         \<or> charged > fp_max_restore_bytes profile) Op_Budget) (\<lambda>_.
     bind_r (ok_or (Op_Invalid ''attempt sequence overflow'') (checked_add (fh_next_sequence h) 1)) (\<lambda>next.
     bind_r (attempt_new spec) (\<lambda>a.
     Inr (h\<lparr>fh_next_sequence := next, fh_attempts := fh_attempts h @ [a]\<rparr>))))))))))"

fun update_attempt :: "attempt_id \<Rightarrow> (move_attempt \<Rightarrow> move_attempt op_result) \<Rightarrow> move_attempt list
    \<Rightarrow> move_attempt list op_result" where
  "update_attempt i f [] = Inl Op_NotFound"
| "update_attempt i f (a # as) = (if sp_id (ma_spec a) = i then bind_r (f a) (\<lambda>b. Inr (b # as))
     else bind_r (update_attempt i f as) (\<lambda>bs. Inr (a # bs)))"

definition find_attempt :: "attempt_id \<Rightarrow> move_attempt list \<Rightarrow> move_attempt op_result" where
  "find_attempt i as = ok_or Op_NotFound (find (\<lambda>a. sp_id (ma_spec a) = i) as)"

definition busy_release_allowed :: "fleet_head \<Rightarrow> i64 \<Rightarrow> attempt_id \<Rightarrow> unit op_result" where
  "busy_release_allowed h now i =
     bind_r (ok_or (Op_Invalid ''busy release lacks maintenance intent'') (fh_maintenance h)) (\<lambda>m.
     bind_r (find_attempt i (fh_attempts h)) (\<lambda>a.
     bind_r (reject_if (ai_operation (sp_id (ma_spec a)) \<noteq> mo_id m \<or> sp_source_node (ma_spec a) \<noteq> mo_node m
         \<or> sp_source (ma_spec a) \<noteq> mo_session m \<or> mo_phase m \<noteq> Mp_Evacuating)
       (Op_Invalid ''busy release maintenance identity mismatch'')) (\<lambda>_.
     reject_if (now \<ge> mo_deadline_ms m) Op_Deadline)))"

definition apply_attempt :: "fleet_env \<Rightarrow> fleet_head \<Rightarrow> i64 \<Rightarrow> attempt_id \<Rightarrow> attempt_event \<Rightarrow> fleet_head op_result" where
  "apply_attempt env h now i event =
     bind_r (if event = BeginMaintenanceRelease then busy_release_allowed h now i else Inr ()) (\<lambda>_.
     bind_r (update_attempt i (\<lambda>a. attempt_apply env a event now) (fh_attempts h)) (\<lambda>as.
     Inr (h\<lparr>fh_attempts := as\<rparr>)))"

definition resolve_attempt :: "fleet_env \<Rightarrow> fleet_head \<Rightarrow> i64 \<Rightarrow> attempt_id \<Rightarrow> movement_action \<Rightarrow> fleet_head op_result" where
  "resolve_attempt env h now i effect =
     bind_r (update_attempt i (\<lambda>a. resolve_unaccepted env a effect now) (fh_attempts h)) (\<lambda>as.
     Inr (h\<lparr>fh_attempts := as\<rparr>))"

fun entries_match :: "move_attempt list \<Rightarrow> move_attempt list \<Rightarrow> unit op_result" where
  "entries_match as [] = Inr ()"
| "entries_match as (e # es) =
     bind_r (find_attempt (sp_id (ma_spec e)) as) (\<lambda>a.
     bind_r (reject_if (a \<noteq> e) (Op_Invalid ''historical attempt differs from active permit'')) (\<lambda>_.
     entries_match as es))"

definition retire :: "fleet_env \<Rightarrow> fleet_head \<Rightarrow> progress_page \<Rightarrow> fleet_head op_result" where
  "retire env h page =
     (let mismatch = Op_Invalid ''progress chain does not extend the current head'' in
     bind_r (page_validate env page) (\<lambda>_.
     if pg_scope page \<noteq> fh_scope h then Inl mismatch else
     bind_r (next_progress_sequence h) (\<lambda>sequence.
     bind_r (reject_if (pg_sequence page \<noteq> sequence \<or> pg_previous page \<noteq> map_option ph_digest (fh_progress h)
         \<or> length (pg_entries page) > MAX_ACTIVE_ATTEMPTS) mismatch) (\<lambda>_.
     bind_r (entries_match (fh_attempts h) (pg_entries page)) (\<lambda>_.
     bind_r (page_digest env page) (\<lambda>digest.
     Inr (h\<lparr>fh_progress := Some \<lparr>ph_digest = digest, ph_sequence = pg_sequence page\<rparr>,
            fh_attempts := filter (\<lambda>a. \<not> list_ex (\<lambda>e. sp_id (ma_spec e) = sp_id (ma_spec a)) (pg_entries page))
              (fh_attempts h)\<rparr>)))))))"

fun transition_step :: "fleet_env \<Rightarrow> fleet_head \<Rightarrow> fleet_profile \<Rightarrow> i64 \<Rightarrow> journal_transition \<Rightarrow> fleet_head op_result" where
  "transition_step env h profile now (BeginMaintenance m) = begin_maintenance h now m"
| "transition_step env h profile now (Jt_Maintenance event) = maintain h now event"
| "transition_step env h profile now (Allocate spec) = allocate env h profile now spec"
| "transition_step env h profile now (Jt_Attempt i event) = apply_attempt env h now i event"
| "transition_step env h profile now (ResolveUnaccepted i effect) = resolve_attempt env h now i effect"
| "transition_step env h profile now (Jt_Retire page) = retire env h page"

definition fence_unaccepted :: "journal_transition \<Rightarrow> bool" where
  "fence_unaccepted t = (case t of ResolveUnaccepted _ _ \<Rightarrow> True | _ \<Rightarrow> False)"

definition head_transition :: "fleet_env \<Rightarrow> fleet_head \<Rightarrow> fleet_profile \<Rightarrow> u64 \<Rightarrow> u64 \<Rightarrow> i64 \<Rightarrow> journal_transition
    \<Rightarrow> fleet_head op_result" where
  "head_transition env h profile expected epoch now t =
     bind_r (profile_validate profile) (\<lambda>profile.
     bind_r (check_revision_and_time h expected now) (\<lambda>_.
     bind_r (ok_or Op_Fenced (fh_controller h)) (\<lambda>controller.
     if cl_epoch controller \<noteq> epoch \<or> now \<ge> cl_expires_at_ms controller then Inl Op_Fenced else
     bind_r (transition_step env h profile now t) (\<lambda>next.
     if next = h \<and> \<not> fence_unaccepted t then Inr next else finish_transition env next now))))"

subsection \<open>What validation of a head establishes\<close>

abbreviation seq_of :: "move_attempt \<Rightarrow> u64" where "seq_of a \<equiv> ai_sequence (sp_id (ma_spec a))"

abbreviation cell_of :: "fleet_env \<Rightarrow> move_attempt \<Rightarrow> cell_id" where
  "cell_of env a \<equiv> cell_id_of (fe_blake3 env) (sp_target (ma_spec a))"

abbreviation disk_of :: "move_attempt \<Rightarrow> nat" where "disk_of a \<equiv> unat (tc_disk_bytes (sp_cost (ma_spec a)))"

definition attempt_fits :: "fleet_env \<Rightarrow> fleet_head \<Rightarrow> move_attempt \<Rightarrow> bool" where
  "attempt_fits env h a \<longleftrightarrow> attempt_validate env a = Inr () \<and> \<not> foreign_recovery (fh_scope h) a
     \<and> (\<forall>at. ma_completed_at_ms a = Some at \<longrightarrow> at \<le> fh_last_observed_ms h)
     \<and> ct_application (sp_target (ma_spec a)) = fs_application (fh_scope h) \<and> seq_of a < fh_next_sequence h"

lemma attempts_validate_Inr:
  "attempts_validate env h seen previous charged as = Inr n \<longleftrightarrow> (\<forall>a \<in> set as. attempt_fits env h a)
     \<and> sorted_wrt (<) (previous # map seq_of as) \<and> distinct (map (cell_of env) as)
     \<and> (\<forall>a \<in> set as. \<forall>b \<in> set seen. cell_of env b \<noteq> cell_of env a)
     \<and> unat n = unat charged + sum_list (map disk_of as)"
proof (induction as arbitrary: seen previous charged)
  case Nil
  show ?case
    by (auto simp: word_unat_eq_iff)
next
  case (Cons a as)
  have head: "attempts_validate env h seen previous charged (a # as) = Inr n \<longleftrightarrow> attempt_fits env h a
      \<and> previous < seq_of a \<and> (\<forall>b \<in> set seen. cell_of env b \<noteq> cell_of env a)
      \<and> (\<exists>c. unat c = unat charged + disk_of a \<and> attempts_validate env h (seen @ [a]) (seq_of a) c as = Inr n)"
    by (auto simp: rust_simps attempt_fits_def list_ex_iff not_le not_less split: option.splits)
  have total: "(\<exists>c. unat (c :: u64) = k \<and> unat n = unat c + m) \<longleftrightarrow> unat n = k + m" for k m
  proof
    assume "unat n = k + m"
    then show "\<exists>c. unat (c :: u64) = k \<and> unat n = unat c + m"
      using unat_bound [of n] by (intro exI [of _ "of_nat k"]) (simp add: unat_of_nat take_bit_nat_eq_self_iff)
  qed auto
  have order: "sorted_wrt (<) (p # q # map seq_of as) \<longleftrightarrow> p < q \<and> sorted_wrt (<) (q # map seq_of as)" for p q
    by (auto intro: less_trans)
  show ?case
    unfolding head Cons.IH using total [of "unat charged + disk_of a" "sum_list (map disk_of as)"]
    by (auto simp: order simp del: sorted_wrt.simps(2))
qed

lemma head_validate_attempts:
  assumes "head_validate env h = Inr ()"
  shows "\<forall>a \<in> set (fh_attempts h). attempt_fits env h a" and "sorted_wrt (<) (map seq_of (fh_attempts h))"
    and "distinct (map (cell_of env) (fh_attempts h))" and "length (fh_attempts h) \<le> MAX_ACTIVE_ATTEMPTS"
    and "sum_list (map disk_of (fh_attempts h)) \<le> unat MAX_RESTORE_BYTES" and "0 \<le> fh_last_observed_ms h"
proof -
  obtain n where "attempts_validate env h [] 0 0 (fh_attempts h) = Inr n" "n \<le> MAX_RESTORE_BYTES"
      "length (fh_attempts h) \<le> MAX_ACTIVE_ATTEMPTS" "0 \<le> fh_last_observed_ms h"
    using assms by (auto simp: head_validate_def rust_simps not_less)
  then show "\<forall>a \<in> set (fh_attempts h). attempt_fits env h a" "sorted_wrt (<) (map seq_of (fh_attempts h))"
    "distinct (map (cell_of env) (fh_attempts h))" "length (fh_attempts h) \<le> MAX_ACTIVE_ATTEMPTS"
    "sum_list (map disk_of (fh_attempts h)) \<le> unat MAX_RESTORE_BYTES" "0 \<le> fh_last_observed_ms h"
    by (auto simp: attempts_validate_Inr word_le_nat_alt)
qed

lemma attempt_identity:
  assumes "sorted_wrt (<) (map seq_of as)" "a \<in> set as" "b \<in> set as" "seq_of a = seq_of b"
  shows "a = b"
proof -
  have "distinct (map seq_of as)"
    using assms(1) by (simp add: strict_sorted_iff)
  then show ?thesis
    using assms(2-4) by (auto simp: distinct_map inj_on_def)
qed

subsection \<open>Histories\<close>

inductive journal_step :: "fleet_env \<Rightarrow> fleet_head \<Rightarrow> fleet_head \<Rightarrow> bool" for env where
  claim: "claim env h profile expected claimant now = Inr h' \<Longrightarrow> journal_step env h h'"
| transition: "head_transition env h profile expected epoch now t = Inr h' \<Longrightarrow> journal_step env h h'"

lemma finish_transition_Inr:
  "finish_transition env n now = Inr h' \<longleftrightarrow> unat (fh_revision h') = Suc (unat (fh_revision n))
     \<and> h' = n\<lparr>fh_revision := fh_revision h', fh_last_observed_ms := now\<rparr> \<and> head_validate env h' = Inr ()"
  by (auto simp: finish_transition_def rust_simps Let_def)

interpretation valid_heads: preserved "journal_step env" "\<lambda>h. head_validate env h = Inr ()" for env
  by unfold_locales (auto simp: journal_step.simps claim_def head_transition_def bind_r_Inr finish_transition_def
      Let_def split: if_splits)

subsection \<open>How a step changes the active attempts\<close>

lemma update_attempt_Inr:
  assumes "update_attempt i f as = Inr bs"
  obtains xs a b ys where "as = xs @ a # ys" "bs = xs @ b # ys" "f a = Inr b" "sp_id (ma_spec a) = i"
proof -
  have "\<exists>xs a b ys. as = xs @ a # ys \<and> bs = xs @ b # ys \<and> f a = Inr b \<and> sp_id (ma_spec a) = i"
    using assms
  proof (induction as arbitrary: bs)
    case (Cons c as)
    show ?case
    proof (cases "sp_id (ma_spec c) = i")
      case True
      then show ?thesis
        using Cons.prems by (intro exI [of _ "[]"]) (auto simp: bind_r_Inr)
    next
      case False
      then obtain cs where "update_attempt i f as = Inr cs" "bs = c # cs"
        using Cons.prems by (auto simp: bind_r_Inr)
      then show ?thesis
        using Cons.IH [of cs] by (metis append_Cons)
    qed
  qed simp
  then show ?thesis
    using that by blast
qed

text \<open>One step seen on the attempts: none changes, one is allocated, one moves on, or a page retires some.\<close>

inductive attempts_change :: "fleet_env \<Rightarrow> fleet_head \<Rightarrow> fleet_head \<Rightarrow> bool" for env h where
  same: "fh_attempts h' = fh_attempts h \<Longrightarrow> fh_next_sequence h' = fh_next_sequence h \<Longrightarrow> attempts_change env h h'"
| allocated: "allocate env h profile now spec = Inr n \<Longrightarrow> profile_validate profile = Inr profile
    \<Longrightarrow> fh_attempts h' = fh_attempts n
    \<Longrightarrow> fh_next_sequence h' = fh_next_sequence n \<Longrightarrow> attempts_change env h h'"
| moved: "fh_attempts h = xs @ a # ys \<Longrightarrow> fh_attempts h' = xs @ b # ys \<Longrightarrow> attempt_step env a b
    \<Longrightarrow> fh_next_sequence h' = fh_next_sequence h \<Longrightarrow> attempts_change env h h'"
| retired: "retire env h page = Inr n \<Longrightarrow> fh_attempts h' = fh_attempts n
    \<Longrightarrow> fh_next_sequence h' = fh_next_sequence h \<Longrightarrow> attempts_change env h h'"

lemma transition_step_change:
  assumes "transition_step env h profile now t = Inr n" and "profile_validate profile = Inr profile"
    and "\<forall>a \<in> set (fh_attempts h). attempt_validate env a = Inr ()"
    and "fh_attempts h' = fh_attempts n" "fh_next_sequence h' = fh_next_sequence n"
  shows "attempts_change env h h'"
proof (cases t)
  case (BeginMaintenance m)
  then show ?thesis
    using assms by (intro same) (auto simp: begin_maintenance_def bind_r_Inr Let_def split: option.splits if_splits)
next
  case (Jt_Maintenance event)
  then show ?thesis
    using assms by (intro same) (auto simp: maintain_def bind_r_Inr)
next
  case (Allocate spec)
  then show ?thesis
    using assms by (intro allocated) auto
next
  case (Jt_Attempt i event)
  then obtain as where "update_attempt i (\<lambda>a. attempt_apply env a event now) (fh_attempts h) = Inr as"
      "n = h\<lparr>fh_attempts := as\<rparr>"
    using assms(1) by (auto simp: apply_attempt_def bind_r_Inr)
  then show ?thesis
    using assms(3-5) by (elim update_attempt_Inr) (auto intro!: moved attempt_step.event)
next
  case (ResolveUnaccepted i effect)
  then obtain as where "update_attempt i (\<lambda>a. resolve_unaccepted env a effect now) (fh_attempts h) = Inr as"
      "n = h\<lparr>fh_attempts := as\<rparr>"
    using assms(1) by (auto simp: resolve_attempt_def bind_r_Inr)
  then show ?thesis
    using assms(3-5) by (elim update_attempt_Inr) (auto intro!: moved attempt_step.absent)
next
  case (Jt_Retire page)
  then show ?thesis
    using assms by (intro retired [of env h page n]) (auto simp: retire_def bind_r_Inr Let_def split: if_splits)
qed

lemma journal_step_change:
  assumes "journal_step env h h'" and "head_validate env h = Inr ()"
  shows "attempts_change env h h'"
  using assms(1)
proof cases
  case (claim profile expected claimant now)
  then show ?thesis
    by (intro same) (auto simp: claim_def bind_r_Inr finish_transition_def Let_def split: if_splits)
next
  case (transition profile expected epoch now t)
  then obtain n where n: "transition_step env h profile now t = Inr n" "profile_validate profile = Inr profile"
      "h' = n \<or> finish_transition env n now = Inr h'"
    by (auto simp: head_transition_def bind_r_Inr profile_validate_def split: if_splits)
  moreover have "fh_attempts h' = fh_attempts n" "fh_next_sequence h' = fh_next_sequence n"
    using n(3) by (auto simp: finish_transition_def bind_r_Inr Let_def)
  ultimately show ?thesis
    using head_validate_attempts(1) [OF assms(2)] by (intro transition_step_change) (auto simp: attempt_fits_def)
qed

lemma allocate_Inr:
  assumes "allocate env h profile now spec = Inr n"
  shows "spec_validate spec = Inr ()" "ai_sequence (sp_id spec) = fh_next_sequence h"
    "unat (fh_next_sequence n) = Suc (unat (fh_next_sequence h))"
    "\<exists>a. attempt_new spec = Inr a \<and> fh_attempts n = fh_attempts h @ [a]"
    "check_opt (\<lambda>m. allocation_allowed m now spec) (fh_maintenance h) = Inr ()"
  using assms by (auto simp: allocate_def bind_r_Inr reject_if_Inr ok_or_Inr checked_add_Some)

lemma page_entries_settled:
  "page_entries_validate env scope operation previous es = Inr () \<Longrightarrow> e \<in> set es
    \<Longrightarrow> can_retire e \<and> attempt_validate env e = Inr ()"
  by (induction es arbitrary: previous) (auto simp: bind_r_Inr reject_if_Inr)

lemma find_attempt_member: "find_attempt i as = Inr a \<Longrightarrow> a \<in> set as"
  by (auto simp: find_attempt_def ok_or_Inr find_Some_iff)

lemma entries_match_find:
  "entries_match as es = Inr () \<Longrightarrow> e \<in> set es \<Longrightarrow> find_attempt (sp_id (ma_spec e)) as = Inr e"
  by (induction es) (auto simp: bind_r_Inr reject_if_Inr)

text \<open>A page retires settled attempts only, and each of them entirely: its entry is the attempt.\<close>

lemma retire_Inr:
  assumes "retire env h page = Inr n" and "sorted_wrt (<) (map seq_of (fh_attempts h))"
  shows "fh_attempts n = filter (\<lambda>a. a \<notin> set (pg_entries page)) (fh_attempts h)"
    "set (pg_entries page) \<subseteq> set (fh_attempts h)" "\<forall>e \<in> set (pg_entries page). can_retire e"
proof -
  have n: "page_entries_validate env (pg_scope page) (pg_operation page) 0 (pg_entries page) = Inr ()"
      "entries_match (fh_attempts h) (pg_entries page) = Inr ()"
      "fh_attempts n = filter (\<lambda>a. \<not> list_ex (\<lambda>e. sp_id (ma_spec e) = sp_id (ma_spec a)) (pg_entries page)) (fh_attempts h)"
    using assms(1) by (auto simp: retire_def page_validate_def bind_r_Inr reject_if_Inr Let_def split: if_splits)
  show entries: "set (pg_entries page) \<subseteq> set (fh_attempts h)"
    using entries_match_find [OF n(2)] by (auto dest: find_attempt_member)
  show "\<forall>e \<in> set (pg_entries page). can_retire e"
    using page_entries_settled [OF n(1)] by blast
  have "list_ex (\<lambda>e. sp_id (ma_spec e) = sp_id (ma_spec a)) (pg_entries page) \<longleftrightarrow> a \<in> set (pg_entries page)"
    if "a \<in> set (fh_attempts h)" for a
  proof
    assume "list_ex (\<lambda>e. sp_id (ma_spec e) = sp_id (ma_spec a)) (pg_entries page)"
    then obtain e where "e \<in> set (pg_entries page)" "seq_of e = seq_of a"
      by (auto simp: list_ex_iff)
    then show "a \<in> set (pg_entries page)"
      using attempt_identity [OF assms(2), of e a] that entries by auto
  qed (auto simp: list_ex_iff)
  then show "fh_attempts n = filter (\<lambda>a. a \<notin> set (pg_entries page)) (fh_attempts h)"
    unfolding n(3) by (intro filter_cong) auto
qed

subsection \<open>The specification: a book of permits\<close>

record permit =
  pm_number :: nat
  pm_cell :: cell_id
  pm_bytes :: nat
  pm_settled :: bool

record book =
  bk_next :: nat
  bk_permits :: "permit list"

inductive book_step :: "book \<Rightarrow> book \<Rightarrow> bool" where
  grant: "pm_number p = bk_next b \<Longrightarrow> \<not> pm_settled p \<Longrightarrow> pm_cell p \<notin> pm_cell ` set (bk_permits b)
    \<Longrightarrow> length (bk_permits b) < MAX_ACTIVE_ATTEMPTS
    \<Longrightarrow> sum_list (map pm_bytes (bk_permits b)) + pm_bytes p \<le> unat MAX_RESTORE_BYTES
    \<Longrightarrow> book_step b \<lparr>bk_next = Suc (bk_next b), bk_permits = bk_permits b @ [p]\<rparr>"
| settle: "bk_permits b = ps @ p # qs \<Longrightarrow> book_step b (b\<lparr>bk_permits := ps @ p\<lparr>pm_settled := True\<rparr> # qs\<rparr>)"
| give_back: "\<forall>p \<in> set (bk_permits b). pm_number p \<in> N \<longrightarrow> pm_settled p
    \<Longrightarrow> book_step b (b\<lparr>bk_permits := filter (\<lambda>p. pm_number p \<notin> N) (bk_permits b)\<rparr>)"

definition permit_of :: "fleet_env \<Rightarrow> move_attempt \<Rightarrow> permit" where
  "permit_of env a = \<lparr>pm_number = unat (seq_of a), pm_cell = cell_of env a, pm_bytes = disk_of a,
     pm_settled = can_retire a\<rparr>"

definition book_of :: "fleet_env \<Rightarrow> fleet_head \<Rightarrow> book" where
  "book_of env h = \<lparr>bk_next = unat (fh_next_sequence h), bk_permits = map (permit_of env) (fh_attempts h)\<rparr>"

lemma grant_simulated:
  assumes "allocate env h profile now spec = Inr n" and "fh_attempts h' = fh_attempts n"
    and "fh_next_sequence h' = fh_next_sequence n" and "head_validate env h' = Inr ()"
  shows "book_step (book_of env h) (book_of env h')"
proof -
  obtain a where a: "attempt_new spec = Inr a" "fh_attempts h' = fh_attempts h @ [a]"
    using allocate_Inr(4) [OF assms(1)] assms(2) by auto
  then have "ma_spec a = spec" "\<not> can_retire a"
    by (auto simp: attempt_new_def bind_r_Inr can_retire_def)
  moreover have book: "book_of env h' = \<lparr>bk_next = Suc (bk_next (book_of env h)),
      bk_permits = bk_permits (book_of env h) @ [permit_of env a]\<rparr>"
    using allocate_Inr(3) [OF assms(1)] a assms(3) by (simp add: book_of_def)
  ultimately show ?thesis
    unfolding book using allocate_Inr(2) [OF assms(1)] head_validate_attempts(3-5) [OF assms(4)] a(2)
    by (intro book_step.grant) (auto simp: book_of_def permit_of_def comp_def)
qed

lemma move_simulated:
  assumes "fh_attempts h = xs @ a # ys" "fh_attempts h' = xs @ b # ys" "attempt_step env a b"
    and "fh_next_sequence h' = fh_next_sequence h"
  shows "book_of env h' = book_of env h \<or> book_step (book_of env h) (book_of env h')"
proof -
  have le: "attempt_le a b"
    using assms(3) by (rule attempts.step_le)
  then have p: "permit_of env b = (permit_of env a)\<lparr>pm_settled := can_retire b\<rparr>"
    by (simp add: permit_of_def attempt_le_def)
  have mono: "can_retire a \<Longrightarrow> can_retire b"
    using le unfolding attempt_le_def by (blast dest: can_retire_unblocked)
  show ?thesis
  proof (cases "can_retire b = can_retire a")
    case True
    then have "permit_of env b = permit_of env a"
      unfolding p by (simp add: permit_of_def)
    then show ?thesis
      using assms by (simp add: book_of_def)
  next
    case False
    then have b: "book_of env h' = (book_of env h)\<lparr>bk_permits := map (permit_of env) xs
        @ (permit_of env a)\<lparr>pm_settled := True\<rparr> # map (permit_of env) ys\<rparr>"
      using assms p False mono by (cases "can_retire b") (simp_all add: book_of_def)
    show ?thesis
      unfolding b using assms(1) by (intro disjI2 book_step.settle) (simp add: book_of_def)
  qed
qed

lemma retirement_simulated:
  assumes "retire env h page = Inr n" and "sorted_wrt (<) (map seq_of (fh_attempts h))"
    and "fh_attempts h' = fh_attempts n" and "fh_next_sequence h' = fh_next_sequence h"
  shows "book_step (book_of env h) (book_of env h')"
proof -
  let ?N = "(\<lambda>e. unat (seq_of e)) ` set (pg_entries page)"
  have member: "unat (seq_of a) \<in> ?N \<longleftrightarrow> a \<in> set (pg_entries page)" if "a \<in> set (fh_attempts h)" for a
    using that retire_Inr(2) [OF assms(1,2)] attempt_identity [OF assms(2)] by (auto simp: word_unat_eq_iff)
  have "map (permit_of env) (fh_attempts h') = filter (\<lambda>p. pm_number p \<notin> ?N) (map (permit_of env) (fh_attempts h))"
    unfolding assms(3) retire_Inr(1) [OF assms(1,2)] filter_map
    by (intro arg_cong [of _ _ "map (permit_of env)"] filter_cong) (auto simp: permit_of_def member)
  then have b: "book_of env h' = (book_of env h)\<lparr>bk_permits := filter (\<lambda>p. pm_number p \<notin> ?N) (bk_permits (book_of env h))\<rparr>"
    using assms(4) by (simp add: book_of_def)
  have "\<forall>p \<in> set (bk_permits (book_of env h)). pm_number p \<in> ?N \<longrightarrow> pm_settled p"
    using retire_Inr(3) [OF assms(1,2)] member by (auto simp: book_of_def permit_of_def)
  then show ?thesis
    unfolding b by (rule book_step.give_back)
qed

interpretation permits: simulation "journal_step env" "\<lambda>h. head_validate env h = Inr ()" "book_of env" book_step for env
proof
  fix h h'
  assume valid: "head_validate env h = Inr ()" and step: "journal_step env h h'"
  have valid': "head_validate env h' = Inr ()"
    using valid_heads.step_inv [OF valid step] .
  from journal_step_change [OF step valid]
  show "book_of env h' = book_of env h \<or> book_step (book_of env h) (book_of env h')"
  proof cases
    case same
    then show ?thesis
      by (simp add: book_of_def)
  next
    case (allocated profile now spec n)
    then show ?thesis
      using grant_simulated valid' by blast
  next
    case (moved xs a ys b)
    then show ?thesis
      using move_simulated by blast
  next
    case (retired page n)
    then show ?thesis
      using retirement_simulated head_validate_attempts(2) [OF valid] by blast
  qed
qed

text \<open>A head with one planned movement, and its successor in which the movement is being cancelled.\<close>

definition sample_head :: "attempt_phase \<Rightarrow> fleet_head" where
  "sample_head phase = \<lparr>fh_scope = sample_scope, fh_revision = 1, fh_last_observed_ms = 5,
     fh_controller = Some \<lparr>cl_claimant = SessionId (replicate 16 8), cl_epoch = 1, cl_expires_at_ms = 100\<rparr>,
     fh_maintenance = None, fh_next_sequence = 2, fh_attempts = [sample_attempt phase], fh_progress = None\<rparr>"

lemma sample_head_valid: "head_validate sample_env (sample_head Planned) = Inr ()"
  by code_simp

lemma sample_head_cancels:
  "head_transition sample_env (sample_head Planned) profile_default 1 1 6 (Jt_Attempt (sp_id sample_spec) BeginCancel)
     = Inr ((sample_head Cancelling)\<lparr>fh_revision := 2, fh_last_observed_ms := 6\<rparr>)"
  by code_simp

lemma sample_head_run:
  "(journal_step sample_env)\<^sup>*\<^sup>* (sample_head Planned) ((sample_head Cancelling)\<lparr>fh_revision := 2, fh_last_observed_ms := 6\<rparr>)"
  using journal_step.transition [OF sample_head_cancels] by (rule r_into_rtranclp)

subsection \<open>What the book promises\<close>

text \<open>Numbers are used once: a permit numbered before the book's counter was already in the book.\<close>

definition later_permit :: "permit \<Rightarrow> permit \<Rightarrow> bool" where
  "later_permit p p' \<longleftrightarrow> pm_number p' = pm_number p \<and> pm_cell p' = pm_cell p \<and> pm_bytes p' = pm_bytes p
     \<and> (pm_settled p \<longrightarrow> pm_settled p')"

definition book_le :: "book \<Rightarrow> book \<Rightarrow> bool" where
  "book_le b b' \<longleftrightarrow> bk_next b \<le> bk_next b' \<and> (\<forall>p' \<in> set (bk_permits b').
     pm_number p' < bk_next b \<longrightarrow> (\<exists>p \<in> set (bk_permits b). later_permit p p'))"

definition fair_book :: "book \<Rightarrow> bool" where
  "fair_book b \<longleftrightarrow> length (bk_permits b) \<le> MAX_ACTIVE_ATTEMPTS \<and> distinct (map pm_cell (bk_permits b))
     \<and> sum_list (map pm_bytes (bk_permits b)) \<le> unat MAX_RESTORE_BYTES
     \<and> (\<forall>p \<in> set (bk_permits b). pm_number p < bk_next b)"

lemma book_step_le: "book_step b b' \<Longrightarrow> book_le b b'"
  by (induction rule: book_step.induct) (auto simp: book_le_def later_permit_def)

lemma book_le_trans:
  assumes "book_le a b" and "book_le b c"
  shows "book_le a c"
proof -
  have "\<exists>p \<in> set (bk_permits a). later_permit p r" if r: "r \<in> set (bk_permits c)" "pm_number r < bk_next a" for r
  proof -
    have "pm_number r < bk_next b"
      using assms(1) r(2) by (simp add: book_le_def)
    then obtain q where q: "q \<in> set (bk_permits b)" "later_permit q r"
      using assms(2) r(1) unfolding book_le_def by blast
    then have "pm_number q < bk_next a"
      using r(2) by (simp add: later_permit_def)
    then obtain p where "p \<in> set (bk_permits a)" "later_permit p q"
      using assms(1) q(1) unfolding book_le_def by blast
    then show ?thesis
      using q(2) by (intro bexI [of _ p]) (simp_all add: later_permit_def)
  qed
  then show ?thesis
    using assms unfolding book_le_def by (meson le_trans)
qed

interpretation books: ratchet book_step book_le
  by unfold_locales (auto intro: book_step_le book_le_trans simp: book_le_def [of s s for s] later_permit_def)

lemma valid_head_fair: "head_validate env h = Inr () \<Longrightarrow> fair_book (book_of env h)"
  using head_validate_attempts
  by (auto simp: fair_book_def book_of_def permit_of_def comp_def attempt_fits_def word_less_nat_alt)

text \<open>
  C37: The journal implements the permit book. Along every history of a valid head, claims,
  renewals and all six transitions included, the active attempts seen as permits change only by
  steps of the book: a grant under the next number to a Cell that holds none, within two movements
  and 8 GiB; the settlement of one permit; the return of settled permits. Hence a number is never
  used twice, a permit keeps its Cell and its bytes for life, and the budget holds in every head,
  whoever controls the journal.
\<close>

theorem journal_refines_permit_book:
  assumes "(journal_step env)\<^sup>*\<^sup>* h h'" and "head_validate env h = Inr ()"
  shows "book_step\<^sup>*\<^sup>* (book_of env h) (book_of env h') \<and> book_le (book_of env h) (book_of env h')
    \<and> fair_book (book_of env h')"
  using permits.run_abs [OF assms] books.run_le valid_head_fair [OF valid_heads.run_inv [OF assms]] by blast

theorem journal_refines_permit_book_witness:
  "book_step\<^sup>*\<^sup>* (book_of sample_env (sample_head Planned))
     (book_of sample_env ((sample_head Cancelling)\<lparr>fh_revision := 2, fh_last_observed_ms := 6\<rparr>))
   \<and> fair_book (book_of sample_env ((sample_head Cancelling)\<lparr>fh_revision := 2, fh_last_observed_ms := 6\<rparr>))"
  using journal_refines_permit_book [OF sample_head_run sample_head_valid] by blast

subsection \<open>Attempts outlive their controllers\<close>

lemma attempt_survives_step:
  assumes "journal_step env h h'" and "head_validate env h = Inr ()" and "a \<in> set (fh_attempts h)"
  shows "(\<exists>b \<in> set (fh_attempts h'). attempt_le a b)
    \<or> (\<exists>page n. retire env h page = Inr n \<and> a \<in> set (pg_entries page) \<and> can_retire a)"
  using journal_step_change [OF assms(1,2)]
proof cases
  case same
  then show ?thesis
    using assms(3) attempts.le_refl by auto
next
  case (allocated profile now spec n)
  then show ?thesis
    using assms(3) attempts.le_refl allocate_Inr(4) by fastforce
next
  case (moved xs c ys b)
  then show ?thesis
    using assms(3) attempts.le_refl attempts.step_le by auto
next
  case (retired page n)
  note page = retire_Inr [OF retired(1) head_validate_attempts(2) [OF assms(2)]]
  show ?thesis
  proof (cases "a \<in> set (pg_entries page)")
    case True
    then show ?thesis
      using page(3) retired(1) by blast
  next
    case False
    then have "a \<in> set (fh_attempts h')"
      using assms(3) page(1) retired(2) by simp
    then show ?thesis
      using attempts.le_refl by blast
  qed
qed

text \<open>
  No movement is forgotten. Every attempt of a valid head is, on every later history and under
  every later controller, still active with its specification and all its recorded evidence, or
  it was retired by an accepted history page that holds it, terminal and with a cleaned receiver,
  exactly as it last was in the head. The expiry of a lease frees no permit.
\<close>

theorem attempts_outlive_controllers:
  assumes "(journal_step env)\<^sup>*\<^sup>* h h'" and "head_validate env h = Inr ()" and "a \<in> set (fh_attempts h)"
  shows "(\<exists>b \<in> set (fh_attempts h'). attempt_le a b)
    \<or> (\<exists>g page n b. (journal_step env)\<^sup>*\<^sup>* h g \<and> retire env g page = Inr n \<and> b \<in> set (fh_attempts g)
         \<and> b \<in> set (pg_entries page) \<and> attempt_le a b \<and> can_retire b)"
  using assms
proof (induction rule: rtranclp_induct)
  case base
  then show ?case
    using attempts.le_refl by blast
next
  case (step g g')
  show ?case
  proof (cases "\<exists>b \<in> set (fh_attempts g). attempt_le a b")
    case True
    then obtain b where b: "b \<in> set (fh_attempts g)" "attempt_le a b"
      by blast
    have "head_validate env g = Inr ()"
      using valid_heads.run_inv [OF step(1) step(4)] .
    from attempt_survives_step [OF step(2) this b(1)]
    consider c where "c \<in> set (fh_attempts g')" "attempt_le b c"
      | page n where "retire env g page = Inr n" "b \<in> set (pg_entries page)" "can_retire b"
      by blast
    then show ?thesis
    proof cases
      case 1
      then show ?thesis
        using attempt_le_trans [OF b(2)] by blast
    next
      case 2
      then show ?thesis
        using b step(1) by (intro disjI2 exI conjI)
    qed
  next
    case False
    then show ?thesis
      using step.IH step.prems by blast
  qed
qed

theorem attempts_outlive_controllers_witness:
  "(\<exists>b \<in> set (fh_attempts ((sample_head Cancelling)\<lparr>fh_revision := 2, fh_last_observed_ms := 6\<rparr>)).
      attempt_le (sample_attempt Planned) b)
   \<or> (\<exists>g page n b. (journal_step sample_env)\<^sup>*\<^sup>* (sample_head Planned) g \<and> retire sample_env g page = Inr n
        \<and> b \<in> set (fh_attempts g) \<and> b \<in> set (pg_entries page) \<and> attempt_le (sample_attempt Planned) b
        \<and> can_retire b)"
  using attempts_outlive_controllers [OF sample_head_run sample_head_valid, of "sample_attempt Planned"]
  by (simp add: sample_head_def)

end
