(* ===== verification/Journal_Safety.thy ===== *)
theory Journal_Safety
  imports Fleet_Journal
begin

text \<open>
  What the fleet journal guarantees beyond its permits: a superseded controller is refused for
  good, a node that closes for maintenance takes no part in any movement, and the stored form of
  the head, of its history pages and of the intents is canonical
  (\<^verbatim>\<open>codec/mod.rs\<close>, \<^verbatim>\<open>codec/pages.rs\<close>).
\<close>

subsection \<open>Stored heads and intents\<close>

definition write_lease :: "controller_lease \<Rightarrow> op_writer" where
  "write_lease l = write_all [opw (write_bytes (session_bytes (cl_claimant l))), opw (write_u64 (cl_epoch l)),
     opw (write_i64 (cl_expires_at_ms l))]"

definition read_lease :: "controller_lease op_reader" where
  "read_lease d =
     bind_r (read_id 16 d) (\<lambda>(claimant, d).
     bind_r (opr read_u64 d) (\<lambda>(epoch, d).
     bind_r (opr read_i64 d) (\<lambda>(expires, d).
     Inr (\<lparr>cl_claimant = SessionId claimant, cl_epoch = epoch, cl_expires_at_ms = expires\<rparr>, d))))"

definition write_progress :: "progress_head \<Rightarrow> op_writer" where
  "write_progress p = write_all [write_digest (ph_digest p), opw (write_u64 (ph_sequence p))]"

definition read_progress :: "progress_head op_reader" where
  "read_progress d =
     bind_r (read_digest d) (\<lambda>(digest, d).
     bind_r (opr read_u64 d) (\<lambda>(sequence, d).
     Inr (\<lparr>ph_digest = digest, ph_sequence = sequence\<rparr>, d)))"

definition write_head :: "fleet_env \<Rightarrow> fleet_head \<Rightarrow> op_writer" where
  "write_head env h = write_all [write_scope (fh_scope h), opw (write_u64 (fh_revision h)),
     opw (write_i64 (fh_last_observed_ms h)), write_opt write_lease (fh_controller h),
     write_opt write_maintenance (fh_maintenance h), opw (write_u64 (fh_next_sequence h)),
     write_list (write_attempt env) (fh_attempts h), write_opt write_progress (fh_progress h)]"

definition head_count :: "nat \<Rightarrow> bool" where
  "head_count n \<longleftrightarrow> \<not> n > MAX_ACTIVE_ATTEMPTS"

definition read_head :: "fleet_env \<Rightarrow> fleet_head op_reader" where
  "read_head env d =
     bind_r (read_scope_fields d) (\<lambda>(scope, d).
     bind_r (opr read_u64 d) (\<lambda>(revision, d).
     bind_r (opr read_i64 d) (\<lambda>(observed, d).
     bind_r (read_opt read_lease d) (\<lambda>(controller, d).
     bind_r (read_opt read_maintenance d) (\<lambda>(maintenance, d).
     bind_r (opr read_u64 d) (\<lambda>(next_sequence, d).
     bind_r (read_list (read_attempt env) head_count d) (\<lambda>(attempts, d).
     bind_r (read_opt read_progress d) (\<lambda>(progress, d).
     Inr (\<lparr>fh_scope = scope, fh_revision = revision, fh_last_observed_ms = observed,
           fh_controller = controller, fh_maintenance = maintenance, fh_next_sequence = next_sequence,
           fh_attempts = attempts, fh_progress = progress\<rparr>, d)))))))))"

definition head_to_bytes :: "fleet_env \<Rightarrow> fleet_head \<Rightarrow> bytes op_result" where
  "head_to_bytes env h = bind_r (head_validate env h) (\<lambda>_.
     encode_record HEAD MAX_RECORD_BYTES (write_head env h))"

definition head_from_bytes :: "fleet_env \<Rightarrow> bytes \<Rightarrow> fleet_head op_result" where
  "head_from_bytes env bs = bind_r (decode_record HEAD MAX_RECORD_BYTES (read_head env) bs) (\<lambda>h.
     bind_r (head_validate env h) (\<lambda>_. Inr h))"

fun node_mode_code :: "node_mode \<Rightarrow> u8" where
  "node_mode_code Nm_Active = 1"
| "node_mode_code Nm_Cordoned = 2"
| "node_mode_code Nm_Draining = 3"

definition node_mode_of_code :: "u8 \<Rightarrow> node_mode op_result" where
  "node_mode_of_code n =
     (if n = 1 then Inr Nm_Active else if n = 2 then Inr Nm_Cordoned else if n = 3 then Inr Nm_Draining
      else Inl (Op_Invalid ''unknown desired node mode''))"

definition write_intent :: "node_intent \<Rightarrow> op_writer" where
  "write_intent n = write_all [write_scope (ni_scope n), opw (write_bytes (node_bytes (ni_node n))),
     opw (write_bytes (session_bytes (ni_session n))), opw (write_u64 (ni_revision n)),
     opw (write_u8 (node_mode_code (ni_mode n))), write_opt write_operation_id (ni_operation n)]"

definition read_intent :: "node_intent op_reader" where
  "read_intent d =
     bind_r (read_scope d) (\<lambda>(scope, d).
     bind_r (read_id 16 d) (\<lambda>(node, d).
     bind_r (read_id 16 d) (\<lambda>(session, d).
     bind_r (opr read_u64 d) (\<lambda>(revision, d).
     bind_r (opr read_u8 d) (\<lambda>(code, d).
     bind_r (node_mode_of_code code) (\<lambda>mode.
     bind_r (read_opt read_operation_id d) (\<lambda>(operation, d).
     Inr (\<lparr>ni_scope = scope, ni_node = NodeId node, ni_session = SessionId session, ni_revision = revision,
           ni_mode = mode, ni_operation = operation\<rparr>, d))))))))"

definition intent_to_bytes :: "node_intent \<Rightarrow> bytes op_result" where
  "intent_to_bytes n = bind_r (intent_validate n) (\<lambda>_.
     encode_record INTENT MAX_RECORD_BYTES (write_intent n))"

definition intent_from_bytes :: "bytes \<Rightarrow> node_intent op_result" where
  "intent_from_bytes bs = bind_r (decode_record INTENT MAX_RECORD_BYTES read_intent bs) (\<lambda>n.
     bind_r (intent_validate n) (\<lambda>_. Inr n))"

subsection \<open>The stored forms are canonical\<close>

definition digest_wire :: "digest \<Rightarrow> bytes" where
  "digest_wire g = bytes_wire (digest_bytes g)"

definition digest_ok :: "digest \<Rightarrow> bool" where
  "digest_ok g \<longleftrightarrow> length (digest_bytes g) = 32"

interpretation digest_field: record_codec write_digest read_digest digest_wire digest_ok
proof
  show "read_digest d = Inr (v, d') \<longleftrightarrow> digest_ok v \<and> follows d (digest_wire v) d'" for d v d'
    by (cases v) (auto simp: read_digest_def bind_r_Inr codec_reads digest_ok_def digest_wire_def)
qed (simp add: digest_ok_def digest_wire_def write_digest_def opw_writes fits_id)

definition lease_wire :: "controller_lease \<Rightarrow> bytes" where
  "lease_wire l = concat [bytes_wire (session_bytes (cl_claimant l)), u64_to_be_bytes (cl_epoch l),
     i64_to_be_bytes (cl_expires_at_ms l)]"

definition lease_ok :: "controller_lease \<Rightarrow> bool" where
  "lease_ok l \<longleftrightarrow> length (session_bytes (cl_claimant l)) = 16 \<and> is_i64 (cl_expires_at_ms l)"

lemma lease_cases: obtains s e x where "l = \<lparr>cl_claimant = SessionId s, cl_epoch = e, cl_expires_at_ms = x\<rparr>"
  by (cases l; cases "cl_claimant l") simp

interpretation lease: record_codec write_lease read_lease lease_wire lease_ok
proof
  show "writes (write_lease v) (lease_wire v)" if "lease_ok v" for v
    unfolding write_lease_def lease_wire_def using that
    by (intro write_all_writes) (simp add: opw_writes fits_id lease_ok_def)
  show "read_lease d = Inr (v, d') \<longleftrightarrow> lease_ok v \<and> follows d (lease_wire v) d'" for d v d'
    by (cases v rule: lease_cases)
      (auto simp: read_lease_def bind_r_Inr codec_reads lease_ok_def lease_wire_def follows_simps)
qed

definition progress_wire :: "progress_head \<Rightarrow> bytes" where
  "progress_wire p = concat [digest_wire (ph_digest p), u64_to_be_bytes (ph_sequence p)]"

interpretation progress: record_codec write_progress read_progress progress_wire "\<lambda>p. digest_ok (ph_digest p)"
proof
  show "writes (write_progress v) (progress_wire v)" if "digest_ok (ph_digest v)" for v
    unfolding write_progress_def progress_wire_def using that
    by (intro write_all_writes) (simp add: opw_writes digest_field.put_writes)
  show "read_progress d = Inr (v, d') \<longleftrightarrow> digest_ok (ph_digest v) \<and> follows d (progress_wire v) d'" for d v d'
    by (cases v) (auto simp: read_progress_def bind_r_Inr codec_reads progress_wire_def follows_simps
        digest_field.get_exact)
qed

lemmas journal_options = lease.opt_codec maintenance_record.opt_codec progress.opt_codec digest_field.opt_codec
  operation_id.opt_codec

lemmas journal_option_writes = journal_options [THEN record_codec.put_writes]
lemmas journal_option_reads = journal_options [THEN record_codec.get_exact]

definition attempts_wire :: "fleet_env \<Rightarrow> move_attempt list \<Rightarrow> bytes" where
  "attempts_wire env as = u32_to_be_bytes (of_nat (length as)) @ concat (map (attempt_wire env) as)"

lemma attempts_record:
  assumes "json_reads_back env" and "\<And>n. allowed n \<Longrightarrow> n < 2 ^ 32"
  shows "record_codec (write_list (write_attempt env)) (read_list (read_attempt env) allowed) (attempts_wire env)
     (\<lambda>as. allowed (length as) \<and> list_all (attempt_ok env) as)"
proof -
  note attempt = attempt_record [OF assms(1)]
  have "record_codec.list_wire (attempt_wire env) = attempts_wire env"
    by (rule ext) (simp add: record_codec.list_wire_def [OF attempt] attempts_wire_def)
  then show ?thesis
    using record_codec.list_codec [OF attempt assms(2)] by simp
qed

definition head_wire :: "fleet_env \<Rightarrow> fleet_head \<Rightarrow> bytes" where
  "head_wire env h = concat [scope_wire (fh_scope h), u64_to_be_bytes (fh_revision h),
     i64_to_be_bytes (fh_last_observed_ms h), option_wire lease_wire (fh_controller h),
     option_wire maintenance_wire (fh_maintenance h), u64_to_be_bytes (fh_next_sequence h),
     attempts_wire env (fh_attempts h), option_wire progress_wire (fh_progress h)]"

definition head_wf :: "fleet_env \<Rightarrow> fleet_head \<Rightarrow> bool" where
  "head_wf env h \<longleftrightarrow> scope_wf (fh_scope h) \<and> is_i64 (fh_last_observed_ms h) \<and> pred_option lease_ok (fh_controller h)
     \<and> pred_option maintenance_ok (fh_maintenance h)
     \<and> head_count (length (fh_attempts h)) \<and> list_all (attempt_ok env) (fh_attempts h)
     \<and> pred_option (\<lambda>p. digest_ok (ph_digest p)) (fh_progress h)"

lemma head_record:
  assumes "json_reads_back env"
  shows "record_codec (write_head env) (read_head env) (head_wire env) (head_wf env)"
proof
  have count: "head_count n \<Longrightarrow> n < 2 ^ 32" for n
    by (simp add: head_count_def MAX_ACTIVE_ATTEMPTS_def)
  note attempts = attempts_record [OF assms count, THEN record_codec.put_writes]
    attempts_record [OF assms count, THEN record_codec.get_exact]
  show "writes (write_head env v) (head_wire env v)" if "head_wf env v" for v
    unfolding write_head_def head_wire_def using that
    by (intro write_all_writes) (simp add: opw_writes head_wf_def scope_fields.put_writes journal_option_writes attempts)
  show "read_head env d = Inr (v, d') \<longleftrightarrow> head_wf env v \<and> follows d (head_wire env v) d'" for d v d'
    by (cases v) (auto simp: read_head_def bind_r_Inr codec_reads head_wf_def head_wire_def follows_simps
        scope_fields.get_exact journal_option_reads attempts)
qed

text \<open>
  A stored head restores to a head exactly when that head encodes to those bytes: nothing is
  lost, no head has two stored forms, and neither side accepts an invalid head.
\<close>

theorem head_codec_exact:
  assumes "json_reads_back env" and "head_wf env h"
  shows "head_from_bytes env bs = Inr h \<longleftrightarrow> head_to_bytes env h = Inr bs"
  using record_codec.record_exact [OF head_record [OF assms(1)]] assms(2)
  by (auto simp: head_from_bytes_def head_to_bytes_def bind_r_Inr)

text \<open>The same of attempts, maintenance records, recovery records, history pages and intents.\<close>

lemma attempt_codec_exact:
  assumes "json_reads_back env" and "attempt_wf env a"
  shows "attempt_from_bytes env bs = Inr a \<longleftrightarrow> attempt_to_bytes env a = Inr bs"
  using record_codec.record_exact [OF attempt_record [OF assms(1)]] assms(2)
  by (auto simp: attempt_from_bytes_def attempt_to_bytes_def attempt_ok_def bind_r_Inr)

lemma maintenance_codec_exact:
  "maintenance_wf m \<Longrightarrow> maintenance_from_bytes bs = Inr m \<longleftrightarrow> maintenance_to_bytes m = Inr bs"
  by (auto simp: maintenance_from_bytes_def maintenance_to_bytes_def maintenance_record.record_exact
      maintenance_ok_def bind_r_Inr)

lemma recovery_codec_exact:
  assumes "json_reads_back env"
  shows "basis_ok env b \<Longrightarrow> recovery_basis_from_bytes env bs = Inr b \<longleftrightarrow> recovery_basis_to_bytes env b = Inr bs"
    and "evidence_ok env v \<Longrightarrow> recovery_evidence_from_bytes env bs = Inr v \<longleftrightarrow> recovery_evidence_to_bytes env v = Inr bs"
  using record_codec.record_exact [OF basis_record [OF assms]] record_codec.record_exact [OF evidence_record [OF assms]]
  by (auto simp: recovery_basis_from_bytes_def recovery_basis_to_bytes_def recovery_evidence_from_bytes_def
      recovery_evidence_to_bytes_def basis_ok_def evidence_ok_def bind_r_Inr)

definition page_wire :: "fleet_env \<Rightarrow> progress_page \<Rightarrow> bytes" where
  "page_wire env p = concat [scope_wire (pg_scope p), operation_id_wire (pg_operation p),
     u64_to_be_bytes (pg_sequence p), option_wire digest_wire (pg_previous p), attempts_wire env (pg_entries p)]"

definition page_wf :: "fleet_env \<Rightarrow> progress_page \<Rightarrow> bool" where
  "page_wf env p \<longleftrightarrow> scope_ok (pg_scope p) \<and> operation_id_ok (pg_operation p) \<and> pred_option digest_ok (pg_previous p)
     \<and> page_count (length (pg_entries p)) \<and> list_all (attempt_ok env) (pg_entries p)"

lemma page_record:
  assumes "json_reads_back env"
  shows "record_codec (write_page env) (read_page env) (page_wire env) (page_wf env)"
proof
  have count: "page_count n \<Longrightarrow> n < 2 ^ 32" for n
    by (simp add: page_count_def MAX_PAGE_ENTRIES_def)
  note attempts = attempts_record [OF assms count, THEN record_codec.put_writes]
    attempts_record [OF assms count, THEN record_codec.get_exact]
  show "writes (write_page env v) (page_wire env v)" if "page_wf env v" for v
    unfolding write_page_def page_wire_def using that
    by (intro write_all_writes) (simp add: opw_writes page_wf_def scope.put_writes operation_id.put_writes
        journal_option_writes attempts)
  show "read_page env d = Inr (v, d') \<longleftrightarrow> page_wf env v \<and> follows d (page_wire env v) d'" for d v d'
    by (cases v) (auto simp: read_page_def bind_r_Inr codec_reads page_wf_def page_wire_def follows_simps
        scope.get_exact operation_id.get_exact journal_option_reads attempts)
qed

lemma page_codec_exact:
  assumes "json_reads_back env" and "page_wf env p"
  shows "page_from_bytes env bs = Inr p \<longleftrightarrow> page_to_bytes env p = Inr bs"
proof -
  have "page_new env (pg_scope q) (pg_operation q) (pg_sequence q) (pg_previous q) (pg_entries q)
      = bind_r (page_validate env q) (\<lambda>_. Inr q)" for q
    by (cases q) (simp add: page_new_def Let_def)
  then show ?thesis
    using record_codec.record_exact [OF page_record [OF assms(1)]] assms(2)
    by (auto simp: page_from_bytes_def page_to_bytes_def bind_r_Inr)
qed

lemma node_mode_exact: "node_mode_of_code n = Inr m \<longleftrightarrow> n = node_mode_code m"
  by (cases m) (auto simp: node_mode_of_code_def split: if_splits)

definition intent_wire :: "node_intent \<Rightarrow> bytes" where
  "intent_wire n = concat [scope_wire (ni_scope n), bytes_wire (node_bytes (ni_node n)),
     bytes_wire (session_bytes (ni_session n)), u64_to_be_bytes (ni_revision n), [node_mode_code (ni_mode n)],
     option_wire operation_id_wire (ni_operation n)]"

definition intent_wf :: "node_intent \<Rightarrow> bool" where
  "intent_wf n \<longleftrightarrow> scope_ok (ni_scope n) \<and> length (node_bytes (ni_node n)) = 16
     \<and> length (session_bytes (ni_session n)) = 16 \<and> pred_option operation_id_ok (ni_operation n)"

lemma intent_cases:
  obtains c n s r m i where "x = \<lparr>ni_scope = c, ni_node = NodeId n, ni_session = SessionId s, ni_revision = r,
     ni_mode = m, ni_operation = i\<rparr>"
  by (cases x; cases "ni_node x"; cases "ni_session x") simp

interpretation intent: record_codec write_intent read_intent intent_wire intent_wf
proof
  show "writes (write_intent v) (intent_wire v)" if "intent_wf v" for v
    unfolding write_intent_def intent_wire_def using that
    by (intro write_all_writes) (simp add: opw_writes fits_id intent_wf_def scope.put_writes journal_option_writes)
  have tag: "at_bytes d (a # bs) \<longleftrightarrow> at_bytes d [a] \<and> at_bytes (skip [a] d) bs" "skip (a # bs) d = skip bs (skip [a] d)"
    if "bs \<noteq> []" for a bs d
    using that at_append [of d "[a]" bs] skip_append [of "[a]" bs] by simp_all
  have ne: "option_wire w x \<noteq> []" for w :: "operation_id \<Rightarrow> bytes" and x
    by (cases x) (simp_all add: option_wire_def)
  show "read_intent d = Inr (v, d') \<longleftrightarrow> intent_wf v \<and> follows d (intent_wire v) d'" for d v d'
    by (cases v rule: intent_cases)
      (auto simp: read_intent_def bind_r_Inr codec_reads intent_wf_def intent_wire_def follows_def at_append
        skip_append tag [OF ne] scope.get_exact journal_option_reads node_mode_exact)
qed

lemma intent_codec_exact:
  "intent_wf n \<Longrightarrow> intent_from_bytes bs = Inr n \<longleftrightarrow> intent_to_bytes n = Inr bs"
  by (auto simp: intent_from_bytes_def intent_to_bytes_def intent.record_exact bind_r_Inr)

subsection \<open>A superseded controller stays fenced\<close>

fun lease_le :: "controller_lease option \<Rightarrow> controller_lease option \<Rightarrow> bool" where
  "lease_le None y = True"
| "lease_le (Some l) None = False"
| "lease_le (Some l) (Some k) = (cl_epoch l < cl_epoch k \<or> cl_epoch l = cl_epoch k \<and> cl_claimant l = cl_claimant k)"

definition journal_le :: "fleet_head \<Rightarrow> fleet_head \<Rightarrow> bool" where
  "journal_le h h' \<longleftrightarrow> fh_scope h' = fh_scope h \<and> fh_revision h \<le> fh_revision h'
     \<and> fh_last_observed_ms h \<le> fh_last_observed_ms h' \<and> lease_le (fh_controller h) (fh_controller h')"

lemma lease_le_refl [simp]: "lease_le x x"
  by (cases x) auto

lemma lease_le_trans: "lease_le x y \<Longrightarrow> lease_le y z \<Longrightarrow> lease_le x z"
  by (induction x y rule: lease_le.induct; cases z) auto

lemma transition_step_keeps:
  assumes "transition_step env h profile now t = Inr n"
  shows "fh_scope n = fh_scope h \<and> fh_revision n = fh_revision h
    \<and> fh_last_observed_ms n = fh_last_observed_ms h \<and> fh_controller n = fh_controller h"
  using assms by (cases t) (auto simp: begin_maintenance_def maintain_def allocate_def apply_attempt_def
      resolve_attempt_def retire_def bind_r_Inr Let_def split: option.splits if_splits)

lemma finish_keeps:
  assumes "finish_transition env n now = Inr h'"
  shows "fh_scope h' = fh_scope n" "fh_revision n \<le> fh_revision h'" "fh_last_observed_ms h' = now"
    "fh_controller h' = fh_controller n"
  using assms by (auto simp: finish_transition_def bind_r_Inr ok_or_Inr checked_add_Some Let_def word_le_nat_alt)

lemma claim_epoch_le:
  "claim_epoch h claimant now = Inr epoch
    \<Longrightarrow> lease_le (fh_controller h) (Some \<lparr>cl_claimant = claimant, cl_epoch = epoch, cl_expires_at_ms = expires\<rparr>)"
  by (cases "fh_controller h")
    (auto simp: claim_epoch_def ok_or_Inr checked_add_Some word_less_nat_alt split: if_splits)

lemma journal_step_le: "journal_step env h h' \<Longrightarrow> journal_le h h'"
proof (induction rule: journal_step.induct)
  case (claim h profile expected claimant now h')
  then obtain epoch expires where "claim_epoch h claimant now = Inr epoch" "fh_last_observed_ms h \<le> now"
      "finish_transition env (h\<lparr>fh_controller := Some \<lparr>cl_claimant = claimant, cl_epoch = epoch,
         cl_expires_at_ms = expires\<rparr>\<rparr>) now = Inr h'"
    by (auto simp: claim_def check_revision_and_time_def bind_r_Inr reject_if_Inr split: if_splits)
  then show ?case
    using finish_keeps claim_epoch_le by (fastforce simp: journal_le_def)
next
  case (transition h profile expected epoch now t h')
  then obtain n where n: "transition_step env h profile now t = Inr n" "fh_last_observed_ms h \<le> now"
      "h' = n \<or> finish_transition env n now = Inr h'"
    by (auto simp: head_transition_def check_revision_and_time_def profile_validate_def bind_r_Inr reject_if_Inr
        split: if_splits)
  from n(3) show ?case
    using transition_step_keeps [OF n(1)] n(2) finish_keeps [of env n now h'] by (auto simp: journal_le_def)
qed

lemma journal_le_trans: "journal_le a b \<Longrightarrow> journal_le b c \<Longrightarrow> journal_le a c"
  by (auto simp: journal_le_def intro: lease_le_trans)

interpretation journals: ratchet "journal_step env" journal_le for env
  by unfold_locales (auto simp: journal_le_def [of h h for h] intro: journal_le_trans journal_step_le)

text \<open>
  C38: A superseded controller stays fenced. Once the lease has passed to another claimant, the
  epoch has grown, and on every later history every transition that names the old epoch fails: with
  \<open>Fenced\<close> when its profile, its revision and its time are acceptable. While a lease is live,
  no other process can claim the journal.
\<close>

theorem stale_controller_is_fenced:
  assumes "(journal_step env)\<^sup>*\<^sup>* h g" and "(journal_step env)\<^sup>*\<^sup>* g h'"
    and "fh_controller h = Some l" and "fh_controller g = Some k" and "cl_claimant k \<noteq> cl_claimant l"
  shows "cl_epoch l < cl_epoch k
    \<and> (\<exists>e. head_transition env h' profile expected (cl_epoch l) now t = Inl e
         \<and> (profile_validate profile = Inr profile \<and> expected = fh_revision h' \<and> fh_last_observed_ms h' \<le> now
            \<longrightarrow> e = Op_Fenced))
    \<and> (\<exists>m. fh_controller h' = Some m
         \<and> (now < cl_expires_at_ms m \<and> claimant \<noteq> cl_claimant m \<longrightarrow>
              (\<exists>e. claim env h' profile expected claimant now = Inl e)))"
proof -
  have "lease_le (Some l) (Some k)" "lease_le (Some k) (fh_controller h')"
    using journals.run_le [OF assms(1)] journals.run_le [OF assms(2)] assms(3,4) by (auto simp: journal_le_def)
  then obtain m where m: "cl_epoch l < cl_epoch k" "fh_controller h' = Some m" "cl_epoch k \<le> cl_epoch m"
    using assms(5) by (cases "fh_controller h'") auto
  then have "cl_epoch m \<noteq> cl_epoch l"
    by auto
  then show ?thesis
    using m by (auto simp: head_transition_def claim_def claim_epoch_def check_revision_and_time_def bind_r_def
        reject_if_def profile_validate_def split: sum.splits)
qed

text \<open>The lease of the sample head expires at 100, when session 9 claims the journal.\<close>

definition sample_successor_head :: fleet_head where
  "sample_successor_head = (sample_head Planned)\<lparr>fh_revision := 2, fh_last_observed_ms := 100,
     fh_controller := Some \<lparr>cl_claimant = SessionId (replicate 16 9), cl_epoch = 2, cl_expires_at_ms = 30100\<rparr>\<rparr>"

lemma sample_head_claimed:
  "claim sample_env (sample_head Planned) profile_default 1 (SessionId (replicate 16 9)) 100 = Inr sample_successor_head"
  by code_simp

theorem stale_controller_is_fenced_witness:
  "\<exists>e. head_transition sample_env sample_successor_head profile_default 2 1 101
     (Jt_Attempt (sp_id sample_spec) BeginCancel) = Inl e \<and> e = Op_Fenced"
proof -
  have "(journal_step sample_env)\<^sup>*\<^sup>* (sample_head Planned) sample_successor_head"
    using journal_step.claim [OF sample_head_claimed] by (rule r_into_rtranclp)
  moreover have "profile_validate profile_default = Inr profile_default"
    by code_simp
  ultimately show ?thesis
    using stale_controller_is_fenced [of sample_env "sample_head Planned" sample_successor_head sample_successor_head
        "\<lparr>cl_claimant = SessionId (replicate 16 8), cl_epoch = 1, cl_expires_at_ms = 100\<rparr>"
        "\<lparr>cl_claimant = SessionId (replicate 16 9), cl_epoch = 2, cl_expires_at_ms = 30100\<rparr>"
        profile_default 2 101 "Jt_Attempt (sp_id sample_spec) BeginCancel"]
    by (simp add: sample_successor_head_def sample_head_def)
qed

subsection \<open>A closing node takes no part in a movement\<close>

definition quiet_close :: "fleet_head \<Rightarrow> bool" where
  "quiet_close h \<longleftrightarrow> (\<forall>m. fh_maintenance h = Some m \<longrightarrow> mo_phase m \<in> {Mp_Closing, Mp_Completed}
     \<longrightarrow> (\<forall>a \<in> set (fh_attempts h). \<not> touches (mo_node m) a))"

lemma reaches_closing:
  assumes "maintenance_apply m event now = Inr n" and "mo_phase n \<in> {Mp_Closing, Mp_Completed}"
  shows "mo_node n = mo_node m \<and> (closing_event event \<or> mo_phase m \<in> {Mp_Closing, Mp_Completed})"
proof -
  have "maintenance_event_step m now event = Inr n"
    using assms(1) by (auto simp: maintenance_apply_def rust_simps)
  then show ?thesis
    using assms(2) maintenance_event_keeps(3) [of m now event n]
    by (cases event) (auto simp: closing_event_def unproven_maintenance_def bind_r_Inr split: if_splits)
qed

lemma maintain_quiet: "maintain h now event = Inr n \<Longrightarrow> quiet_close h \<Longrightarrow> quiet_close n"
  by (auto simp: maintain_def bind_r_Inr ok_or_Inr reject_if_Inr quiet_close_def list_ex_iff dest!: reaches_closing)

lemma allocate_quiet:
  assumes "allocate env h profile now spec = Inr n" and "quiet_close h"
  shows "quiet_close n"
proof -
  obtain a where a: "attempt_new spec = Inr a" "fh_attempts n = fh_attempts h @ [a]"
    using allocate_Inr(4) [OF assms(1)] by blast
  have m: "fh_maintenance n = fh_maintenance h"
    using assms(1) by (auto simp: allocate_def bind_r_Inr)
  have "ma_spec a = spec"
    using a(1) by (auto simp: attempt_new_def bind_r_Inr)
  then show ?thesis
    using assms(2) a(2) m allocate_Inr(5) [OF assms(1)]
    by (auto simp: quiet_close_def touches_def check_opt_Inr allocation_allowed_def bind_r_Inr reject_if_Inr
        split: if_splits)
qed

lemma update_quiet:
  assumes "update_attempt i f (fh_attempts h) = Inr as" and "\<And>a b. f a = Inr b \<Longrightarrow> ma_spec b = ma_spec a"
    and "quiet_close h"
  shows "quiet_close (h\<lparr>fh_attempts := as\<rparr>)"
  using assms(1)
proof (rule update_attempt_Inr)
  fix xs a b ys
  assume "fh_attempts h = xs @ a # ys" "as = xs @ b # ys" "f a = Inr b"
  then show ?thesis
    using assms(2) [of a b] assms(3) by (auto simp: quiet_close_def touches_def)
qed

lemma attempt_apply_spec: "attempt_apply env a event now = Inr b \<Longrightarrow> ma_spec b = ma_spec a"
  using event_keeps_evidence(1) by (auto simp: attempt_apply_def bind_r_Inr)

lemma resolve_unaccepted_spec: "resolve_unaccepted env a effect now = Inr b \<Longrightarrow> ma_spec b = ma_spec a"
  using unaccepted_keeps by (auto simp: attempt_le_def)

lemma transition_step_quiet:
  assumes "transition_step env h profile now t = Inr n" and "quiet_close h"
  shows "quiet_close n"
proof (cases t)
  case (BeginMaintenance m)
  then show ?thesis
    using assms by (auto simp: begin_maintenance_def bind_r_Inr reject_if_Inr Let_def quiet_close_def
        split: option.splits if_splits)
next
  case (Jt_Maintenance event)
  then show ?thesis
    using assms maintain_quiet by auto
next
  case (Allocate spec)
  then show ?thesis
    using assms allocate_quiet by auto
next
  case (Jt_Attempt i event)
  then show ?thesis
    using assms update_quiet [OF _ attempt_apply_spec] by (auto simp: apply_attempt_def bind_r_Inr)
next
  case (ResolveUnaccepted i effect)
  then show ?thesis
    using assms update_quiet [OF _ resolve_unaccepted_spec] by (auto simp: resolve_attempt_def bind_r_Inr)
next
  case (Jt_Retire page)
  then show ?thesis
    using assms by (auto simp: retire_def bind_r_Inr Let_def quiet_close_def split: if_splits)
qed

lemma finish_quiet: "finish_transition env n now = Inr h' \<Longrightarrow> quiet_close n \<Longrightarrow> quiet_close h'"
  by (auto simp: finish_transition_def bind_r_Inr Let_def quiet_close_def)

lemma quiet_claimed [simp]: "quiet_close (h\<lparr>fh_controller := c\<rparr>) = quiet_close h"
  by (simp add: quiet_close_def)

interpretation quiet_heads: preserved "journal_step env" quiet_close for env
proof
  show "quiet_close h'" if "quiet_close h" "journal_step env h h'" for h h'
    using that(2)
  proof cases
    case (claim profile expected claimant now)
    then show ?thesis
      using that(1) by (auto simp: claim_def bind_r_Inr elim!: finish_quiet split: if_splits)
  next
    case (transition profile expected epoch now t)
    then show ?thesis
      using that(1) by (auto simp: head_transition_def profile_validate_def bind_r_Inr
          dest: transition_step_quiet elim!: finish_quiet split: if_splits)
  qed
qed

text \<open>
  A node closes without movements in flight. In every head reachable from a new journal, once
  the maintenance of a node is closing or completed, no active attempt has that node as its source
  or as its destination: neither the allocation of an attempt nor any event of one can bring the
  node back into a movement.
\<close>

theorem closing_node_has_no_movement:
  assumes "head_new scope start = Inr h" and "(journal_step env)\<^sup>*\<^sup>* h h'"
    and "fh_maintenance h' = Some m" and "mo_phase m \<in> {Mp_Closing, Mp_Completed}"
  shows "\<forall>a \<in> set (fh_attempts h'). sp_source_node (ma_spec a) \<noteq> mo_node m \<and> sp_destination_node (ma_spec a) \<noteq> mo_node m"
proof -
  have "quiet_close h"
    using assms(1) by (auto simp: head_new_def bind_r_Inr quiet_close_def split: if_splits)
  then have "quiet_close h'"
    using quiet_heads.run_inv [OF assms(2)] by blast
  then show ?thesis
    using assms(3,4) by (auto simp: quiet_close_def touches_def)
qed

text \<open>A maintenance of node 2 in a new journal, up to its closing.\<close>

definition sample_request :: "maintenance_phase \<Rightarrow> drain_evidence option \<Rightarrow> maintenance_operation" where
  "sample_request phase evidence = sample_maintenance\<lparr>mo_phase := phase, mo_drain_evidence := evidence\<rparr>"

definition sample_closing :: drain_evidence where
  "sample_closing = sample_drain\<lparr>de_facilities_closed := False, de_stopped := False, de_withdrawn := False\<rparr>"

definition sample_journal :: "u64 \<Rightarrow> maintenance_operation option \<Rightarrow> fleet_head" where
  "sample_journal revision m = \<lparr>fh_scope = sample_scope, fh_revision = revision, fh_last_observed_ms = 20,
     fh_controller = (if revision = 0 then None
       else Some \<lparr>cl_claimant = SessionId (replicate 16 8), cl_epoch = 1, cl_expires_at_ms = 30020\<rparr>),
     fh_maintenance = m, fh_next_sequence = 1, fh_attempts = [], fh_progress = None\<rparr>"

lemma sample_journal_steps:
  "head_new sample_scope 20 = Inr (sample_journal 0 None)"
  "claim sample_env (sample_journal 0 None) profile_default 0 (SessionId (replicate 16 8)) 20 = Inr (sample_journal 1 None)"
  "head_transition sample_env (sample_journal 1 None) profile_default 1 1 20
     (BeginMaintenance (sample_request Mp_Requested None)) = Inr (sample_journal 2 (Some (sample_request Mp_Requested None)))"
  "head_transition sample_env (sample_journal 2 (Some (sample_request Mp_Requested None))) profile_default 2 1 20
     (Jt_Maintenance Me_Cordoned) = Inr (sample_journal 3 (Some (sample_request Mp_Cordoned None)))"
  "head_transition sample_env (sample_journal 3 (Some (sample_request Mp_Cordoned None))) profile_default 3 1 20
     (Jt_Maintenance BeginEvacuation) = Inr (sample_journal 4 (Some (sample_request Mp_Evacuating None)))"
  "head_transition sample_env (sample_journal 4 (Some (sample_request Mp_Evacuating None))) profile_default 4 1 20
     (Jt_Maintenance (ReadyToClose sample_closing)) = Inr (sample_journal 5 (Some (sample_request Mp_Closing (Some sample_closing))))"
  by code_simp+

theorem closing_node_has_no_movement_witness:
  "\<forall>a \<in> set (fh_attempts (sample_journal 5 (Some (sample_request Mp_Closing (Some sample_closing))))).
     sp_source_node (ma_spec a) \<noteq> NodeId (replicate 16 2) \<and> sp_destination_node (ma_spec a) \<noteq> NodeId (replicate 16 2)"
proof -
  let ?close = "sample_request Mp_Closing (Some sample_closing)"
  have "(journal_step sample_env)\<^sup>*\<^sup>* (sample_journal 0 None) (sample_journal 5 (Some ?close))"
    using journal_step.claim [OF sample_journal_steps(2)] journal_step.transition [OF sample_journal_steps(3)]
      journal_step.transition [OF sample_journal_steps(4)] journal_step.transition [OF sample_journal_steps(5)]
      journal_step.transition [OF sample_journal_steps(6)]
    by (meson converse_rtranclp_into_rtranclp rtranclp.rtrancl_refl)
  moreover have "mo_phase ?close \<in> {Mp_Closing, Mp_Completed}" "mo_node ?close = NodeId (replicate 16 2)"
    by (simp_all add: sample_request_def sample_maintenance_def)
  ultimately show ?thesis
    using closing_node_has_no_movement [OF sample_journal_steps(1), of sample_env _ ?close]
    by (simp add: sample_journal_def)
qed

end
