(* ===== verification/Spec2Isabelle.thy ===== *)
theory Spec2Isabelle
  imports Coordination Wire_Codec Control_Codec Resource_Ledger Fleet_Eviction
    Placement_Rounds Advertisement_Safety Journal_Safety
begin

text \<open>
  A verification development of the Cellule runtime (\<^verbatim>\<open>src/crates/cellule-runtime\<close>).

  Cellule runs many small durable state machines, the Cells, on a fleet of nodes. A Cell is owned by
  one node session at a time: ownership is a record in an object store, changed by compare and swap.
  Inside the owner a coordination kernel orders the Cell's work. Each node charges its resources to a
  ledger, classifies its pressure, evicts idle Cells and publishes a signed advertisement; from the
  advertisements of the fleet a planner ranks nodes and plans transfers; and a journal, again one
  compare-and-swap record, grants the permits under which Cells move and nodes are drained.
  Paths below are relative to \<^verbatim>\<open>src/crates/cellule-runtime/src\<close>.

  \<^bold>\<open>Foundations.\<close> \<open>Cellule_Prelude\<close> has the machine integers with Rust's checked, saturating and
  wrapping operations, the error and result types, byte strings and UTF-8. \<open>Rust_Order\<close> has Rust's
  comparators, stable sort and extremum searches, and the locales shared by all components:
  \<open>sort_order\<close> (a comparator that is a total order on the keys in use), \<open>preserved\<close> (an invariant of a
  step relation), \<open>ratchet\<close> (a preorder that every step climbs) and \<open>simulation\<close> (a functional
  refinement of a step relation). Every locale is interpreted on the definitions of the model.

  \<^bold>\<open>Cells.\<close>
  \<^item> \<open>Coordination\<close> models \<^verbatim>\<open>coordination/mod.rs\<close>: the kernel state, every input of \<^verbatim>\<open>step\<close> and
    the allocation of effect identities. Fencing is permanent, closing is one way, a deactivation
    is quiescent, identities are fresh, effects complete once, and every reachable state is well formed.
  \<^item> \<open>Cell_Identity\<close> models \<^verbatim>\<open>identity.rs\<close>: identities and targets. A Cell identity determines its target
    when the hash does not collide.
  \<^item> \<open>Control_Record\<close> and \<open>Control_Codec\<close> model \<^verbatim>\<open>control/mod.rs\<close> and \<^verbatim>\<open>control/codec.rs\<close>: the ownership
    record, each transition check, each successor builder and the canonical JSON form. An epoch has
    one owner, counters and roots only move forward, a pinned recovery overlay is not dropped, a
    tombstone is final, takeover and renewal are characterised exactly, and the stored form is unique.
  \<^item> \<open>Wire_Codec\<close> models \<^verbatim>\<open>codec.rs\<close>: the bounded encoder and decoder and the values it implements.
    Accepted buffers are exactly the encoder's output, within the limit or refused.

  \<^bold>\<open>Nodes.\<close>
  \<^item> \<open>Node_Log_State\<close> models \<^verbatim>\<open>node/log_state.rs\<close>: the life of a durability log and its recovery claims.
    It only moves forward, admits no append once recovery began, and fences superseded claims.
  \<^item> \<open>Resource_Ledger\<close>, \<open>Fleet_Eviction\<close>, \<open>Fleet_Pressure\<close> model \<^verbatim>\<open>fleet/resource.rs\<close>,
    \<^verbatim>\<open>fleet/eviction.rs\<close> and \<^verbatim>\<open>fleet/pressure.rs\<close>: the books of the ledger balance and the headroom is
    kept, the victims are the least of a total order, pressure changes are sustained, and the movement
    budget is bounded.
  \<^item> \<open>Node_Capacity\<close>, \<open>Node_Admission\<close>, \<open>Peer_Endpoint\<close>, \<open>Advertisement_Codec\<close>, \<open>Node_Advertisement\<close> and
    \<open>Advertisement_Safety\<close> model \<^verbatim>\<open>node/capacity.rs\<close>, \<^verbatim>\<open>fleet/admission/mod.rs\<close> and
    \<^verbatim>\<open>node/advertisement\<close>: capacity values, the admission gate, the endpoint grammar, the advertisement
    with its canonical form, its two signatures and its refreshes.

  \<^bold>\<open>The fleet.\<close>
  \<^item> \<open>Placement\<close> models \<^verbatim>\<open>fleet/placement/mod.rs\<close>. \<open>Placement_Plan\<close> shows that a plan respects the limits
    of the tick and of every receiver, \<open>Placement_Balance\<close> what one balance elects, and
    \<open>Placement_Rounds\<close> that rounds of balancing end.
  \<^item> \<open>Fleet_Operation\<close>, \<open>Move_Attempt\<close>, \<open>Attempt_Life\<close> model \<^verbatim>\<open>records.rs\<close>, \<^verbatim>\<open>intent.rs\<close>, \<^verbatim>\<open>attempt.rs\<close> and
    \<^verbatim>\<open>recovery.rs\<close> of \<^verbatim>\<open>fleet/operations\<close>: maintenance operations, node intents and movement attempts.
    Cordons hold until the node is drained, a release is never undone, the guards of an event
    imply the validity of its result, and every attempt can be settled.
  \<^item> \<open>Fleet_Codec\<close> and \<open>Attempt_Codec\<close> model the stored forms of these records (\<^verbatim>\<open>fleet/operations/codec\<close>).
  \<^item> \<open>Fleet_Journal\<close> and \<open>Journal_Safety\<close> model \<^verbatim>\<open>journal.rs\<close> and \<^verbatim>\<open>history.rs\<close>. The journal refines a book of
    permits; a superseded controller is fenced; a closing node takes part in no movement; and heads,
    pages and intents decode exactly from their own encodings.
  \<^item> This theory relates the two ends: the planner regards a node as eligible exactly when the node's own
    gate was open.

  \<^bold>\<open>How the code is read.\<close> A struct is a record, an enum a datatype, a method a function that returns the
  updated value; \<^verbatim>\<open>Err\<close> and early returns are \<open>Inl\<close>. Where the code changes a value in place and then
  fails, its callers drop the value, and the model returns the error alone. Histories are step
  relations over the operations, whatever order a caller chooses. Unsigned integers keep their width,
  \<^verbatim>\<open>usize\<close> being 64 bits; signed times are integers in the 64-bit range. Identities are byte lists, and the
  width of an identity is a premise where it matters. Maps with ordered keys are association lists.

  \<^bold>\<open>Parameters.\<close> BLAKE3, Ed25519 and serde JSON are third-party code. They are arguments of the
  definitions; collision freedom, the law of signing and verification, and the injectivity of the
  serialiser are premises of the theorems that need them, and each such theorem is applied to a concrete
  instance in its witness.

  \<^bold>\<open>Loops and bounds.\<close> No definition uses fuel. Loops over collections are structural recursion. The one
  loop of the source without an evident bound, the search for a free effect identity in
  \<^verbatim>\<open>coordination/mod.rs\<close>, is a partial function in the option monad, and it is shown to return.

  \<^bold>\<open>Not modelled.\<close> The asynchronous parts that move bytes: actors, executors, clients, the control
  authority, followers, the node directory, logs and their recovery, bundles, publication, peers, the
  scheduler and the primitives of the runtime, and the other crates. They perform I/O over SQLite, object
  stores and transports, and take their decisions through the components above. Of \<^verbatim>\<open>fleet/operations\<close>
  the action envelopes, enrollments, inspections and inventories are left out, as are random
  identities, telemetry, lock poisoning and waiting.
\<close>

subsection \<open>From a node's own gate to the fleet's planner\<close>

lemma placement_pressure_of_Normal [simp]: "placement_pressure_of p = Pp_Normal \<longleftrightarrow> p = Np_Normal"
  by (cases p) auto

lemma with_operational_placement_Inr:
  assumes "with_operational_placement bd a p sample key = Inr b"
  shows "na_operational_sample b = Some sample" "na_placement b = Some p"
    "na_placement_version b = OPERATIONAL_PLACEMENT_SCHEMA_VERSION" "na_capacity b = na_capacity a"
    "placement_validated p = Inr p"
  using assms by (auto simp: with_operational_placement_def rust_simps Let_def split: if_splits)

text \<open>
  C36: The planner sees what the node admits. Take the sample a node's admission gate publishes, sign
  it into an advertisement with a measured placement block, and let any peer convert the
  advertisement after verification: the observation is eligible exactly when the gate itself would have
  accepted a new role when the sample was taken, the sample is within the planner's freshness window,
  and the signed capacity has free memory, disk, Cell slots and job slots.
\<close>

theorem eligible_iff_admitted:
  assumes "admission_sample gate = Some sample"
    and "with_operational_placement bd a p sample key = Inr b"
    and "from_signed_advertisement bd b now owner = Inr ob"
  shows "eligibility planner now ob = Eligible \<longleftrightarrow>
    check_new_role gate = Inr ()
    \<and> os_observed_at_ms sample \<ge> 0 \<and> os_observed_at_ms sample \<le> now
    \<and> i64_saturating_sub now (os_observed_at_ms sample) \<le> pl_max_observation_age_ms planner
    \<and> nc_free_memory_bytes (na_capacity a) \<noteq> 0 \<and> nc_free_disk_bytes (na_capacity a) \<noteq> 0
    \<and> npc_active_cells p < npc_max_active_cells p \<and> npc_running_jobs p < npc_job_capacity p"
proof -
  note b = with_operational_placement_Inr [OF assms(2)]
  have "ob = from_signed_capacity b p (na_capacity a) owner"
    using assms(3) b by (auto simp: from_signed_advertisement_def rust_simps split: if_splits)
  moreover have "operational_sample b = Some sample"
    using b by (simp add: operational_sample_def)
  moreover have "check_new_role gate = Inr () \<longleftrightarrow> os_mode sample = Nm_Active \<and> os_pressure sample = Np_Normal"
    using assms(1) by (auto simp: admission_sample_def check_new_role_def)
  ultimately show ?thesis
    using b(5) by (auto simp: eligibility_Eligible from_signed_capacity_def Let_def fresh_def
        placement_validated_Inr)
qed

definition sample_gate :: admission_state where
  "sample_gate = admission_default\<lparr>as_observed_at_ms := Some 50, as_sequence := 7\<rparr>"

theorem eligible_iff_admitted_witness:
  "\<exists>bd :: unit boundary. \<exists>b ob. admission_sample sample_gate = Some (sample_operational 7 50)
     \<and> with_operational_placement bd (sample_advertisement 3 50) sample_placement
         (sample_operational 7 50) () = Inr b
     \<and> from_signed_advertisement bd b 60 False = Inr ob
     \<and> eligibility planner_default 60 ob = Eligible"
proof -
  let ?a = "sample_advertisement 3 50" and ?b = "sample_operational_advertisement 3 50 7"
  let ?bd = "sample_boundary ?b"
  let ?ob = "from_signed_capacity ?b sample_placement (na_capacity ?b) False"
  have gate: "admission_sample sample_gate = Some (sample_operational 7 50)"
    by code_simp
  have b: "?a\<lparr>na_placement := Some sample_placement, na_operational_sample := Some (sample_operational 7 50),
      na_placement_version := OPERATIONAL_PLACEMENT_SCHEMA_VERSION\<rparr> = ?b"
    by (simp add: sample_operational_advertisement_def sample_advertisement_def
        OPERATIONAL_PLACEMENT_SCHEMA_VERSION_def)
  have "placement_validated sample_placement = Inr sample_placement"
      "operational_validated (sample_operational 7 50) = Inr (sample_operational 7 50)"
    by code_simp+
  moreover have "placement_signing_bytes ?bd ?b = Inr (PLACEMENT_SIGNING_DOMAIN @ [0x7b])"
    by (rule sample_signing)
  moreover have "?b\<lparr>na_placement_signature := replicate 64 9\<rparr> = ?b" "bd_public ?bd () = na_public_key ?a"
      "bd_sign ?bd () (PLACEMENT_SIGNING_DOMAIN @ [0x7b]) = replicate 64 9"
    by (simp_all add: sample_operational_advertisement_def sample_advertisement_def sample_boundary_def
        sample_signature_def)
  ultimately have w: "with_operational_placement ?bd ?a sample_placement (sample_operational 7 50) () = Inr ?b"
    using b sample_shapes(1) by (simp add: with_operational_placement_def Let_def)
  have "has_signed_placement ?b"
    by code_simp
  moreover have "na_placement ?b = Some sample_placement" "\<not> na_expires_at_ms ?b \<le> 60"
    by (simp_all add: sample_operational_advertisement_def sample_advertisement_def)
  ultimately have f: "from_signed_advertisement ?bd ?b 60 False = Inr ?ob"
    using sample_verifies [OF sample_shapes(1) _ sample_signatures] by (simp add: from_signed_advertisement_def)
  have "check_new_role sample_gate = Inr ()"
    by code_simp
  then have "eligibility planner_default 60 ?ob = Eligible"
    unfolding eligible_iff_admitted [OF gate w f]
    by (simp add: sample_operational_def planner_default_def MAX_OBSERVATION_AGE_MS_def
        i64_saturating_sub_def i64_MIN_def i64_MAX_def sample_advertisement_def sample_capacity_def
        sample_placement_def)
  then show ?thesis
    using gate w f by blast
qed

end
